theory Spec2Isabelle
  imports Main "HOL-Library.AList"
begin

unbundle bit_operations_syntax

section \<open>Python values used by ftumixer.py\<close>

text \<open>
  The exceptions that the modelled code can raise. \<open>ALSAAudioError\<close> is the exception of
  the ALSA binding; the others are Python's built-in ones. An operation that can raise
  returns \<open>error + 'a\<close>, with \<open>Inl\<close> for the exception; an operation that also changes
  the mixer returns the pair of that result and the state reached, so that the state left
  behind by an exception stays visible.
\<close>

datatype error = IndexError | ValueError | KeyError | AttributeError | ALSAAudioError

text \<open>
  List indexing \<open>xs[i]\<close>: a negative index counts from the end, anything outside
  \<open>[-len, len)\<close> raises IndexError.
\<close>

definition resolve_index :: "nat \<Rightarrow> int \<Rightarrow> error + nat" where
  "resolve_index n i =
     (let j = (if i < 0 then int n + i else i)
      in if 0 \<le> j \<and> j < int n then Inr (nat j) else Inl IndexError)"

definition getitem :: "'a list \<Rightarrow> int \<Rightarrow> error + 'a" where
  "getitem xs i =
     (case resolve_index (length xs) i of Inl e \<Rightarrow> Inl e | Inr j \<Rightarrow> Inr (xs ! j))"

subsection \<open>Integers and strings\<close>

text \<open>The conversion \<open>"%i" % n\<close> (and \<open>str(n)\<close>) of an integer: decimal digits, a minus sign.\<close>

definition digit_char :: "nat \<Rightarrow> char" where
  "digit_char d = char_of (48 + d)"

definition is_digit :: "char \<Rightarrow> bool" where
  "is_digit c = (48 \<le> (of_char c :: nat) \<and> (of_char c :: nat) \<le> 57)"

definition digit_val :: "char \<Rightarrow> nat" where
  "digit_val c = of_char c - 48"

fun digits :: "nat \<Rightarrow> string" where
  "digits n = (if n < 10 then [digit_char n] else digits (n div 10) @ [digit_char (n mod 10)])"

declare digits.simps [simp del]

definition format_int :: "int \<Rightarrow> string" where
  "format_int i = (if i < 0 then CHR ''-'' # digits (nat (- i)) else digits (nat i))"

text \<open>
  \<open>int(s)\<close> on a string of characters with code points below 256: surrounding whitespace
  is dropped, one sign is allowed, then decimal digits, where single underscores may stand
  between two digits. Everything else raises ValueError. The whitespace that \<open>int\<close> drops
  is tab, line feed, vertical tab, form feed, carriage return and blank, and of the
  characters from 128 on the next-line character (133) and the no-break space (160); the
  separators 28 to 31, which \<open>str.strip\<close> would drop, make \<open>int\<close> raise.
\<close>

definition is_space :: "char \<Rightarrow> bool" where
  "is_space c =
     (let k = (of_char c :: nat) in (9 \<le> k \<and> k \<le> 13) \<or> k = 32 \<or> k = 133 \<or> k = 160)"

definition strip :: "string \<Rightarrow> string" where
  "strip s = rev (dropWhile is_space (rev (dropWhile is_space s)))"

fun digits_value :: "nat \<Rightarrow> string \<Rightarrow> nat option" where
  "digits_value acc [] = Some acc"
| "digits_value acc (c # cs) =
     (if is_digit c then digits_value (acc * 10 + digit_val c) cs
      else if c = CHR ''_'' then
        (case cs of
           [] \<Rightarrow> None
         | d # ds \<Rightarrow> if is_digit d then digits_value (acc * 10 + digit_val d) ds else None)
      else None)"

definition parse_nat :: "string \<Rightarrow> nat option" where
  "parse_nat s =
     (case s of
        [] \<Rightarrow> None
      | c # cs \<Rightarrow> if is_digit c then digits_value (digit_val c) cs else None)"

definition py_int :: "string \<Rightarrow> error + int" where
  "py_int s =
     (let t = strip s;
          r = (case t of
                 [] \<Rightarrow> None
               | c # cs \<Rightarrow>
                   if c = CHR ''-'' then map_option (\<lambda>n. - int n) (parse_nat cs)
                   else if c = CHR ''+'' then map_option int (parse_nat cs)
                   else map_option int (parse_nat t))
      in case r of None \<Rightarrow> Inl ValueError | Some v \<Rightarrow> Inr v)"

text \<open>
  \<open>s.split(sep)\<close> for a non-empty separator: the pieces between the occurrences of
  \<open>sep\<close>, found from the left without overlap. Every separator in ftumixer.py is a
  non-empty literal (an empty one raises ValueError in Python, which no call here can do).
\<close>

fun find_sep :: "string \<Rightarrow> string \<Rightarrow> (string \<times> string) option" where
  "find_sep sep [] = (if sep = [] then Some ([], []) else None)"
| "find_sep sep (c # cs) =
     (if take (length sep) (c # cs) = sep then Some ([], drop (length sep) (c # cs))
      else (case find_sep sep cs of None \<Rightarrow> None | Some (p, r) \<Rightarrow> Some (c # p, r)))"

lemma find_sep_shorter:
  "sep \<noteq> [] \<Longrightarrow> find_sep sep s = Some (p, r) \<Longrightarrow> length r < length s"
  by (induction s arbitrary: p r) (auto split: if_splits option.splits)

function py_split :: "string \<Rightarrow> string \<Rightarrow> string list" where
  "py_split sep s =
     (if sep = [] then [s]
      else (case find_sep sep s of None \<Rightarrow> [s] | Some (p, r) \<Rightarrow> p # py_split sep r))"
  by pat_completeness auto
termination
  by (relation "measure (\<lambda>(sep, s). length s)") (auto dest: find_sep_shorter)

declare py_split.simps [simp del]

text \<open>
  \<open>s.replace(" ", "_").lower()\<close>, on names of characters with code points below 256: the
  capital letters are A to Z and the letters 192 to 222 without the multiplication sign
  (215).
\<close>

definition lower_char :: "char \<Rightarrow> char" where
  "lower_char c =
     (let k = (of_char c :: nat)
      in if (65 \<le> k \<and> k \<le> 90) \<or> (192 \<le> k \<and> k \<le> 222 \<and> k \<noteq> 215)
         then char_of (k + 32) else c)"

definition control_key :: "string \<Rightarrow> string" where
  "control_key n = map lower_char (map (\<lambda>c. if c = CHR '' '' then CHR ''_'' else c) n)"

text \<open>\<open>s.lstrip(chars)\<close> and \<open>s.rstrip(chars)\<close> drop the characters of a set from one end.\<close>

definition lstrip :: "string \<Rightarrow> string \<Rightarrow> string" where
  "lstrip chars s = dropWhile (\<lambda>c. c \<in> set chars) s"

definition rstrip :: "string \<Rightarrow> string \<Rightarrow> string" where
  "rstrip chars s = rev (dropWhile (\<lambda>c. c \<in> set chars) (rev s))"

text \<open>
  A value of a configuration dictionary: an integer or a string. \<open>GetConfigDict\<close> stores
  integers for volumes; a dictionary read from a file holds strings only.
\<close>

datatype cfgval = VInt int | VStr string

fun to_int :: "cfgval \<Rightarrow> error + int" where
  "to_int (VInt n) = Inr n"
| "to_int (VStr s) = py_int s"

fun to_str :: "cfgval \<Rightarrow> string" where
  "to_str (VInt n) = format_int n"
| "to_str (VStr s) = s"

type_synonym cfgsection = "(string \<times> cfgval) list"
type_synonym configdict = "(string \<times> cfgsection) list"

text \<open>
  A dictionary is an association list in insertion order; \<open>d[k] = v\<close> is \<open>AList.update\<close>
  (replace in place, or append), \<open>k in d\<close> and \<open>d[k]\<close> read \<open>map_of\<close>, and a loop over
  the dictionary visits \<open>map fst d\<close>.
\<close>

definition dict_get :: "('k \<times> 'v) list \<Rightarrow> 'k \<Rightarrow> error + 'v" where
  "dict_get d k = (case map_of d k of None \<Rightarrow> Inl KeyError | Some v \<Rightarrow> Inr v)"

section \<open>The ALSA controls\<close>

text \<open>
  Modelled from the spec: the ControlBackend, which is the ALSA binding \<open>alsaaudio\<close> and
  not part of the repository. A control has a name, a volume in percent of its first
  channel when it has a volume capability (\<open>getvolume()[0]\<close>; \<open>volumecap() != []\<close>), and a
  current item with the list of items when it is an enumerated control (\<open>getenum()\<close>,
  which is \<open>()\<close> otherwise). \<open>setvolume\<close> accepts the percentages 0 to 100 and raises
  ALSAAudioError for every other value and for a control without volume; \<open>getvolume()\<close>
  of a control without volume is the empty list, so that \<open>[0]\<close> raises IndexError.
\<close>

record control =
  ctl_name :: string
  ctl_volume :: "int option"
  ctl_enum :: "(string \<times> string list) option"

definition ctl_getvolume0 :: "control \<Rightarrow> error + int" where
  "ctl_getvolume0 c = (case ctl_volume c of None \<Rightarrow> Inl IndexError | Some v \<Rightarrow> Inr v)"

definition ctl_setvolume :: "int \<Rightarrow> control \<Rightarrow> error + control" where
  "ctl_setvolume v c =
     (if ctl_volume c = None \<or> v < 0 \<or> 100 < v then Inl ALSAAudioError
      else Inr (c\<lparr>ctl_volume := Some v\<rparr>))"

section \<open>class Mixer\<close>

type_synonym route = "int \<times> int"

text \<open>
  The fields of \<open>Mixer\<close>. A route table is a list (by output) of lists (by input) of
  controls, with \<open>None\<close> where \<open>__CreateRoute\<close> padded a gap. \<open>card_controls\<close> are the
  effect controls of the sound card by name, which \<open>alsaaudio.Mixer(n, cardindex)\<close> opens.
  An observer is a callback, named by a number; \<open>dispatched\<close> is the trace of the observer
  calls made so far (observer, changed analog routes, changed digital routes), and
  \<open>backend_writes\<close> the trace of the \<open>setvolume\<close> calls made on ALSA controls (control name,
  value passed), whether the control accepted them or not.
\<close>

record mixer =
  analog_routes :: "control option list list"
  digital_routes :: "control option list list"
  fx_control_names :: "string list"
  card_controls :: "(string \<times> control) list"
  observers :: "nat list"
  descriptors_to_routes :: "(int \<times> (int \<times> int \<times> bool)) list"
  dispatched :: "(nat \<times> route list \<times> route list) list"
  backend_writes :: "(string \<times> int) list"

definition GetNumberOfChannels :: "mixer \<Rightarrow> nat" where
  "GetNumberOfChannels m = length (analog_routes m)"

text \<open>
  The expression \<open>routes[output_channel][input_channel]\<close> followed by a method call: two
  list lookups, and AttributeError when the entry is \<open>None\<close>.
\<close>

definition route_at :: "control option list list \<Rightarrow> int \<Rightarrow> int \<Rightarrow> error + (nat \<times> nat \<times> control)" where
  "route_at rows out inp =
     (case resolve_index (length rows) out of
        Inl e \<Rightarrow> Inl e
      | Inr ro \<Rightarrow>
          (case resolve_index (length (rows ! ro)) inp of
             Inl e \<Rightarrow> Inl e
           | Inr ri \<Rightarrow>
               (case rows ! ro ! ri of
                  None \<Rightarrow> Inl AttributeError
                | Some c \<Rightarrow> Inr (ro, ri, c))))"

definition routes_of :: "bool \<Rightarrow> mixer \<Rightarrow> control option list list" where
  "routes_of digital m = (if digital then digital_routes m else analog_routes m)"

definition GetVolume :: "int \<Rightarrow> int \<Rightarrow> bool \<Rightarrow> mixer \<Rightarrow> error + int" where
  "GetVolume output_channel input_channel digital m =
     (case route_at (routes_of digital m) output_channel input_channel of
        Inl e \<Rightarrow> Inl e
      | Inr (ro, ri, c) \<Rightarrow> ctl_getvolume0 c)"

definition store_route :: "bool \<Rightarrow> nat \<Rightarrow> nat \<Rightarrow> control \<Rightarrow> mixer \<Rightarrow> mixer" where
  "store_route digital ro ri c m =
     (if digital
      then m\<lparr>digital_routes := (digital_routes m)[ro := (digital_routes m ! ro)[ri := Some c]]\<rparr>
      else m\<lparr>analog_routes := (analog_routes m)[ro := (analog_routes m ! ro)[ri := Some c]]\<rparr>)"

text \<open>
  \<open>routes[o][i].setvolume(v, 0)\<close>: the value goes to the control as it is; the call is
  recorded in \<open>backend_writes\<close>, and the control's answer decides the outcome.
\<close>

definition route_setvolume :: "bool \<Rightarrow> int \<Rightarrow> int \<Rightarrow> int \<Rightarrow> mixer \<Rightarrow> (error + unit) \<times> mixer" where
  "route_setvolume digital v out inp m =
     (case route_at (routes_of digital m) out inp of
        Inl e \<Rightarrow> (Inl e, m)
      | Inr (ro, ri, c) \<Rightarrow>
          (let m1 = m\<lparr>backend_writes := backend_writes m @ [(ctl_name c, v)]\<rparr>
           in case ctl_setvolume v c of
                Inl e \<Rightarrow> (Inl e, m1)
              | Inr c' \<Rightarrow> (Inr (), store_route digital ro ri c' m1)))"

definition SetVolume :: "int \<Rightarrow> int \<Rightarrow> int \<Rightarrow> bool \<Rightarrow> mixer \<Rightarrow> (error + unit) \<times> mixer" where
  "SetVolume v output_channel input_channel digital m =
     (if digital then route_setvolume True v output_channel input_channel m
      else route_setvolume False v output_channel input_channel m)"

definition AddObserver :: "nat \<Rightarrow> mixer \<Rightarrow> mixer" where
  "AddObserver f m = m\<lparr>observers := observers m @ [f]\<rparr>"

text \<open>\<open>for o in self.__observers: o(changed_analog_routes, changed_digital_routes)\<close>\<close>

fun call_observers :: "nat list \<Rightarrow> route list \<Rightarrow> route list \<Rightarrow> mixer \<Rightarrow> mixer" where
  "call_observers [] changed_analog changed_digital m = m"
| "call_observers (ob # obs) changed_analog changed_digital m =
     call_observers obs changed_analog changed_digital
       (m\<lparr>dispatched := dispatched m @ [(ob, changed_analog, changed_digital)]\<rparr>)"

subsection \<open>MuteMostDigitalRoutes\<close>

fun mute_inputs :: "nat \<Rightarrow> nat list \<Rightarrow> mixer \<Rightarrow> (error + unit) \<times> mixer" where
  "mute_inputs out [] m = (Inr (), m)"
| "mute_inputs out (inp # inps) m =
     (if out \<noteq> inp then
        (case route_setvolume True 0 (int out) (int inp) m of
           (Inl e, m') \<Rightarrow> (Inl e, m')
         | (Inr u, m') \<Rightarrow> mute_inputs out inps m')
      else mute_inputs out inps m)"

fun mute_outputs :: "nat list \<Rightarrow> mixer \<Rightarrow> (error + unit) \<times> mixer" where
  "mute_outputs [] m = (Inr (), m)"
| "mute_outputs (out # outs) m =
     (case mute_inputs out [0..<length (digital_routes m ! out)] m of
        (Inl e, m') \<Rightarrow> (Inl e, m')
      | (Inr u, m') \<Rightarrow> mute_outputs outs m')"

definition MuteMostDigitalRoutes :: "mixer \<Rightarrow> (error + unit) \<times> mixer" where
  "MuteMostDigitalRoutes m = mute_outputs [0..<length (digital_routes m)] m"

subsection \<open>GetConfigDict\<close>

text \<open>The key \<open>"ain%i_to_out%i" % (i + 1, o + 1)\<close>, and the same with \<open>din\<close>.\<close>

definition route_key :: "string \<Rightarrow> nat \<Rightarrow> nat \<Rightarrow> string" where
  "route_key prefix inp out =
     prefix @ format_int (int inp + 1) @ ''_to_out'' @ format_int (int out + 1)"

text \<open>
  The two nested loops of \<open>GetConfigDict\<close> differ in the table that \<open>GetVolume\<close> reads and
  in the outer range; the inner range is \<open>range(len(self.__analog_routes[o]))\<close> in both.
\<close>

fun dump_inputs :: "bool \<Rightarrow> string \<Rightarrow> nat \<Rightarrow> nat list \<Rightarrow> mixer \<Rightarrow> cfgsection \<Rightarrow> error + cfgsection" where
  "dump_inputs digital prefix out [] m sec = Inr sec"
| "dump_inputs digital prefix out (inp # inps) m sec =
     (case GetVolume (int out) (int inp) digital m of
        Inl e \<Rightarrow> Inl e
      | Inr v \<Rightarrow>
          dump_inputs digital prefix out inps m
            (AList.update (route_key prefix inp out) (VInt v) sec))"

fun dump_outputs :: "bool \<Rightarrow> string \<Rightarrow> nat list \<Rightarrow> mixer \<Rightarrow> cfgsection \<Rightarrow> error + cfgsection" where
  "dump_outputs digital prefix [] m sec = Inr sec"
| "dump_outputs digital prefix (out # outs) m sec =
     (case getitem (analog_routes m) (int out) of
        Inl e \<Rightarrow> Inl e
      | Inr row \<Rightarrow>
          (case dump_inputs digital prefix out [0..<length row] m sec of
             Inl e \<Rightarrow> Inl e
           | Inr sec' \<Rightarrow> dump_outputs digital prefix outs m sec'))"

text \<open>\<open>alsaaudio.Mixer(n, cardindex=...)\<close>: the effect control of that name.\<close>

definition open_control :: "mixer \<Rightarrow> string \<Rightarrow> error + control" where
  "open_control m n =
     (case map_of (card_controls m) n of None \<Rightarrow> Inl ALSAAudioError | Some c \<Rightarrow> Inr c)"

fun dump_effects :: "string list \<Rightarrow> mixer \<Rightarrow> cfgsection \<Rightarrow> error + cfgsection" where
  "dump_effects [] m sec = Inr sec"
| "dump_effects (n # ns) m sec =
     (case open_control m n of
        Inl e \<Rightarrow> Inl e
      | Inr c \<Rightarrow>
          (case ctl_enum c of
             None \<Rightarrow>
               (case ctl_getvolume0 c of
                  Inl e \<Rightarrow> Inl e
                | Inr v \<Rightarrow> dump_effects ns m (AList.update (control_key n) (VInt v) sec))
           | Some (current, items) \<Rightarrow>
               dump_effects ns m (AList.update (control_key n) (VStr current) sec)))"

definition GetConfigDict :: "mixer \<Rightarrow> error + configdict" where
  "GetConfigDict m =
     (case dump_outputs False ''ain'' [0..<length (analog_routes m)] m [] of
        Inl e \<Rightarrow> Inl e
      | Inr analog \<Rightarrow>
          (case dump_outputs True ''din'' [0..<length (digital_routes m)] m [] of
             Inl e \<Rightarrow> Inl e
           | Inr digital \<Rightarrow>
               (case dump_effects (fx_control_names m) m [] of
                  Inl e \<Rightarrow> Inl e
                | Inr effects \<Rightarrow>
                    Inr [(''Analog'', analog), (''Digital'', digital), (''Effects'', effects)])))"

subsection \<open>ParseConfigDict\<close>

text \<open>\<open>[int(s) - 1 for s in ...]\<close>\<close>

fun ints_minus_one :: "string list \<Rightarrow> error + int list" where
  "ints_minus_one [] = Inr []"
| "ints_minus_one (s # ss) =
     (case py_int s of
        Inl e \<Rightarrow> Inl e
      | Inr n \<Rightarrow> (case ints_minus_one ss of Inl e \<Rightarrow> Inl e | Inr ns \<Rightarrow> Inr ((n - 1) # ns)))"

text \<open>
  \<open>i, o = [int(s) - 1 for s in key.split("ain")[1].split("_to_out")]\<close>: IndexError when
  the key does not contain the prefix, ValueError when a piece is not an integer or when
  there are not exactly two pieces.
\<close>

definition parse_route_key :: "string \<Rightarrow> string \<Rightarrow> error + (int \<times> int)" where
  "parse_route_key prefix key =
     (case getitem (py_split prefix key) 1 of
        Inl e \<Rightarrow> Inl e
      | Inr rest \<Rightarrow>
          (case ints_minus_one (py_split ''_to_out'' rest) of
             Inl e \<Rightarrow> Inl e
           | Inr ns \<Rightarrow> (case ns of [i, out] \<Rightarrow> Inr (i, out) | _ \<Rightarrow> Inl ValueError)))"

text \<open>
  The loop over the keys of the Analog section (\<open>digital = False\<close>, prefix \<open>ain\<close>) and
  the loop over the keys of the Digital section (\<open>digital = True\<close>, prefix \<open>din\<close>).
\<close>

fun parse_routes :: "bool \<Rightarrow> string \<Rightarrow> cfgsection \<Rightarrow> string list \<Rightarrow> route list \<Rightarrow> mixer \<Rightarrow> (error + route list) \<times> mixer" where
  "parse_routes digital prefix sec [] changed m = (Inr changed, m)"
| "parse_routes digital prefix sec (key # keys) changed m =
     (case parse_route_key prefix key of
        Inl e \<Rightarrow> (Inl e, m)
      | Inr (i, out) \<Rightarrow>
          (case dict_get sec key of
             Inl e \<Rightarrow> (Inl e, m)
           | Inr raw \<Rightarrow>
               (case to_int raw of
                  Inl e \<Rightarrow> (Inl e, m)
                | Inr v \<Rightarrow>
                    (case SetVolume v out i digital m of
                       (Inl e, m') \<Rightarrow> (Inl e, m')
                     | (Inr u, m') \<Rightarrow>
                         parse_routes digital prefix sec keys (changed @ [(out, i)]) m'))))"

text \<open>
  Modelled from the spec: the external program \<open>amixer\<close>, which \<open>ParseConfigDict\<close> runs as
  \<open>amixer -c<card> sset <name> <item>\<close> to select an item of an enumerated control.
\<close>

definition amixer_sset :: "string \<Rightarrow> string \<Rightarrow> mixer \<Rightarrow> mixer" where
  "amixer_sset n item m =
     (case map_of (card_controls m) n of
        None \<Rightarrow> m
      | Some c \<Rightarrow>
          (case ctl_enum c of
             None \<Rightarrow> m
           | Some (current, items) \<Rightarrow>
               if item \<in> set items
               then m\<lparr>card_controls :=
                        AList.update n (c\<lparr>ctl_enum := Some (item, items)\<rparr>) (card_controls m)\<rparr>
               else m))"

fun parse_effects :: "string list \<Rightarrow> cfgsection \<Rightarrow> mixer \<Rightarrow> (error + unit) \<times> mixer" where
  "parse_effects [] sec m = (Inr (), m)"
| "parse_effects (n # ns) sec m =
     (case map_of sec (control_key n) of
        None \<Rightarrow> parse_effects ns sec m
      | Some raw \<Rightarrow>
          (case open_control m n of
             Inl e \<Rightarrow> (Inl e, m)
           | Inr c \<Rightarrow>
               (case ctl_enum c of
                  None \<Rightarrow>
                    (case to_int raw of
                       Inl e \<Rightarrow> (Inl e, m)
                     | Inr v \<Rightarrow>
                         (let m1 = m\<lparr>backend_writes := backend_writes m @ [(n, v)]\<rparr>
                          in case ctl_setvolume v c of
                               Inl e \<Rightarrow> (Inl e, m1)
                             | Inr c' \<Rightarrow>
                                 parse_effects ns sec
                                   (m1\<lparr>card_controls := AList.update n c' (card_controls m1)\<rparr>)))
                | Some (current, items) \<Rightarrow>
                    (if (case raw of VStr s \<Rightarrow> s \<in> set items | VInt k \<Rightarrow> False)
                     then parse_effects ns sec (amixer_sset n (to_str raw) m)
                     else parse_effects ns sec m))))"

text \<open>
  The three parts of \<open>ParseConfigDict\<close>, one for each \<open>if "..." in configdict\<close>, and the
  loop over the observers at its end.
\<close>

definition parse_analog_section :: "configdict \<Rightarrow> mixer \<Rightarrow> (error + route list) \<times> mixer" where
  "parse_analog_section d m =
     (case map_of d ''Analog'' of
        None \<Rightarrow> (Inr [], m)
      | Some sec \<Rightarrow> parse_routes False ''ain'' sec (map fst sec) [] m)"

definition parse_digital_section :: "configdict \<Rightarrow> mixer \<Rightarrow> (error + route list) \<times> mixer" where
  "parse_digital_section d m =
     (case map_of d ''Digital'' of
        None \<Rightarrow> (Inr [], m)
      | Some sec \<Rightarrow> parse_routes True ''din'' sec (map fst sec) [] m)"

definition parse_effects_section :: "configdict \<Rightarrow> mixer \<Rightarrow> (error + unit) \<times> mixer" where
  "parse_effects_section d m =
     (case map_of d ''Effects'' of
        None \<Rightarrow> (Inr (), m)
      | Some sec \<Rightarrow> parse_effects (fx_control_names m) sec m)"

definition ParseConfigDict :: "configdict \<Rightarrow> mixer \<Rightarrow> (error + unit) \<times> mixer" where
  "ParseConfigDict d m =
     (case parse_analog_section d m of
        (Inl e, m1) \<Rightarrow> (Inl e, m1)
      | (Inr changed_analog_routes, m1) \<Rightarrow>
          (case parse_digital_section d m1 of
             (Inl e, m2) \<Rightarrow> (Inl e, m2)
           | (Inr changed_digital_routes, m2) \<Rightarrow>
               (case parse_effects_section d m2 of
                  (Inl e, m3) \<Rightarrow> (Inl e, m3)
                | (Inr u, m3) \<Rightarrow>
                    (Inr (),
                     call_observers (observers m3) changed_analog_routes changed_digital_routes
                       m3))))"

subsection \<open>One cycle of the polling thread\<close>

text \<open>
  \<open>__PollForChanges\<close> repeats one cycle for ever. A cycle starts from the list that
  \<open>self.__poll.poll(700)\<close> returns: pairs of a file descriptor and an event mask.
  \<open>select.POLLIN\<close> is 1.
\<close>

definition POLLIN :: int where
  "POLLIN = 1"

fun collect_changes :: "(int \<times> int) list \<Rightarrow> mixer \<Rightarrow> route list \<Rightarrow> route list \<Rightarrow> error + (route list \<times> route list)" where
  "collect_changes [] m changed_analog changed_digital = Inr (changed_analog, changed_digital)"
| "collect_changes (d # ds) m changed_analog changed_digital =
     (if (snd d AND POLLIN) \<noteq> 0 then
        (case dict_get (descriptors_to_routes m) (fst d) of
           Inl e \<Rightarrow> Inl e
         | Inr (out, inp, digital) \<Rightarrow>
             if digital then collect_changes ds m changed_analog (changed_digital @ [(out, inp)])
             else collect_changes ds m (changed_analog @ [(out, inp)]) changed_digital)
      else collect_changes ds m changed_analog changed_digital)"

definition poll_cycle :: "(int \<times> int) list \<Rightarrow> mixer \<Rightarrow> (error + unit) \<times> mixer" where
  "poll_cycle ready m =
     (case collect_changes ready m [] [] of
        Inl e \<Rightarrow> (Inl e, m)
      | Inr (changed_analog_routes, changed_digital_routes) \<Rightarrow>
          if changed_analog_routes \<noteq> [] \<or> changed_digital_routes \<noteq> []
          then (Inr (),
                call_observers (observers m) changed_analog_routes changed_digital_routes m)
          else (Inr (), m))"

text \<open>The thread's loop, run on the results of finitely many polls.\<close>

fun PollForChanges :: "(int \<times> int) list list \<Rightarrow> mixer \<Rightarrow> (error + unit) \<times> mixer" where
  "PollForChanges [] m = (Inr (), m)"
| "PollForChanges (ready # later) m =
     (case poll_cycle ready m of
        (Inl e, m') \<Rightarrow> (Inl e, m')
      | (Inr u, m') \<Rightarrow> PollForChanges later m')"

section \<open>class Gui: the sliders and the links\<close>

text \<open>
  A slider is a widget with an identifier (\<open>GetId()\<close>) and a value; beside every slider
  stands a label with the volume as text. \<open>links\<close> is \<open>self.__links\<close>: for every output
  the output linked to it, or \<open>None\<close>.
\<close>

record slider =
  widget_id :: int
  slider_value :: int

record gui =
  gui_mixer :: mixer
  hardwarerouting_sliders :: "(slider \<times> string) list list"
  links :: "int option list"

definition slider_at :: "(slider \<times> string) list list \<Rightarrow> int \<Rightarrow> int \<Rightarrow> error + (nat \<times> nat \<times> slider \<times> string)" where
  "slider_at rows out inp =
     (case resolve_index (length rows) out of
        Inl e \<Rightarrow> Inl e
      | Inr ro \<Rightarrow>
          (case resolve_index (length (rows ! ro)) inp of
             Inl e \<Rightarrow> Inl e
           | Inr ri \<Rightarrow> Inr (ro, ri, rows ! ro ! ri)))"

definition put_slider :: "nat \<Rightarrow> nat \<Rightarrow> slider \<times> string \<Rightarrow> gui \<Rightarrow> gui" where
  "put_slider ro ri sv g =
     g\<lparr>hardwarerouting_sliders :=
         (hardwarerouting_sliders g)[ro := (hardwarerouting_sliders g ! ro)[ri := sv]]\<rparr>"

text \<open>
  \<open>__OnHardwareRouting\<close> calls itself for the linked output until the linked slider is the
  one the event came from. Nothing in the method bounds the number of calls, so the
  function is partial: \<open>None\<close> stands for a cascade that does not come to an end by itself
  (the interpreter ends it with RecursionError when its recursion limit is reached).
  \<open>event\<close> is \<open>None\<close> or the identifier that \<open>event.GetId()\<close> gives.
\<close>

partial_function (option) OnHardwareRouting :: "int option \<Rightarrow> int \<Rightarrow> int \<Rightarrow> gui \<Rightarrow> ((error + unit) \<times> gui) option" where
  "OnHardwareRouting event output_channel input_channel g =
     (case slider_at (hardwarerouting_sliders g) output_channel input_channel of
        Inl e \<Rightarrow> Some (Inl e, g)
      | Inr (ro, ri, s, vlabel) \<Rightarrow>
          (case SetVolume (slider_value s) output_channel input_channel False (gui_mixer g) of
             (Inl e, m') \<Rightarrow> Some (Inl e, g\<lparr>gui_mixer := m'\<rparr>)
           | (Inr u, m') \<Rightarrow>
               (let g1 = put_slider ro ri (s, format_int (slider_value s)) (g\<lparr>gui_mixer := m'\<rparr>)
                in case getitem (links g1) output_channel of
                     Inl e \<Rightarrow> Some (Inl e, g1)
                   | Inr linked_output \<Rightarrow>
                       (case linked_output of
                          None \<Rightarrow> Some (Inr (), g1)
                        | Some l \<Rightarrow>
                            (case event of
                               None \<Rightarrow> Some (Inr (), g1)
                             | Some event_id \<Rightarrow>
                                 (case slider_at (hardwarerouting_sliders g1) l input_channel of
                                    Inl e \<Rightarrow> Some (Inl e, g1)
                                  | Inr (lo, li, linked_slider, linked_label) \<Rightarrow>
                                      if event_id \<noteq> widget_id linked_slider
                                      then OnHardwareRouting event l input_channel
                                             (put_slider lo li
                                                (linked_slider\<lparr>slider_value := slider_value s\<rparr>,
                                                 linked_label) g1)
                                      else Some (Inr (), g1)))))))"

text \<open>
  The user moves the slider of route \<open>(out, inp)\<close> to \<open>v\<close>: the toolkit stores the value in
  the slider and calls the handler bound to it,
  \<open>functools.partial(self.__OnHardwareRouting, output_channel=o, input_channel=i)\<close>, with
  an event that carries the slider's identifier. A slider that does not exist cannot be
  moved.
\<close>

definition user_moves_slider :: "int \<Rightarrow> nat \<Rightarrow> nat \<Rightarrow> gui \<Rightarrow> ((error + unit) \<times> gui) option" where
  "user_moves_slider v out inp g =
     (if out < length (hardwarerouting_sliders g) \<and> inp < length (hardwarerouting_sliders g ! out)
      then (case hardwarerouting_sliders g ! out ! inp of
              (s, vlabel) \<Rightarrow>
                OnHardwareRouting (Some (widget_id s)) (int out) (int inp)
                  (put_slider out inp (s\<lparr>slider_value := v\<rparr>, vlabel) g))
      else Some (Inr (), g))"

subsection \<open>The links in the configuration\<close>

definition link_key :: "nat \<Rightarrow> string" where
  "link_key i = ''link'' @ format_int (int i + 1) @ ''to''"

fun dump_links :: "nat list \<Rightarrow> gui \<Rightarrow> cfgsection \<Rightarrow> cfgsection" where
  "dump_links [] g sec = sec"
| "dump_links (i # rest) g sec =
     dump_links rest g
       (AList.update (link_key i)
          (case links g ! i of None \<Rightarrow> VStr ''0'' | Some t \<Rightarrow> VStr (format_int (t + 1))) sec)"

definition Gui_GetConfigDict :: "gui \<Rightarrow> configdict" where
  "Gui_GetConfigDict g = [(''GUI'', dump_links [0..<length (links g)] g [])]"

text \<open>
  \<open>Gui.ParseConfigDict\<close>. The selection shown by the drop-down box of the link is left
  out; \<open>self.__linkchoices\<close> is as long as \<open>self.__links\<close>, so it raises nothing more.
\<close>

fun parse_links :: "string list \<Rightarrow> cfgsection \<Rightarrow> gui \<Rightarrow> (error + unit) \<times> gui" where
  "parse_links [] sec g = (Inr (), g)"
| "parse_links (key # keys) sec g =
     (case py_int (rstrip ''to'' (lstrip ''link'' key)) of
        Inl e \<Rightarrow> (Inl e, g)
      | Inr k \<Rightarrow>
          (case dict_get sec key of
             Inl e \<Rightarrow> (Inl e, g)
           | Inr raw \<Rightarrow>
               (case to_int raw of
                  Inl e \<Rightarrow> (Inl e, g)
                | Inr t \<Rightarrow>
                    (case resolve_index (length (links g)) (k - 1) of
                       Inl e \<Rightarrow> (Inl e, g)
                     | Inr j \<Rightarrow>
                         parse_links keys sec
                           (g\<lparr>links := (links g)[j := (if t - 1 < 0 then None else Some (t - 1))]\<rparr>)))))"

definition Gui_ParseConfigDict :: "configdict \<Rightarrow> gui \<Rightarrow> (error + unit) \<times> gui" where
  "Gui_ParseConfigDict d g =
     (case map_of d ''GUI'' of
        None \<Rightarrow> (Inr (), g)
      | Some sec \<Rightarrow> parse_links (map fst sec) sec g)"

section \<open>class Config: the dictionary that is saved and loaded\<close>

text \<open>
  \<open>Config.Save\<close> up to the writing of the file: the dictionary of the mixer, with the
  sections of the GUI's dictionary put into it. \<open>Config.Load\<close> from the dictionary on: the
  mixer parses it, then the GUI. These are the spec's Encode and Decode; the text format
  of the file is outside of the model.
\<close>

definition Encode :: "gui \<Rightarrow> error + configdict" where
  "Encode g =
     (case GetConfigDict (gui_mixer g) of
        Inl e \<Rightarrow> Inl e
      | Inr d \<Rightarrow> Inr (fold (\<lambda>(name, sec) d'. AList.update name sec d') (Gui_GetConfigDict g) d))"

definition Decode :: "configdict \<Rightarrow> gui \<Rightarrow> (error + unit) \<times> gui" where
  "Decode d g =
     (case ParseConfigDict d (gui_mixer g) of
        (Inl e, m') \<Rightarrow> (Inl e, g\<lparr>gui_mixer := m'\<rparr>)
      | (Inr u, m') \<Rightarrow> Gui_ParseConfigDict d (g\<lparr>gui_mixer := m'\<rparr>))"

section \<open>class Mixer: the constructor\<close>

text \<open>
  Modelled from the spec: the sound card as the ALSA binding presents it, which is not part
  of the repository. \<open>alsaaudio.mixers\<close> lists the names of the controls of the card,
  \<open>alsaaudio.Mixer(name)\<close> opens the control of that name, and \<open>polldescriptors()[0]\<close> of a
  control is a file descriptor with an event mask.
\<close>

record card_control =
  cc_control :: control
  cc_descriptor :: "int \<times> int"

type_synonym card = "card_control list"

definition card_mixers :: "card \<Rightarrow> string list" where
  "card_mixers hw = map (\<lambda>cc. ctl_name (cc_control cc)) hw"

definition card_Mixer :: "card \<Rightarrow> string \<Rightarrow> error + card_control" where
  "card_Mixer hw name =
     (case find (\<lambda>cc. ctl_name (cc_control cc) = name) hw of
        None \<Rightarrow> Inl ALSAAudioError
      | Some cc \<Rightarrow> Inr cc)"

text \<open>
  The regular expressions \<open>AIn\d - Out\d\<close> and \<open>DIn\d - Out\d\<close>, matched at the beginning
  of a name of ASCII characters.
\<close>

definition regex_match :: "string \<Rightarrow> string \<Rightarrow> bool" where
  "regex_match letters name \<longleftrightarrow>
     11 \<le> length name \<and> take 3 name = letters \<and> is_digit (name ! 3)
     \<and> take 6 (drop 4 name) = '' - Out'' \<and> is_digit (name ! 10)"

definition set_routes :: "bool \<Rightarrow> control option list list \<Rightarrow> mixer \<Rightarrow> mixer" where
  "set_routes digital rows m =
     (if digital then m\<lparr>digital_routes := rows\<rparr> else m\<lparr>analog_routes := rows\<rparr>)"

text \<open>
  \<open>__CreateRoute\<close>: the table of the domain is extended by empty rows up to the output of
  the name, the row of the output by None up to the input, the control is opened and put
  into the table, and its descriptor is registered for the polling thread.
\<close>

definition CreateRoute :: "card \<Rightarrow> string \<Rightarrow> bool \<Rightarrow> mixer \<Rightarrow> (error + unit) \<times> mixer" where
  "CreateRoute hw name digital m =
     (case getitem name 10 of
        Inl e \<Rightarrow> (Inl e, m)
      | Inr c10 \<Rightarrow>
     (case py_int [c10] of
        Inl e \<Rightarrow> (Inl e, m)
      | Inr a \<Rightarrow>
     (case getitem name 3 of
        Inl e \<Rightarrow> (Inl e, m)
      | Inr c3 \<Rightarrow>
     (case py_int [c3] of
        Inl e \<Rightarrow> (Inl e, m)
      | Inr b \<Rightarrow>
     (let out_index = a - 1;
          in_index = b - 1;
          rows = routes_of digital m;
          rows1 = rows @ replicate (nat (out_index + 1 - int (length rows))) [];
          m1 = set_routes digital rows1 m
      in case resolve_index (length rows1) out_index of
           Inl e \<Rightarrow> (Inl e, m1)
         | Inr ro \<Rightarrow>
     (let row = rows1 ! ro;
          row1 = row @ replicate (nat (in_index + 1 - int (length row))) None;
          m2 = set_routes digital (rows1[ro := row1]) m
      in case card_Mixer hw name of
           Inl e \<Rightarrow> (Inl e, m2)
         | Inr cc \<Rightarrow>
     (case resolve_index (length row1) in_index of
        Inl e \<Rightarrow> (Inl e, m2)
      | Inr ri \<Rightarrow>
          (Inr (),
           (set_routes digital (rows1[ro := row1[ri := Some (cc_control cc)]]) m)
             \<lparr>descriptors_to_routes :=
                AList.update (fst (cc_descriptor cc)) (out_index, in_index, digital)
                  (descriptors_to_routes m)\<rparr>))))))))"

fun create_routes :: "card \<Rightarrow> string list \<Rightarrow> mixer \<Rightarrow> (error + unit) \<times> mixer" where
  "create_routes hw [] m = (Inr (), m)"
| "create_routes hw (name # names) m =
     (if regex_match ''AIn'' name then
        (case CreateRoute hw name False m of
           (Inl e, m') \<Rightarrow> (Inl e, m')
         | (Inr u, m') \<Rightarrow> create_routes hw names m')
      else if regex_match ''DIn'' name then
        (case CreateRoute hw name True m of
           (Inl e, m') \<Rightarrow> (Inl e, m')
         | (Inr u, m') \<Rightarrow> create_routes hw names m')
      else create_routes hw names (m\<lparr>fx_control_names := fx_control_names m @ [name]\<rparr>))"

fun disable_effects_loop :: "string list \<Rightarrow> mixer \<Rightarrow> (error + unit) \<times> mixer" where
  "disable_effects_loop [] m = (Inr (), m)"
| "disable_effects_loop (n # ns) m =
     (case open_control m n of
        Inl e \<Rightarrow> (Inl e, m)
      | Inr c \<Rightarrow>
          if ctl_volume c \<noteq> None then
            (let m1 = m\<lparr>backend_writes := backend_writes m @ [(n, 0)]\<rparr>
             in case ctl_setvolume 0 c of
                  Inl e \<Rightarrow> (Inl e, m1)
                | Inr c' \<Rightarrow>
                    disable_effects_loop ns
                      (m1\<lparr>card_controls := AList.update n c' (card_controls m1)\<rparr>))
          else disable_effects_loop ns m)"

definition DisableEffects :: "mixer \<Rightarrow> (error + unit) \<times> mixer" where
  "DisableEffects m = disable_effects_loop (fx_control_names m) m"

text \<open>
  \<open>__init__\<close>. The controls that are no routes stay with the card and are opened by name
  when they are needed (\<open>card_controls\<close>). The polling thread, which the constructor
  starts, is modelled by its cycle (\<open>poll_cycle\<close>).
\<close>

definition Mixer_init :: "card \<Rightarrow> bool \<Rightarrow> bool \<Rightarrow> (error + unit) \<times> mixer" where
  "Mixer_init hw disable_effects mute_most_digital_routes =
     (let m0 = \<lparr>analog_routes = [], digital_routes = [], fx_control_names = [],
                card_controls =
                  map (\<lambda>cc. (ctl_name (cc_control cc), cc_control cc))
                    (filter (\<lambda>cc. \<not> regex_match ''AIn'' (ctl_name (cc_control cc))
                                  \<and> \<not> regex_match ''DIn'' (ctl_name (cc_control cc))) hw),
                observers = [], descriptors_to_routes = [], dispatched = [],
                backend_writes = []\<rparr>
      in case create_routes hw (card_mixers hw) m0 of
           (Inl e, m1) \<Rightarrow> (Inl e, m1)
         | (Inr u, m1) \<Rightarrow>
             (case (if disable_effects then DisableEffects m1 else (Inr (), m1)) of
                (Inl e, m2) \<Rightarrow> (Inl e, m2)
              | (Inr u, m2) \<Rightarrow>
                  if mute_most_digital_routes then MuteMostDigitalRoutes m2 else (Inr (), m2)))"

section \<open>A sound card with three channels\<close>

definition volume_control :: "string \<Rightarrow> int \<Rightarrow> control" where
  "volume_control n v = \<lparr>ctl_name = n, ctl_volume = Some v, ctl_enum = None\<rparr>"

definition enum_control :: "string \<Rightarrow> string \<Rightarrow> string list \<Rightarrow> control" where
  "enum_control n current items = \<lparr>ctl_name = n, ctl_volume = None, ctl_enum = Some (current, items)\<rparr>"

definition route_control :: "string \<Rightarrow> int \<Rightarrow> int \<Rightarrow> card_control" where
  "route_control n v fd = \<lparr>cc_control = volume_control n v, cc_descriptor = (fd, 1)\<rparr>"

definition example_card :: card where
  "example_card =
     [route_control ''AIn1 - Out1'' 11 3, route_control ''AIn2 - Out1'' 12 4,
      route_control ''DIn3 - Out2'' 73 5, route_control ''AIn3 - Out1'' 13 6,
      route_control ''AIn1 - Out2'' 21 7, route_control ''AIn2 - Out2'' 22 8,
      route_control ''AIn3 - Out2'' 23 9, route_control ''AIn1 - Out3'' 31 10,
      route_control ''AIn2 - Out3'' 32 11, route_control ''AIn3 - Out3'' 33 12,
      route_control ''DIn1 - Out1'' 61 13, route_control ''DIn2 - Out1'' 62 14,
      route_control ''DIn3 - Out1'' 63 15, route_control ''DIn1 - Out2'' 71 16,
      route_control ''DIn2 - Out2'' 72 17, route_control ''DIn1 - Out3'' 81 18,
      route_control ''DIn2 - Out3'' 82 19, route_control ''DIn3 - Out3'' 83 20,
      \<lparr>cc_control = volume_control ''Effect Volume'' 25, cc_descriptor = (21, 1)\<rparr>,
      \<lparr>cc_control = enum_control ''Effect Program'' ''Hall 1'' [''Room 1'', ''Hall 1'', ''Plate''],
       cc_descriptor = (22, 1)\<rparr>]"

text \<open>The mixer of this card, with one observer added.\<close>

definition example_mixer :: mixer where
  "example_mixer =
     \<lparr>analog_routes =
        [[Some (volume_control ''AIn1 - Out1'' 11), Some (volume_control ''AIn2 - Out1'' 12),
          Some (volume_control ''AIn3 - Out1'' 13)],
         [Some (volume_control ''AIn1 - Out2'' 21), Some (volume_control ''AIn2 - Out2'' 22),
          Some (volume_control ''AIn3 - Out2'' 23)],
         [Some (volume_control ''AIn1 - Out3'' 31), Some (volume_control ''AIn2 - Out3'' 32),
          Some (volume_control ''AIn3 - Out3'' 33)]],
      digital_routes =
        [[Some (volume_control ''DIn1 - Out1'' 61), Some (volume_control ''DIn2 - Out1'' 62),
          Some (volume_control ''DIn3 - Out1'' 63)],
         [Some (volume_control ''DIn1 - Out2'' 71), Some (volume_control ''DIn2 - Out2'' 72),
          Some (volume_control ''DIn3 - Out2'' 73)],
         [Some (volume_control ''DIn1 - Out3'' 81), Some (volume_control ''DIn2 - Out3'' 82),
          Some (volume_control ''DIn3 - Out3'' 83)]],
      fx_control_names = [''Effect Volume'', ''Effect Program''],
      card_controls =
        [(''Effect Volume'', volume_control ''Effect Volume'' 25),
         (''Effect Program'', enum_control ''Effect Program'' ''Hall 1'' [''Room 1'', ''Hall 1'', ''Plate''])],
      observers = [7],
      descriptors_to_routes =
        [(3, (0, 0, False)), (4, (0, 1, False)), (5, (1, 2, True)), (6, (0, 2, False)),
         (7, (1, 0, False)), (8, (1, 1, False)), (9, (1, 2, False)), (10, (2, 0, False)),
         (11, (2, 1, False)), (12, (2, 2, False)), (13, (0, 0, True)), (14, (0, 1, True)),
         (15, (0, 2, True)), (16, (1, 0, True)), (17, (1, 1, True)), (18, (2, 0, True)),
         (19, (2, 1, True)), (20, (2, 2, True))],
      dispatched = [],
      backend_writes = []\<rparr>"

text \<open>The same card after other settings were made: what a saved configuration is loaded into.\<close>

definition other_mixer :: mixer where
  "other_mixer =
     \<lparr>analog_routes =
        [[Some (volume_control ''AIn1 - Out1'' 0), Some (volume_control ''AIn2 - Out1'' 100),
          Some (volume_control ''AIn3 - Out1'' 0)],
         [Some (volume_control ''AIn1 - Out2'' 5), Some (volume_control ''AIn2 - Out2'' 0),
          Some (volume_control ''AIn3 - Out2'' 0)],
         [Some (volume_control ''AIn1 - Out3'' 0), Some (volume_control ''AIn2 - Out3'' 0),
          Some (volume_control ''AIn3 - Out3'' 100)]],
      digital_routes =
        [[Some (volume_control ''DIn1 - Out1'' 100), Some (volume_control ''DIn2 - Out1'' 0),
          Some (volume_control ''DIn3 - Out1'' 0)],
         [Some (volume_control ''DIn1 - Out2'' 0), Some (volume_control ''DIn2 - Out2'' 100),
          Some (volume_control ''DIn3 - Out2'' 0)],
         [Some (volume_control ''DIn1 - Out3'' 0), Some (volume_control ''DIn2 - Out3'' 0),
          Some (volume_control ''DIn3 - Out3'' 100)]],
      fx_control_names = [''Effect Volume'', ''Effect Program''],
      card_controls =
        [(''Effect Volume'', volume_control ''Effect Volume'' 0),
         (''Effect Program'', enum_control ''Effect Program'' ''Room 1'' [''Room 1'', ''Hall 1'', ''Plate''])],
      observers = [7],
      descriptors_to_routes =
        [(3, (0, 0, False)), (4, (0, 1, False)), (5, (1, 2, True)), (6, (0, 2, False)),
         (7, (1, 0, False)), (8, (1, 1, False)), (9, (1, 2, False)), (10, (2, 0, False)),
         (11, (2, 1, False)), (12, (2, 2, False)), (13, (0, 0, True)), (14, (0, 1, True)),
         (15, (0, 2, True)), (16, (1, 0, True)), (17, (1, 1, True)), (18, (2, 0, True)),
         (19, (2, 1, True)), (20, (2, 2, True))],
      dispatched = [],
      backend_writes = []\<rparr>"

definition example_sliders :: "(slider \<times> string) list list" where
  "example_sliders =
     [[(\<lparr>widget_id = - 201, slider_value = 11\<rparr>, ''11''), (\<lparr>widget_id = - 202, slider_value = 12\<rparr>, ''12''),
       (\<lparr>widget_id = - 203, slider_value = 13\<rparr>, ''13'')],
      [(\<lparr>widget_id = - 204, slider_value = 21\<rparr>, ''21''), (\<lparr>widget_id = - 205, slider_value = 22\<rparr>, ''22''),
       (\<lparr>widget_id = - 206, slider_value = 23\<rparr>, ''23'')],
      [(\<lparr>widget_id = - 207, slider_value = 31\<rparr>, ''31''), (\<lparr>widget_id = - 208, slider_value = 32\<rparr>, ''32''),
       (\<lparr>widget_id = - 209, slider_value = 33\<rparr>, ''33'')]]"

text \<open>Output 2 is linked to output 1 (channels counted from 0).\<close>

definition example_gui :: gui where
  "example_gui =
     \<lparr>gui_mixer = example_mixer, hardwarerouting_sliders = example_sliders,
      links = [None, None, Some 1]\<rparr>"

text \<open>Outputs 1 and 2 are linked to each other.\<close>

definition cyclic_gui :: gui where
  "cyclic_gui =
     \<lparr>gui_mixer = example_mixer, hardwarerouting_sliders = example_sliders,
      links = [None, Some 2, Some 1]\<rparr>"

text \<open>Output 0 is linked to output 1, and outputs 1 and 2 are linked to each other.\<close>

definition tail_gui :: gui where
  "tail_gui =
     \<lparr>gui_mixer = example_mixer, hardwarerouting_sliders = example_sliders,
      links = [Some 1, Some 2, Some 1]\<rparr>"

text \<open>Output 2 is linked to output 1, and output 1 to output 0.\<close>

definition chain_gui :: gui where
  "chain_gui =
     \<lparr>gui_mixer = example_mixer, hardwarerouting_sliders = example_sliders,
      links = [None, Some 0, Some 1]\<rparr>"

definition other_gui :: gui where
  "other_gui =
     \<lparr>gui_mixer = other_mixer, hardwarerouting_sliders = example_sliders,
      links = [Some 1, None, None]\<rparr>"

text \<open>
  A card whose first output has one analog input and two digital inputs: its controls are
  \<open>AIn1 - Out1\<close>, \<open>DIn1 - Out1\<close> and \<open>DIn2 - Out1\<close>.
\<close>

definition uneven_card :: card where
  "uneven_card =
     [route_control ''AIn1 - Out1'' 10 3, route_control ''DIn1 - Out1'' 20 4,
      route_control ''DIn2 - Out1'' 30 5]"

definition uneven_mixer :: mixer where
  "uneven_mixer =
     \<lparr>analog_routes = [[Some (volume_control ''AIn1 - Out1'' 10)]],
      digital_routes =
        [[Some (volume_control ''DIn1 - Out1'' 20), Some (volume_control ''DIn2 - Out1'' 30)]],
      fx_control_names = [],
      card_controls = [],
      observers = [],
      descriptors_to_routes = [(3, (0, 0, False)), (4, (0, 0, True)), (5, (0, 1, True))],
      dispatched = [],
      backend_writes = []\<rparr>"

text \<open>
  The mixer that \<open>__init__\<close> builds from the same card when it is asked to mute most digital
  routes: \<open>DIn2 - Out1\<close> is at 0.
\<close>

definition muted_uneven_mixer :: mixer where
  "muted_uneven_mixer =
     \<lparr>analog_routes = [[Some (volume_control ''AIn1 - Out1'' 10)]],
      digital_routes =
        [[Some (volume_control ''DIn1 - Out1'' 20), Some (volume_control ''DIn2 - Out1'' 0)]],
      fx_control_names = [],
      card_controls = [],
      observers = [],
      descriptors_to_routes = [(3, (0, 0, False)), (4, (0, 0, True)), (5, (0, 1, True))],
      dispatched = [],
      backend_writes = [(''DIn2 - Out1'', 0)]\<rparr>"

text \<open>A GUI for this card: one slider, for the one analog route, and no link.\<close>

definition uneven_gui :: "mixer \<Rightarrow> gui" where
  "uneven_gui m =
     \<lparr>gui_mixer = m,
      hardwarerouting_sliders = [[(\<lparr>widget_id = - 201, slider_value = 10\<rparr>, ''10'')]],
      links = [None]\<rparr>"

section \<open>What the claims speak of\<close>

text \<open>
  The batch of a poll cycle in the spec's words: the controls that signaled a change are
  the polled descriptors with POLLIN in their event mask, and the batch holds their routes,
  the analog ones in one list and the digital ones in another.
\<close>

definition signaled :: "(int \<times> int) list \<Rightarrow> (int \<times> int) list" where
  "signaled ready = filter (\<lambda>d. (snd d AND POLLIN) \<noteq> 0) ready"

definition signaled_routes :: "bool \<Rightarrow> (int \<times> int) list \<Rightarrow> mixer \<Rightarrow> route list" where
  "signaled_routes digital ready m =
     concat (map (\<lambda>d. case map_of (descriptors_to_routes m) (fst d) of
                         None \<Rightarrow> []
                       | Some (out, inp, dig) \<Rightarrow> if dig = digital then [(out, inp)] else [])
                 (signaled ready))"

text \<open>
  The digital table as \<open>MuteMostDigitalRoutes\<close> is meant to leave it: in the rows listed in
  \<open>done\<close>, every control outside of the diagonal has the volume 0. \<open>muted_row\<close> is the
  state of one row while its inputs are visited.
\<close>

definition mute :: "control \<Rightarrow> control" where
  "mute c = c\<lparr>ctl_volume := Some 0\<rparr>"

definition muted_row :: "nat \<Rightarrow> nat set \<Rightarrow> control option list \<Rightarrow> control option list" where
  "muted_row ro done row =
     map (\<lambda>ri. if ri \<in> done \<and> ri \<noteq> ro then map_option mute (row ! ri) else row ! ri)
       [0..<length row]"

definition muted_rows :: "nat set \<Rightarrow> control option list list \<Rightarrow> control option list list" where
  "muted_rows done rows =
     map (\<lambda>ro. if ro \<in> done then muted_row ro {..<length (rows ! ro)} (rows ! ro) else rows ! ro)
       [0..<length rows]"

text \<open>
  The routes that the keys of a section name, in the order of the keys, and the keys of a
  section of a dictionary (none when the section is missing).
\<close>

definition named_routes :: "string \<Rightarrow> string list \<Rightarrow> route list" where
  "named_routes prefix keys =
     concat (map (\<lambda>key. case parse_route_key prefix key of
                           Inl e \<Rightarrow> []
                         | Inr (i, out) \<Rightarrow> [(out, i)]) keys)"

definition section_keys :: "configdict \<Rightarrow> string \<Rightarrow> string list" where
  "section_keys d name = (case map_of d name of None \<Rightarrow> [] | Some sec \<Rightarrow> map fst sec)"

text \<open>
  A pair of indices that addresses no position of a table of routes, in Python's way of
  indexing a list: the index of the output lies outside of \<open>[-n, n)\<close>, \<open>n\<close> being the number
  of rows, or the index of the input lies outside of that range for the row of the output;
  an index below 0 counts from the end.
\<close>

definition no_such_route :: "control option list list \<Rightarrow> int \<Rightarrow> int \<Rightarrow> bool" where
  "no_such_route rows out inp \<longleftrightarrow>
     out < - int (length rows) \<or> int (length rows) \<le> out
     \<or> (let row = rows ! nat (if out < 0 then int (length rows) + out else out)
         in inp < - int (length row) \<or> int (length row) \<le> inp)"

text \<open>
  What a loop over route keys may change: the controls of one table (not their names) and
  the trace of writes. What the loop over the effects may change: the effect controls and
  the trace of writes.
\<close>

definition only_routes_changed :: "bool \<Rightarrow> mixer \<Rightarrow> mixer \<Rightarrow> bool" where
  "only_routes_changed digital m m' \<longleftrightarrow>
     routes_of (\<not> digital) m' = routes_of (\<not> digital) m
     \<and> map (map (map_option ctl_name)) (routes_of digital m') =
         map (map (map_option ctl_name)) (routes_of digital m)
     \<and> fx_control_names m' = fx_control_names m
     \<and> card_controls m' = card_controls m
     \<and> observers m' = observers m
     \<and> descriptors_to_routes m' = descriptors_to_routes m
     \<and> dispatched m' = dispatched m"

definition only_effects_changed :: "mixer \<Rightarrow> mixer \<Rightarrow> bool" where
  "only_effects_changed m m' \<longleftrightarrow>
     analog_routes m' = analog_routes m
     \<and> digital_routes m' = digital_routes m
     \<and> fx_control_names m' = fx_control_names m
     \<and> observers m' = observers m
     \<and> descriptors_to_routes m' = descriptors_to_routes m
     \<and> dispatched m' = dispatched m"

text \<open>The entries of an Effects section whose keys belong to effect controls of the card.\<close>

definition known_effects :: "mixer \<Rightarrow> cfgsection \<Rightarrow> cfgsection" where
  "known_effects m sec = filter (\<lambda>kv. fst kv \<in> control_key ` set (fx_control_names m)) sec"

text \<open>
  A card whose first output has two analog inputs and one digital input: its controls are
  \<open>AIn1 - Out1\<close>, \<open>AIn2 - Out1\<close> and \<open>DIn1 - Out1\<close>.
\<close>

definition short_digital_card :: card where
  "short_digital_card =
     [route_control ''AIn1 - Out1'' 10 3, route_control ''AIn2 - Out1'' 15 4,
      route_control ''DIn1 - Out1'' 20 5]"

definition short_digital_mixer :: mixer where
  "short_digital_mixer =
     \<lparr>analog_routes =
        [[Some (volume_control ''AIn1 - Out1'' 10), Some (volume_control ''AIn2 - Out1'' 15)]],
      digital_routes = [[Some (volume_control ''DIn1 - Out1'' 20)]],
      fx_control_names = [],
      card_controls = [],
      observers = [],
      descriptors_to_routes = [(3, (0, 0, False)), (4, (0, 1, False)), (5, (0, 0, True))],
      dispatched = [],
      backend_writes = []\<rparr>"

text \<open>
  The content of a saved configuration in the spec's words: for every route of a table the
  key of the naming scheme with the volume of the route, for every effect control its key
  with the volume or the selected item, for every output the key of its link with 0 or
  the number of the linked output counted from 1.
\<close>

definition volume_at :: "control option list list \<Rightarrow> nat \<Rightarrow> nat \<Rightarrow> int" where
  "volume_at rows out inp =
     (case rows ! out ! inp of
        None \<Rightarrow> 0
      | Some c \<Rightarrow> (case ctl_volume c of None \<Rightarrow> 0 | Some v \<Rightarrow> v))"

definition positions :: "'a list list \<Rightarrow> (nat \<times> nat) list" where
  "positions rows = concat (map (\<lambda>out. map (Pair out) [0..<length (rows ! out)]) [0..<length rows])"

definition route_entries :: "string \<Rightarrow> control option list list \<Rightarrow> cfgsection" where
  "route_entries prefix rows =
     map (\<lambda>(out, inp). (route_key prefix inp out, VInt (volume_at rows out inp))) (positions rows)"

definition effect_value :: "control \<Rightarrow> cfgval" where
  "effect_value c =
     (case ctl_enum c of
        None \<Rightarrow> VInt (case ctl_volume c of None \<Rightarrow> 0 | Some v \<Rightarrow> v)
      | Some (current, items) \<Rightarrow> VStr current)"

definition effect_entries :: "(string \<times> control) list \<Rightarrow> cfgsection" where
  "effect_entries controls = map (\<lambda>(n, c). (control_key n, effect_value c)) controls"

definition link_entries :: "int option list \<Rightarrow> cfgsection" where
  "link_entries ls =
     map (\<lambda>i. (link_key i, VStr (case ls ! i of None \<Rightarrow> ''0'' | Some t \<Rightarrow> format_int (t + 1))))
       [0..<length ls]"

text \<open>
  The states of the spec's data model: every route is backed by a control with a volume
  from 0 to 100, the digital table has the shape of the analog one, the effect controls
  are the controls named in \<open>fx_control_names\<close>, each either a volume from 0 to 100 or a
  selection among the items of an enumeration, no two of them with the same key, and a
  link is \<open>None\<close> or a channel number from 0 on.
\<close>

definition route_ok :: "control option \<Rightarrow> bool" where
  "route_ok x =
     (case x of
        None \<Rightarrow> False
      | Some c \<Rightarrow>
          ctl_enum c = None \<and> (case ctl_volume c of None \<Rightarrow> False | Some v \<Rightarrow> 0 \<le> v \<and> v \<le> 100))"

definition effect_ok :: "control \<Rightarrow> bool" where
  "effect_ok c =
     (case ctl_enum c of
        None \<Rightarrow> (case ctl_volume c of None \<Rightarrow> False | Some v \<Rightarrow> 0 \<le> v \<and> v \<le> 100)
      | Some (current, items) \<Rightarrow> ctl_volume c = None \<and> current \<in> set items)"

definition wellformed :: "gui \<Rightarrow> bool" where
  "wellformed g \<longleftrightarrow>
     list_all (list_all route_ok) (analog_routes (gui_mixer g))
     \<and> list_all (list_all route_ok) (digital_routes (gui_mixer g))
     \<and> map length (digital_routes (gui_mixer g)) = map length (analog_routes (gui_mixer g))
     \<and> map fst (card_controls (gui_mixer g)) = fx_control_names (gui_mixer g)
     \<and> distinct (map control_key (fx_control_names (gui_mixer g)))
     \<and> list_all (\<lambda>nc. effect_ok (snd nc)) (card_controls (gui_mixer g))
     \<and> list_all (\<lambda>l. case l of None \<Rightarrow> True | Some t \<Rightarrow> 0 \<le> t) (links g)"

text \<open>
  Two states of the same sound card: the same controls in the same places, with
  whatever volumes and selections, and as many outputs that can be linked.
\<close>

definition blank :: "control \<Rightarrow> control" where
  "blank c =
     c\<lparr>ctl_volume := map_option (\<lambda>v. 0) (ctl_volume c),
       ctl_enum := map_option (\<lambda>(current, items). ([], items)) (ctl_enum c)\<rparr>"

definition same_card :: "gui \<Rightarrow> gui \<Rightarrow> bool" where
  "same_card g g' \<longleftrightarrow>
     map (map (map_option blank)) (analog_routes (gui_mixer g')) =
       map (map (map_option blank)) (analog_routes (gui_mixer g))
     \<and> map (map (map_option blank)) (digital_routes (gui_mixer g')) =
         map (map (map_option blank)) (digital_routes (gui_mixer g))
     \<and> fx_control_names (gui_mixer g') = fx_control_names (gui_mixer g)
     \<and> map (\<lambda>nc. (fst nc, blank (snd nc))) (card_controls (gui_mixer g')) =
         map (\<lambda>nc. (fst nc, blank (snd nc))) (card_controls (gui_mixer g))
     \<and> length (links g') = length (links g)"


text \<open>The table \<open>rows\<close> after the routes at the positions \<open>ps\<close> were set to the volumes \<open>V\<close>.\<close>

definition with_volumes :: "(nat \<Rightarrow> nat \<Rightarrow> int) \<Rightarrow> (nat \<times> nat) set \<Rightarrow> control option list list \<Rightarrow> control option list list" where
  "with_volumes V ps rows =
     map (\<lambda>out. map (\<lambda>inp. if (out, inp) \<in> ps
                            then map_option (\<lambda>c. c\<lparr>ctl_volume := Some (V out inp)\<rparr>) (rows ! out ! inp)
                            else rows ! out ! inp)
                  [0..<length (rows ! out)])
       [0..<length rows]"

text \<open>
  A chain of links: every output of the list but the last is linked to the next one. The
  name of the control behind a position of a table of routes.
\<close>

fun linked_path :: "int option list \<Rightarrow> nat list \<Rightarrow> bool" where
  "linked_path ls (x # y # zs) \<longleftrightarrow> x < length ls \<and> ls ! x = Some (int y) \<and> linked_path ls (y # zs)"
| "linked_path ls zs \<longleftrightarrow> True"

definition control_name_at :: "control option list list \<Rightarrow> nat \<Rightarrow> nat \<Rightarrow> string" where
  "control_name_at rows out inp = (case rows ! out ! inp of None \<Rightarrow> [] | Some c \<Rightarrow> ctl_name c)"

text \<open>
  A cascade that runs into a cycle of two outputs: the handler is at output \<open>out\<close>, which
  is linked to \<open>t\<close>; \<open>t\<close> and \<open>u\<close> are linked to each other; the event did not come from the
  sliders of \<open>t\<close> and \<open>u\<close>; the three routes of the input exist and have a volume, and the
  slider of \<open>out\<close> holds a value that \<open>setvolume\<close> accepts.
\<close>

definition feeds_cycle :: "int \<Rightarrow> nat \<Rightarrow> nat \<Rightarrow> nat \<Rightarrow> nat \<Rightarrow> gui \<Rightarrow> bool" where
  "feeds_cycle ev inp out t u g \<longleftrightarrow>
     out \<noteq> t \<and> t \<noteq> u
     \<and> out < length (links g) \<and> t < length (links g) \<and> u < length (links g)
     \<and> links g ! out = Some (int t) \<and> links g ! t = Some (int u) \<and> links g ! u = Some (int t)
     \<and> out < length (hardwarerouting_sliders g) \<and> t < length (hardwarerouting_sliders g)
     \<and> u < length (hardwarerouting_sliders g)
     \<and> inp < length (hardwarerouting_sliders g ! out) \<and> inp < length (hardwarerouting_sliders g ! t)
     \<and> inp < length (hardwarerouting_sliders g ! u)
     \<and> widget_id (fst (hardwarerouting_sliders g ! t ! inp)) \<noteq> ev
     \<and> widget_id (fst (hardwarerouting_sliders g ! u ! inp)) \<noteq> ev
     \<and> out < length (analog_routes (gui_mixer g)) \<and> t < length (analog_routes (gui_mixer g))
     \<and> u < length (analog_routes (gui_mixer g))
     \<and> inp < length (analog_routes (gui_mixer g) ! out) \<and> inp < length (analog_routes (gui_mixer g) ! t)
     \<and> inp < length (analog_routes (gui_mixer g) ! u)
     \<and> (\<exists>c. analog_routes (gui_mixer g) ! out ! inp = Some c \<and> ctl_volume c \<noteq> None)
     \<and> (\<exists>c. analog_routes (gui_mixer g) ! t ! inp = Some c \<and> ctl_volume c \<noteq> None)
     \<and> (\<exists>c. analog_routes (gui_mixer g) ! u ! inp = Some c \<and> ctl_volume c \<noteq> None)
     \<and> 0 \<le> slider_value (fst (hardwarerouting_sliders g ! out ! inp))
     \<and> slider_value (fst (hardwarerouting_sliders g ! out ! inp)) \<le> 100"

section \<open>The mixer that the constructor builds\<close>

text \<open>
  The mixer of the card with three channels is what \<open>__init__\<close> builds from the controls
  of the card, with one observer added.
\<close>

lemma Mixer_init_example:
  "fst (Mixer_init example_card False False) = Inr ()
   \<and> AddObserver 7 (snd (Mixer_init example_card False False)) = example_mixer"
  by code_simp

section \<open>Indexing\<close>

lemma resolve_index_cases:
  "resolve_index n i =
     (if 0 \<le> i \<and> i < int n then Inr (nat i)
      else if - int n \<le> i \<and> i < 0 then Inr (nat (int n + i))
      else Inl IndexError)"
  by (auto simp: resolve_index_def Let_def)

lemma resolve_index_nat [simp]:
  "resolve_index n (int k) = (if k < n then Inr k else Inl IndexError)"
  by (auto simp: resolve_index_def Let_def)

lemma resolve_index_wrap:
  "- int n \<le> i \<Longrightarrow> i < 0 \<Longrightarrow> resolve_index n i = resolve_index n (int n + i)"
  by (auto simp: resolve_index_def Let_def)

lemma resolve_index_outside:
  "i < - int n \<or> int n \<le> i \<Longrightarrow> resolve_index n i = Inl IndexError"
  by (auto simp: resolve_index_def Let_def)

lemma example_routes_length:
  "length (routes_of digital example_mixer) = 3"
  "length (routes_of digital example_mixer ! Suc 0) = 3"
  by (simp_all add: routes_of_def example_mixer_def)

section \<open>GetVolume and SetVolume\<close>

text \<open>
  C9, as the code has it. With \<open>n\<close> rows in the table of the domain, \<open>GetVolume\<close> raises
  IndexError for an output \<open>\<ge> n\<close> or \<open>< -n\<close>, and likewise for an input against the length
  of the row. It does not reject the other negative indices: output \<open>-1\<close> to \<open>-n\<close> reads
  the row \<open>n + output\<close>, and a negative input reads the route counted from the end of the
  row, as Python's lists do.
\<close>

theorem GetVolume_index:
  "(let n = int (length (routes_of digital m))
    in (out < - n \<or> n \<le> out \<longrightarrow> GetVolume out inp digital m = Inl IndexError)
     \<and> (- n \<le> out \<and> out < 0 \<longrightarrow> GetVolume out inp digital m = GetVolume (n + out) inp digital m)
     \<and> (0 \<le> out \<and> out < n \<longrightarrow>
          (let k = int (length (routes_of digital m ! nat out))
           in (inp < - k \<or> k \<le> inp \<longrightarrow> GetVolume out inp digital m = Inl IndexError)
            \<and> (- k \<le> inp \<and> inp < 0 \<longrightarrow>
                  GetVolume out inp digital m = GetVolume out (k + inp) digital m))))"
  unfolding GetVolume_def route_at_def Let_def
  by (auto simp: resolve_index_outside resolve_index_wrap resolve_index_cases)

text \<open>On the card with three channels: outputs 3 and -4 and input 3 raise, -1 and -2 wrap.\<close>

theorem GetVolume_index_witness:
  "GetVolume 3 0 False example_mixer = Inl IndexError
   \<and> GetVolume (- 4) 0 True example_mixer = Inl IndexError
   \<and> GetVolume (- 1) 0 False example_mixer = GetVolume 2 0 False example_mixer
   \<and> GetVolume 1 3 False example_mixer = Inl IndexError
   \<and> GetVolume 1 (- 2) False example_mixer = GetVolume 1 1 False example_mixer"
  using GetVolume_index [of False example_mixer 3 0]
    GetVolume_index [of True example_mixer "- 4" 0]
    GetVolume_index [of False example_mixer "- 1" 0]
    GetVolume_index [of False example_mixer 1 3]
    GetVolume_index [of False example_mixer 1 "- 2"]
  by (simp add: example_routes_length Let_def)

text \<open>
  C9 as it is stated fails: output -1 and input -1 are outside \<open>[0, 3)\<close>, and \<open>GetVolume\<close>
  answers with the volume of route (2, 2).
\<close>

theorem GetVolume_negative_index_counterexample:
  "(- 1 :: int) < 0 \<and> GetVolume (- 1) (- 1) False example_mixer = Inr 33
   \<and> GetVolume 2 2 False example_mixer = Inr 33"
  by (simp add: GetVolume_def route_at_def routes_of_def resolve_index_def ctl_getvolume0_def
      example_mixer_def volume_control_def)

lemma route_setvolume_invalid:
  assumes "v < 0 \<or> 100 < v" and "route_at (routes_of digital m) out inp = Inr (ro, ri, c)"
  shows "route_setvolume digital v out inp m =
           (Inl ALSAAudioError, m\<lparr>backend_writes := backend_writes m @ [(ctl_name c, v)]\<rparr>)"
  using assms by (auto simp: route_setvolume_def ctl_setvolume_def Let_def)

text \<open>
  C2, as the code has it. \<open>SetVolume\<close> has no check of its own: for a value outside
  \<open>[0, 100]\<close> and a route that exists, the value goes to the ALSA control as it is, the
  control refuses it, the call ends with the control's ALSAAudioError, and every volume is
  what it was before. Nothing is clamped.
\<close>

theorem SetVolume_out_of_range:
  assumes "v < 0 \<or> 100 < v" and "route_at (routes_of digital m) out inp = Inr (ro, ri, c)"
  shows "SetVolume v out inp digital m =
           (Inl ALSAAudioError, m\<lparr>backend_writes := backend_writes m @ [(ctl_name c, v)]\<rparr>)
         \<and> GetVolume out' inp' digital' (snd (SetVolume v out inp digital m)) =
             GetVolume out' inp' digital' m"
  using route_setvolume_invalid [OF assms]
  by (cases digital) (simp_all add: SetVolume_def GetVolume_def routes_of_def)

text \<open>Route (0, 0) of the card with three channels, value 150: the volume stays 11.\<close>

theorem SetVolume_out_of_range_witness:
  "SetVolume 150 0 0 False example_mixer =
     (Inl ALSAAudioError, example_mixer\<lparr>backend_writes := [(''AIn1 - Out1'', 150)]\<rparr>)
   \<and> GetVolume 0 0 False (snd (SetVolume 150 0 0 False example_mixer)) = Inr 11"
proof -
  have r: "route_at (routes_of False example_mixer) 0 0 = Inr (0, 0, volume_control ''AIn1 - Out1'' 11)"
    by (simp add: route_at_def routes_of_def resolve_index_def example_mixer_def)
  have g: "GetVolume 0 0 False example_mixer = Inr 11"
    by (simp add: GetVolume_def r ctl_getvolume0_def volume_control_def)
  have w: "backend_writes example_mixer = []"
    by (simp add: example_mixer_def)
  have a: "(150 :: int) < 0 \<or> 100 < (150 :: int)"
    by simp
  note inst = SetVolume_out_of_range [OF a r, of 0 0 False]
  have 1: "SetVolume 150 0 0 False example_mixer =
             (Inl ALSAAudioError, example_mixer\<lparr>backend_writes := [(''AIn1 - Out1'', 150)]\<rparr>)"
    using conjunct1 [OF inst] by (simp add: w volume_control_def)
  have 2: "GetVolume 0 0 False (snd (SetVolume 150 0 0 False example_mixer)) = Inr 11"
    using conjunct2 [OF inst] by (simp only: g)
  from 1 2 show ?thesis ..
qed

text \<open>
  C2 as it is stated fails: it says that an out-of-range value never reaches the backing
  control. \<open>SetVolume(150, 0, 0)\<close> calls \<open>setvolume(150, ...)\<close> on the control
  \<open>AIn1 - Out1\<close>, and the error that ends the call is the one the control raises.
\<close>

theorem SetVolume_forwards_counterexample:
  "(100 :: int) < 150
   \<and> fst (SetVolume 150 0 0 False example_mixer) = Inl ALSAAudioError
   \<and> backend_writes (snd (SetVolume 150 0 0 False example_mixer)) = [(''AIn1 - Out1'', 150)]"
  by (simp add: SetVolume_def route_setvolume_def route_at_def routes_of_def resolve_index_def
      ctl_setvolume_def example_mixer_def volume_control_def)

section \<open>The polling thread\<close>

lemma call_observers_dispatched:
  "call_observers obs a d m = m\<lparr>dispatched := dispatched m @ map (\<lambda>ob. (ob, a, d)) obs\<rparr>"
  by (induction obs arbitrary: m) simp_all

lemma collect_changes_eq:
  assumes "\<forall>d\<in>set (signaled ready). fst d \<in> fst ` set (descriptors_to_routes m)"
  shows "collect_changes ready m a b =
           Inr (a @ signaled_routes False ready m, b @ signaled_routes True ready m)"
  using assms
proof (induction ready arbitrary: a b)
  case Nil
  then show ?case by (simp add: signaled_routes_def signaled_def)
next
  case (Cons d ds)
  have rest: "\<forall>d\<in>set (signaled ds). fst d \<in> fst ` set (descriptors_to_routes m)"
    using Cons.prems by (simp add: signaled_def)
  show ?case
  proof (cases "(snd d AND POLLIN) \<noteq> 0")
    case False
    then show ?thesis
      using Cons.IH [OF rest] by (simp add: signaled_routes_def signaled_def)
  next
    case True
    then have "fst d \<in> fst ` set (descriptors_to_routes m)"
      using Cons.prems by (simp add: signaled_def)
    then obtain r where r: "map_of (descriptors_to_routes m) (fst d) = Some r"
      by (metis domIff dom_map_of_conv_image_fst not_Some_eq)
    obtain out inp dig where rr: "r = (out, inp, dig)" by (cases r) auto
    show ?thesis
      using True r rr Cons.IH [OF rest]
      by (simp add: signaled_routes_def signaled_def dict_get_def)
  qed
qed

lemma signaled_routes_empty:
  assumes "\<forall>d\<in>set (signaled ready). fst d \<in> fst ` set (descriptors_to_routes m)"
  shows "(signaled_routes False ready m = [] \<and> signaled_routes True ready m = [])
           \<longleftrightarrow> signaled ready = []"
proof (cases "signaled ready")
  case Nil
  then show ?thesis by (simp add: signaled_routes_def)
next
  case (Cons d ds)
  then have "fst d \<in> fst ` set (descriptors_to_routes m)"
    using assms by simp
  then obtain r where r: "map_of (descriptors_to_routes m) (fst d) = Some r"
    by (metis domIff dom_map_of_conv_image_fst not_Some_eq)
  obtain out inp dig where rr: "r = (out, inp, dig)" by (cases r) auto
  show ?thesis
    using Cons r rr by (cases dig) (simp_all add: signaled_routes_def)
qed

text \<open>
  C7. In one poll cycle, when every descriptor that signaled belongs to a registered
  route: if at least one control signaled, every registered observer is called exactly
  once, with the analog routes and the digital routes of all the controls that signaled in
  this cycle; if none signaled, no observer is called and nothing changes.
\<close>

theorem poll_cycle_dispatch:
  assumes "\<forall>d\<in>set (signaled ready). fst d \<in> fst ` set (descriptors_to_routes m)"
  shows "poll_cycle ready m =
           (Inr (),
            m\<lparr>dispatched := dispatched m @
                 (if signaled ready = [] then []
                  else map (\<lambda>ob. (ob, signaled_routes False ready m, signaled_routes True ready m))
                         (observers m))\<rparr>)"
proof -
  have c: "collect_changes ready m [] [] =
             Inr (signaled_routes False ready m, signaled_routes True ready m)"
    using collect_changes_eq [OF assms, of "[]" "[]"] by simp
  show ?thesis
    using signaled_routes_empty [OF assms]
    by (auto simp: poll_cycle_def c call_observers_dispatched)
qed

text \<open>
  Two observers (7 and 9); descriptors 3 (analog route (0, 0)) and 5 (digital route (1, 2))
  signal in the same cycle, descriptor 4 reports an error only: one call for each observer,
  holding both routes. A cycle in which only descriptor 4 reports calls nobody.
\<close>

theorem poll_cycle_dispatch_witness:
  "poll_cycle [(3, 1), (4, 8), (5, 1)] (AddObserver 9 example_mixer) =
     (Inr (), (AddObserver 9 example_mixer)\<lparr>dispatched := [(7, [(0, 0)], [(1, 2)]), (9, [(0, 0)], [(1, 2)])]\<rparr>)
   \<and> poll_cycle [(4, 8)] (AddObserver 9 example_mixer) = (Inr (), AddObserver 9 example_mixer)"
  using poll_cycle_dispatch [of "[(3, 1), (4, 8), (5, 1)]" "AddObserver 9 example_mixer"]
    poll_cycle_dispatch [of "[(4, 8)]" "AddObserver 9 example_mixer"]
  by (simp add: signaled_def signaled_routes_def POLLIN_def AddObserver_def example_mixer_def)

section \<open>MuteMostDigitalRoutes\<close>

lemma route_setvolume_ok:
  assumes "ro < length (routes_of digital m)" and "ri < length (routes_of digital m ! ro)"
    and "routes_of digital m ! ro ! ri = Some c" and "ctl_volume c \<noteq> None"
    and "0 \<le> v" and "v \<le> 100"
  shows "route_setvolume digital v (int ro) (int ri) m =
           (Inr (), store_route digital ro ri (c\<lparr>ctl_volume := Some v\<rparr>)
                      (m\<lparr>backend_writes := backend_writes m @ [(ctl_name c, v)]\<rparr>))"
  using assms
  by (simp add: route_setvolume_def route_at_def ctl_setvolume_def Let_def routes_of_def)

lemma length_muted_row [simp]: "length (muted_row ro done row) = length row"
  by (simp add: muted_row_def)




lemma length_muted_rows [simp]: "length (muted_rows done rows) = length rows"
  by (simp add: muted_rows_def)






section \<open>ParseConfigDict\<close>

lemma only_routes_changed_refl [simp]: "only_routes_changed digital m m"
  by (simp add: only_routes_changed_def)

lemma only_routes_changed_trans:
  "only_routes_changed digital m m1 \<Longrightarrow> only_routes_changed digital m1 m2 \<Longrightarrow>
   only_routes_changed digital m m2"
  by (simp add: only_routes_changed_def)

lemma route_at_name:
  assumes "route_at rows out inp = Inr (ro, ri, c)"
  shows "ro < length rows" and "ri < length (rows ! ro)" and "rows ! ro ! ri = Some c"
  using assms
  by (auto simp: route_at_def resolve_index_cases split: sum.splits option.splits if_splits)

lemma names_list_update:
  assumes "ro < length rows" and "ri < length (rows ! ro)" and "rows ! ro ! ri = Some c"
    and "ctl_name c' = ctl_name c"
  shows "map (map (map_option ctl_name)) (rows[ro := (rows ! ro)[ri := Some c']]) =
         map (map (map_option ctl_name)) rows"
proof -
  have "map (map_option ctl_name) ((rows ! ro)[ri := Some c']) = map (map_option ctl_name) (rows ! ro)"
    using assms by (intro nth_equalityI) (auto simp: nth_list_update)
  then show ?thesis
    using assms by (intro nth_equalityI) (auto simp: nth_list_update)
qed

lemma ctl_setvolume_name: "ctl_setvolume v c = Inr c' \<Longrightarrow> ctl_name c' = ctl_name c"
  by (auto simp: ctl_setvolume_def split: if_splits)

lemma route_setvolume_frame:
  assumes "route_setvolume digital v out inp m = (r, m')"
  shows "only_routes_changed digital m m'"
proof (cases "route_at (routes_of digital m) out inp")
  case (Inl e)
  then have "m' = m" using assms by (simp add: route_setvolume_def)
  then show ?thesis by simp
next
  case (Inr t)
  obtain ro ri c where t: "t = (ro, ri, c)" by (cases t) auto
  note at = route_at_name [OF Inr [unfolded t]]
  show ?thesis
  proof (cases "ctl_setvolume v c")
    case (Inl e)
    then have "m' = m\<lparr>backend_writes := backend_writes m @ [(ctl_name c, v)]\<rparr>"
      using assms Inr t by (simp add: route_setvolume_def)
    then show ?thesis
      by (simp add: only_routes_changed_def routes_of_def)
  next
    case (Inr c')
    then have "m' = store_route digital ro ri c' (m\<lparr>backend_writes := backend_writes m @ [(ctl_name c, v)]\<rparr>)"
      using assms \<open>route_at (routes_of digital m) out inp = Inr t\<close> t
      by (simp add: route_setvolume_def)
    then show ?thesis
      using at names_list_update [OF at ctl_setvolume_name [OF Inr]]
      by (cases digital) (simp_all add: store_route_def only_routes_changed_def routes_of_def)
  qed
qed

lemma SetVolume_frame:
  assumes "SetVolume v out inp digital m = (r, m')"
  shows "only_routes_changed digital m m'"
  using assms route_setvolume_frame [of digital v out inp m r m']
  by (cases digital) (simp_all add: SetVolume_def)

lemma parse_routes_frame:
  assumes "parse_routes digital prefix sec keys changed m = (r, m')"
  shows "only_routes_changed digital m m'"
  using assms
proof (induction keys arbitrary: changed m)
  case Nil
  then show ?case by simp
next
  case (Cons key keys)
  show ?case
  proof (cases "parse_route_key prefix key")
    case (Inl e)
    then show ?thesis using Cons.prems by simp
  next
    case (Inr io)
    obtain i out where io: "io = (i, out)" by (cases io) auto
    show ?thesis
    proof (cases "dict_get sec key")
      case (Inl e)
      then show ?thesis using Cons.prems Inr io by simp
    next
      case raw: (Inr raw)
      show ?thesis
      proof (cases "to_int raw")
        case (Inl e)
        then show ?thesis using Cons.prems Inr io raw by simp
      next
        case v: (Inr v)
        obtain r1 m1 where s: "SetVolume v out i digital m = (r1, m1)"
          by (cases "SetVolume v out i digital m") auto
        note f1 = SetVolume_frame [OF s]
        show ?thesis
        proof (cases r1)
          case (Inl e)
          then have "m' = m1" using Cons.prems Inr io raw v s by simp
          then show ?thesis using f1 by simp
        next
          case u: (Inr u)
          then have "parse_routes digital prefix sec keys (changed @ [(out, i)]) m1 = (r, m')"
            using Cons.prems Inr io raw v s by simp
          from only_routes_changed_trans [OF f1 Cons.IH [OF this]] show ?thesis .
        qed
      qed
    qed
  qed
qed

lemma parse_routes_changed:
  "parse_routes digital prefix sec keys changed m = (Inr ch, m') \<Longrightarrow>
   ch = changed @ named_routes prefix keys"
proof (induction keys arbitrary: changed m)
  case Nil
  then show ?case by (simp add: named_routes_def)
next
  case (Cons key keys)
  from Cons.prems obtain i out m1 where
    k: "parse_route_key prefix key = Inr (i, out)"
    and rest: "parse_routes digital prefix sec keys (changed @ [(out, i)]) m1 = (Inr ch, m')"
    by (auto split: sum.splits prod.splits)
  from Cons.IH [OF rest] k show ?case
    by (simp add: named_routes_def)
qed

lemma parse_routes_bad_key:
  "key \<in> set keys \<Longrightarrow> parse_route_key prefix key = Inl e \<Longrightarrow>
   \<exists>e'. fst (parse_routes digital prefix sec keys changed m) = Inl e'"
proof (induction keys arbitrary: changed m)
  case Nil
  then show ?case by simp
next
  case (Cons k keys)
  show ?case
  proof (cases "k = key")
    case True
    then show ?thesis using Cons.prems by simp
  next
    case False
    then have "key \<in> set keys" using Cons.prems by simp
    from Cons.IH [OF this Cons.prems(2)] show ?thesis
      by (auto split: sum.splits prod.splits)
  qed
qed


lemma only_effects_changed_refl [simp]: "only_effects_changed m m"
  by (simp add: only_effects_changed_def)

lemma only_effects_changed_trans:
  "only_effects_changed m m1 \<Longrightarrow> only_effects_changed m1 m2 \<Longrightarrow> only_effects_changed m m2"
  by (simp add: only_effects_changed_def)

lemma amixer_sset_frame: "only_effects_changed m (amixer_sset n item m)"
  by (simp add: amixer_sset_def only_effects_changed_def split: option.splits)

lemma parse_effects_frame:
  "parse_effects ns sec m = (r, m') \<Longrightarrow> only_effects_changed m m'"
proof (induction ns arbitrary: m)
  case Nil
  then show ?case by simp
next
  case (Cons n ns)
  show ?case
  proof (cases "map_of sec (control_key n)")
    case None
    then show ?thesis using Cons by simp
  next
    case (Some raw)
    show ?thesis
    proof (cases "open_control m n")
      case (Inl e)
      then show ?thesis using Cons.prems Some by simp
    next
      case (Inr c)
      show ?thesis
      proof (cases "ctl_enum c")
        case None
        show ?thesis
        proof (cases "to_int raw")
          case (Inl e)
          then show ?thesis using Cons.prems Some Inr None by simp
        next
          case v: (Inr v)
          let ?m1 = "m\<lparr>backend_writes := backend_writes m @ [(n, v)]\<rparr>"
          have f1: "only_effects_changed m ?m1"
            by (simp add: only_effects_changed_def)
          show ?thesis
          proof (cases "ctl_setvolume v c")
            case (Inl e)
            then have "m' = ?m1" using Cons.prems Some Inr None v by (simp add: Let_def)
            then show ?thesis using f1 by simp
          next
            case c': (Inr c')
            let ?m2 = "?m1\<lparr>card_controls := AList.update n c' (card_controls ?m1)\<rparr>"
            have f2: "only_effects_changed m ?m2"
              by (simp add: only_effects_changed_def)
            have "parse_effects ns sec ?m2 = (r, m')"
              using Cons.prems Some Inr None v c' by (simp add: Let_def)
            from only_effects_changed_trans [OF f2 Cons.IH [OF this]] show ?thesis .
          qed
        qed
      next
        case en: (Some ci)
        obtain current items where ci: "ci = (current, items)" by (cases ci) auto
        show ?thesis
        proof (cases "case raw of VStr s \<Rightarrow> s \<in> set items | VInt k \<Rightarrow> False")
          case True
          then have "parse_effects ns sec (amixer_sset n (to_str raw) m) = (r, m')"
            using Cons.prems Some Inr en ci by simp
          from only_effects_changed_trans [OF amixer_sset_frame Cons.IH [OF this]] show ?thesis .
        next
          case False
          then have "parse_effects ns sec m = (r, m')"
            using Cons.prems Some Inr en ci by simp
          from Cons.IH [OF this] show ?thesis .
        qed
      qed
    qed
  qed
qed

lemma parse_effects_cong:
  "\<forall>n\<in>set ns. map_of sec (control_key n) = map_of sec' (control_key n) \<Longrightarrow>
   parse_effects ns sec m = parse_effects ns sec' m"
  by (induction ns arbitrary: m) (simp_all add: Let_def split: option.splits sum.splits)

lemma map_of_filter_keys:
  "P k \<Longrightarrow> map_of (filter (\<lambda>kv. P (fst kv)) sec) k = map_of sec k"
  by (induction sec) auto

lemma parse_analog_section_frame: "parse_analog_section d m = (r, m') \<Longrightarrow> only_routes_changed False m m'"
  by (auto simp: parse_analog_section_def split: option.splits dest: parse_routes_frame)

lemma parse_digital_section_frame: "parse_digital_section d m = (r, m') \<Longrightarrow> only_routes_changed True m m'"
  by (auto simp: parse_digital_section_def split: option.splits dest: parse_routes_frame)

lemma parse_effects_section_frame: "parse_effects_section d m = (r, m') \<Longrightarrow> only_effects_changed m m'"
  by (auto simp: parse_effects_section_def split: option.splits dest: parse_effects_frame)

lemma parse_analog_section_changed:
  "parse_analog_section d m = (Inr a, m') \<Longrightarrow> a = named_routes ''ain'' (section_keys d ''Analog'')"
  by (auto simp: parse_analog_section_def section_keys_def named_routes_def split: option.splits
      dest: parse_routes_changed)

lemma parse_digital_section_changed:
  "parse_digital_section d m = (Inr a, m') \<Longrightarrow> a = named_routes ''din'' (section_keys d ''Digital'')"
  by (auto simp: parse_digital_section_def section_keys_def named_routes_def split: option.splits
      dest: parse_routes_changed)

text \<open>
  C10, as the code has it. A call of \<open>ParseConfigDict\<close> that returns normally has called
  every registered observer exactly once, after all sections were applied, with the
  routes that the keys of the Analog section and of the Digital section name, in their
  order and whatever the values were; a dictionary with none of the three sections
  returns normally, and the observers get two empty lists. A call that raises has called
  no observer. The list of observers is the same afterwards.
\<close>

theorem ParseConfigDict_dispatch:
  assumes "ParseConfigDict d m = (r, m')"
  shows "observers m' = observers m
       \<and> (r = Inr () \<longrightarrow>
            dispatched m' = dispatched m @
              map (\<lambda>ob. (ob, named_routes ''ain'' (section_keys d ''Analog''),
                              named_routes ''din'' (section_keys d ''Digital'')))
                (observers m))
       \<and> (r \<noteq> Inr () \<longrightarrow> dispatched m' = dispatched m)
       \<and> (map_of d ''Analog'' = None \<and> map_of d ''Digital'' = None \<and> map_of d ''Effects'' = None
            \<longrightarrow> r = Inr ())"
proof -
  obtain r1 m1 where s1: "parse_analog_section d m = (r1, m1)" by (cases "parse_analog_section d m") auto
  obtain r2 m2 where s2: "parse_digital_section d m1 = (r2, m2)" by (cases "parse_digital_section d m1") auto
  obtain r3 m3 where s3: "parse_effects_section d m2 = (r3, m3)" by (cases "parse_effects_section d m2") auto
  note f1 = parse_analog_section_frame [OF s1] and f2 = parse_digital_section_frame [OF s2]
    and f3 = parse_effects_section_frame [OF s3]
  have o1: "observers m1 = observers m" "dispatched m1 = dispatched m"
    using f1 by (simp_all add: only_routes_changed_def)
  have o2: "observers m2 = observers m" "dispatched m2 = dispatched m"
    using f2 o1 by (simp_all add: only_routes_changed_def)
  have o3: "observers m3 = observers m" "dispatched m3 = dispatched m"
    using f3 o2 by (simp_all add: only_effects_changed_def)
  have none: "map_of d ''Analog'' = None \<and> map_of d ''Digital'' = None \<and> map_of d ''Effects'' = None
              \<longrightarrow> r1 = Inr [] \<and> r2 = Inr [] \<and> r3 = Inr ()"
    using s1 s2 s3 by (auto simp: parse_analog_section_def parse_digital_section_def parse_effects_section_def)
  show ?thesis
  proof (cases r1)
    case (Inl e)
    then have "r = Inl e" "m' = m1"
      using assms s1 by (simp_all add: ParseConfigDict_def)
    then show ?thesis using o1 none Inl by auto
  next
    case a: (Inr a)
    show ?thesis
    proof (cases r2)
      case (Inl e)
      then have "r = Inl e" "m' = m2"
        using assms s1 s2 a by (simp_all add: ParseConfigDict_def)
      then show ?thesis using o2 none Inl by auto
    next
      case b: (Inr b)
      show ?thesis
      proof (cases r3)
        case (Inl e)
        then have "r = Inl e" "m' = m3"
          using assms s1 s2 s3 a b by (simp_all add: ParseConfigDict_def)
        then show ?thesis using o3 none Inl by auto
      next
        case (Inr u)
        then have "r = Inr ()" "m' = call_observers (observers m3) a b m3"
          using assms s1 s2 s3 a b by (simp_all add: ParseConfigDict_def)
        moreover have "a = named_routes ''ain'' (section_keys d ''Analog'')"
          using parse_analog_section_changed s1 a by blast
        moreover have "b = named_routes ''din'' (section_keys d ''Digital'')"
          using parse_digital_section_changed s2 b by blast
        ultimately show ?thesis
          using o3 by (simp add: call_observers_dispatched)
      qed
    qed
  qed
qed

lemma parse_ain1_out1: "parse_route_key ''ain'' ''ain1_to_out1'' = Inr (0, 0)"
  by code_simp

lemma parse_din3_out2: "parse_route_key ''din'' ''din3_to_out2'' = Inr (2, 1)"
  by code_simp

text \<open>
  Observers 7 and 9 and the empty dictionary: one call each, with empty lists. Observer 7
  and a dictionary that names analog route (0, 0), with the volume 11 that it has already,
  and digital route (1, 2): one call, holding both routes.
\<close>

theorem ParseConfigDict_dispatch_witness:
  "dispatched (snd (ParseConfigDict [] (AddObserver 9 example_mixer))) = [(7, [], []), (9, [], [])]
   \<and> fst (ParseConfigDict [] (AddObserver 9 example_mixer)) = Inr ()
   \<and> GetVolume 0 0 False example_mixer = Inr 11
   \<and> fst (ParseConfigDict [(''Analog'', [(''ain1_to_out1'', VInt 11)]),
                             (''Digital'', [(''din3_to_out2'', VStr ''0'')])] example_mixer) = Inr ()
   \<and> dispatched (snd (ParseConfigDict [(''Analog'', [(''ain1_to_out1'', VInt 11)]),
                             (''Digital'', [(''din3_to_out2'', VStr ''0'')])] example_mixer)) =
        [(7, [(0, 0)], [(1, 2)])]"
proof -
  let ?m = "AddObserver 9 example_mixer"
  let ?d = "[(''Analog'', [(''ain1_to_out1'', VInt 11)]), (''Digital'', [(''din3_to_out2'', VStr ''0'')])]"
  have e: "fst (ParseConfigDict [] ?m) = Inr ()"
    using ParseConfigDict_dispatch [of "[]" ?m "fst (ParseConfigDict [] ?m)" "snd (ParseConfigDict [] ?m)"]
    by simp
  have 1: "dispatched (snd (ParseConfigDict [] ?m)) = [(7, [], []), (9, [], [])]"
    using ParseConfigDict_dispatch [of "[]" ?m "fst (ParseConfigDict [] ?m)" "snd (ParseConfigDict [] ?m)"] e
    by (simp add: named_routes_def section_keys_def AddObserver_def example_mixer_def)
  have g: "GetVolume 0 0 False example_mixer = Inr 11"
    by code_simp
  have ok: "fst (ParseConfigDict ?d example_mixer) = Inr ()"
    by code_simp
  have 2: "dispatched (snd (ParseConfigDict ?d example_mixer)) = [(7, [(0, 0)], [(1, 2)])]"
    using ParseConfigDict_dispatch [of ?d example_mixer "fst (ParseConfigDict ?d example_mixer)"
        "snd (ParseConfigDict ?d example_mixer)"] ok
    by (simp add: named_routes_def section_keys_def parse_ain1_out1 parse_din3_out2 example_mixer_def)
  show ?thesis
    using e 1 g ok 2 by simp
qed

text \<open>
  C10 as it is stated fails: the key \<open>volume\<close> in the Analog section makes the call
  raise IndexError; the mixer is left as it was, and observer 7 was not called.
\<close>

theorem ParseConfigDict_raise_counterexample:
  "observers example_mixer = [7]
   \<and> ParseConfigDict [(''Analog'', [(''volume'', VStr ''3'')])] example_mixer =
       (Inl IndexError, example_mixer)
   \<and> dispatched example_mixer = []"
  by code_simp

lemma parse_analog_section_bad_key:
  assumes "key \<in> set (section_keys d ''Analog'')" and "parse_route_key ''ain'' key = Inl e"
  shows "\<exists>e'. fst (parse_analog_section d m) = Inl e'"
proof (cases "map_of d ''Analog''")
  case None
  then show ?thesis using assms by (simp add: section_keys_def)
next
  case (Some sec)
  then have "key \<in> set (map fst sec)" using assms by (simp add: section_keys_def)
  from parse_routes_bad_key [OF this assms(2)] Some show ?thesis
    by (simp add: parse_analog_section_def)
qed

lemma parse_digital_section_bad_key:
  assumes "key \<in> set (section_keys d ''Digital'')" and "parse_route_key ''din'' key = Inl e"
  shows "\<exists>e'. fst (parse_digital_section d m) = Inl e'"
proof (cases "map_of d ''Digital''")
  case None
  then show ?thesis using assms by (simp add: section_keys_def)
next
  case (Some sec)
  then have "key \<in> set (map fst sec)" using assms by (simp add: section_keys_def)
  from parse_routes_bad_key [OF this assms(2)] Some show ?thesis
    by (simp add: parse_digital_section_def)
qed

lemma no_such_route_raises:
  "no_such_route rows out inp \<Longrightarrow> route_at rows out inp = Inl IndexError"
  by (auto simp: no_such_route_def route_at_def resolve_index_cases Let_def)

lemma no_such_route_shape:
  assumes "map length rows' = map length rows"
  shows "no_such_route rows' out inp = no_such_route rows out inp"
proof -
  have l: "length rows' = length rows"
    using assms by (metis length_map)
  have n: "length (rows' ! k) = length (rows ! k)" if "k < length rows" for k
    using that assms l by (metis nth_map)
  show ?thesis
  proof (cases "out < - int (length rows) \<or> int (length rows) \<le> out")
    case True
    then show ?thesis by (auto simp: no_such_route_def l)
  next
    case False
    then have "nat (if out < 0 then int (length rows) + out else out) < length rows"
      by auto
    from n [OF this] False show ?thesis
      by (cases "out < 0") (simp_all add: no_such_route_def l Let_def)
  qed
qed

lemma only_routes_changed_shape:
  assumes "only_routes_changed digital m m'"
  shows "map length (routes_of digital m') = map length (routes_of digital m)"
proof -
  have "map length (map (map (map_option ctl_name)) (routes_of digital m')) =
        map length (map (map (map_option ctl_name)) (routes_of digital m))"
    using assms by (simp only: only_routes_changed_def)
  then show ?thesis by (simp add: comp_def)
qed

lemma SetVolume_no_such_route:
  "no_such_route (routes_of digital m) out inp \<Longrightarrow>
   SetVolume v out inp digital m = (Inl IndexError, m)"
  by (cases digital) (simp_all add: SetVolume_def route_setvolume_def no_such_route_raises)

lemma parse_routes_no_such_route:
  "key \<in> set keys \<Longrightarrow> parse_route_key prefix key = Inr (i, out) \<Longrightarrow>
   no_such_route (routes_of digital m) out i \<Longrightarrow>
   \<exists>e'. fst (parse_routes digital prefix sec keys changed m) = Inl e'"
proof (induction keys arbitrary: changed m)
  case Nil
  then show ?case by simp
next
  case (Cons k keys)
  show ?case
  proof (cases "parse_route_key prefix k")
    case (Inl e)
    then show ?thesis by simp
  next
    case (Inr io)
    obtain i' out' where io: "io = (i', out')" by (cases io) auto
    show ?thesis
    proof (cases "dict_get sec k")
      case (Inl e)
      then show ?thesis using Inr io by simp
    next
      case raw: (Inr raw)
      show ?thesis
      proof (cases "to_int raw")
        case (Inl e)
        then show ?thesis using Inr io raw by simp
      next
        case v: (Inr v)
        obtain r1 m1 where s: "SetVolume v out' i' digital m = (r1, m1)"
          by (cases "SetVolume v out' i' digital m") auto
        show ?thesis
        proof (cases r1)
          case (Inl e)
          then show ?thesis using Inr io raw v s by simp
        next
          case u: (Inr u)
          have ne: "k \<noteq> key"
          proof
            assume "k = key"
            then have "i' = i" "out' = out" using Inr io Cons.prems(2) by simp_all
            then show False
              using SetVolume_no_such_route [OF Cons.prems(3), of v] s u by simp
          qed
          then have mem: "key \<in> set keys" using Cons.prems(1) by simp
          have "no_such_route (routes_of digital m1) out i"
            using no_such_route_shape [OF only_routes_changed_shape [OF SetVolume_frame [OF s]]]
              Cons.prems(3) by simp
          from Cons.IH [OF mem Cons.prems(2) this]
          show ?thesis using Inr io raw v s u by simp
        qed
      qed
    qed
  qed
qed

lemma parse_analog_section_no_such_route:
  assumes "key \<in> set (section_keys d ''Analog'')" and "parse_route_key ''ain'' key = Inr (i, out)"
    and "no_such_route (analog_routes m) out i"
  shows "\<exists>e'. fst (parse_analog_section d m) = Inl e'"
proof (cases "map_of d ''Analog''")
  case None
  then show ?thesis using assms by (simp add: section_keys_def)
next
  case (Some sec)
  then have "key \<in> set (map fst sec)" using assms by (simp add: section_keys_def)
  from parse_routes_no_such_route [OF this assms(2), of False m] assms(3) Some show ?thesis
    by (simp add: parse_analog_section_def routes_of_def)
qed

lemma parse_digital_section_no_such_route:
  assumes "key \<in> set (section_keys d ''Digital'')" and "parse_route_key ''din'' key = Inr (i, out)"
    and "no_such_route (digital_routes m) out i"
  shows "\<exists>e'. fst (parse_digital_section d m) = Inl e'"
proof (cases "map_of d ''Digital''")
  case None
  then show ?thesis using assms by (simp add: section_keys_def)
next
  case (Some sec)
  then have "key \<in> set (map fst sec)" using assms by (simp add: section_keys_def)
  from parse_routes_no_such_route [OF this assms(2), of True m] assms(3) Some show ?thesis
    by (simp add: parse_digital_section_def routes_of_def)
qed

lemma sections_update_effects:
  "parse_analog_section (AList.update ''Effects'' sec d) m = parse_analog_section d m"
  "parse_digital_section (AList.update ''Effects'' sec d) m = parse_digital_section d m"
  "parse_effects_section (AList.update ''Effects'' sec d) m = parse_effects (fx_control_names m) sec m"
  by (simp_all add: parse_analog_section_def parse_digital_section_def parse_effects_section_def update_conv')

lemma parse_effects_known:
  "parse_effects (fx_control_names m) (known_effects m sec) m' =
   parse_effects (fx_control_names m) sec m'"
proof (rule parse_effects_cong, rule ballI)
  fix n assume "n \<in> set (fx_control_names m)"
  then have "control_key n \<in> control_key ` set (fx_control_names m)"
    by simp
  from map_of_filter_keys [of "\<lambda>k. k \<in> control_key ` set (fx_control_names m)", OF this]
  show "map_of (known_effects m sec) (control_key n) = map_of sec (control_key n)"
    by (simp add: known_effects_def)
qed

text \<open>
  C6, as the code has it. A missing Analog, Digital or Effects section leaves the analog
  routes, the digital routes or the effect controls as they were. The entries of the
  Effects section whose keys belong to no effect control of the card are skipped: the call
  does what it does without them. The keys of the Analog and Digital sections are not
  skipped: a key that is not \<open>ain<I>_to_out<O>\<close> (or \<open>din<I>_to_out<O>\<close>) with two integers
  makes the call raise, and so does a key whose numbers, less one, address no position of
  the table as indices of a Python list. The numbers are not compared with the channels
  of the card in any other way: a number below 1 that is still in the range of the list
  counts from the end.
\<close>

theorem ParseConfigDict_sections:
  assumes "ParseConfigDict d m = (r, m')"
  shows "(map_of d ''Analog'' = None \<longrightarrow> analog_routes m' = analog_routes m)
       \<and> (map_of d ''Digital'' = None \<longrightarrow> digital_routes m' = digital_routes m)
       \<and> (map_of d ''Effects'' = None \<longrightarrow> card_controls m' = card_controls m)
       \<and> (\<forall>sec. map_of d ''Effects'' = Some sec \<longrightarrow>
             ParseConfigDict (AList.update ''Effects'' (known_effects m sec) d) m = (r, m'))
       \<and> (\<forall>key e. key \<in> set (section_keys d ''Analog'') \<and> parse_route_key ''ain'' key = Inl e
             \<longrightarrow> (\<exists>e'. r = Inl e'))
       \<and> (\<forall>key e. key \<in> set (section_keys d ''Digital'') \<and> parse_route_key ''din'' key = Inl e
             \<longrightarrow> (\<exists>e'. r = Inl e'))
       \<and> (\<forall>key i out. key \<in> set (section_keys d ''Analog'')
               \<and> parse_route_key ''ain'' key = Inr (i, out)
               \<and> no_such_route (analog_routes m) out i
             \<longrightarrow> (\<exists>e'. r = Inl e'))
       \<and> (\<forall>key i out. key \<in> set (section_keys d ''Digital'')
               \<and> parse_route_key ''din'' key = Inr (i, out)
               \<and> no_such_route (digital_routes m) out i
             \<longrightarrow> (\<exists>e'. r = Inl e'))"
proof -
  obtain r1 m1 where s1: "parse_analog_section d m = (r1, m1)" by (cases "parse_analog_section d m") auto
  obtain r2 m2 where s2: "parse_digital_section d m1 = (r2, m2)" by (cases "parse_digital_section d m1") auto
  obtain r3 m3 where s3: "parse_effects_section d m2 = (r3, m3)" by (cases "parse_effects_section d m2") auto
  note f1 = parse_analog_section_frame [OF s1] and f2 = parse_digital_section_frame [OF s2]
    and f3 = parse_effects_section_frame [OF s3]
  have fx: "fx_control_names m1 = fx_control_names m" "fx_control_names m2 = fx_control_names m"
    using f1 f2 by (simp_all add: only_routes_changed_def)
  have m': "m' = m1 \<or> m' = m2 \<or> m' = m3 \<or> (\<exists>a b. m' = call_observers (observers m3) a b m3)"
    using assms s1 s2 s3 by (auto simp: ParseConfigDict_def split: sum.splits)
  have no_analog: "m1 = m" if "map_of d ''Analog'' = None"
    using that s1 by (simp add: parse_analog_section_def)
  have no_digital: "m2 = m1" if "map_of d ''Digital'' = None"
    using that s2 by (simp add: parse_digital_section_def)
  have no_effects: "m3 = m2" if "map_of d ''Effects'' = None"
    using that s3 by (simp add: parse_effects_section_def)
  have a2: "analog_routes m2 = analog_routes m1" "card_controls m1 = card_controls m"
    "card_controls m2 = card_controls m1" "digital_routes m1 = digital_routes m"
    using f1 f2 by (simp_all add: only_routes_changed_def routes_of_def)
  have a3: "analog_routes m3 = analog_routes m2" "digital_routes m3 = digital_routes m2"
    using f3 by (simp_all add: only_effects_changed_def)
  have 1: "map_of d ''Analog'' = None \<longrightarrow> analog_routes m' = analog_routes m"
    using m' no_analog a2 a3 by (auto simp: call_observers_dispatched)
  have 2: "map_of d ''Digital'' = None \<longrightarrow> digital_routes m' = digital_routes m"
    using m' no_digital a2 a3 by (auto simp: call_observers_dispatched)
  have 3: "map_of d ''Effects'' = None \<longrightarrow> card_controls m' = card_controls m"
    using m' no_effects a2 by (auto simp: call_observers_dispatched)
  have 4: "ParseConfigDict (AList.update ''Effects'' (known_effects m sec) d) m = (r, m')"
    if sec: "map_of d ''Effects'' = Some sec" for sec
  proof -
    have k: "known_effects m sec = known_effects m2 sec"
      by (simp add: known_effects_def fx)
    have "parse_effects_section (AList.update ''Effects'' (known_effects m sec) d) m2 =
            parse_effects (fx_control_names m2) (known_effects m2 sec) m2"
      by (simp only: sections_update_effects(3) k)
    also have "\<dots> = parse_effects (fx_control_names m2) sec m2"
      by (rule parse_effects_known)
    also have "\<dots> = parse_effects_section d m2"
      using sec by (simp add: parse_effects_section_def)
    finally have "parse_effects_section (AList.update ''Effects'' (known_effects m sec) d) m2 = parse_effects_section d m2" .
    then have "ParseConfigDict (AList.update ''Effects'' (known_effects m sec) d) m = ParseConfigDict d m"
      using s1 s2 by (simp add: ParseConfigDict_def sections_update_effects(1,2) split: sum.splits)
    then show ?thesis using assms by simp
  qed
  have 5: "\<exists>e'. r = Inl e'"
    if "key \<in> set (section_keys d ''Analog'') \<and> parse_route_key ''ain'' key = Inl e" for key e
  proof -
    from parse_analog_section_bad_key [of key d e m] that obtain e' where "r1 = Inl e'"
      using s1 by auto
    then show ?thesis
      using assms s1 by (auto simp: ParseConfigDict_def)
  qed
  have 6: "\<exists>e'. r = Inl e'"
    if "key \<in> set (section_keys d ''Digital'') \<and> parse_route_key ''din'' key = Inl e" for key e
  proof -
    from parse_digital_section_bad_key [of key d e m1] that obtain e' where "r2 = Inl e'"
      using s2 by auto
    then show ?thesis
      using assms s1 s2 by (cases r1) (auto simp: ParseConfigDict_def)
  qed
  have 7: "\<exists>e'. r = Inl e'"
    if "key \<in> set (section_keys d ''Analog'') \<and> parse_route_key ''ain'' key = Inr (i, out)
        \<and> no_such_route (analog_routes m) out i" for key i out
  proof -
    from parse_analog_section_no_such_route [of key d i out m] that obtain e' where "r1 = Inl e'"
      using s1 by auto
    then show ?thesis
      using assms s1 by (auto simp: ParseConfigDict_def)
  qed
  have 8: "\<exists>e'. r = Inl e'"
    if "key \<in> set (section_keys d ''Digital'') \<and> parse_route_key ''din'' key = Inr (i, out)
        \<and> no_such_route (digital_routes m) out i" for key i out
  proof -
    from parse_digital_section_no_such_route [of key d i out m1] that a2(4)
    obtain e' where "r2 = Inl e'"
      using s2 by auto
    then show ?thesis
      using assms s1 s2 by (cases r1) (auto simp: ParseConfigDict_def)
  qed
  show ?thesis
    using 1 2 3 4 5 6 7 8 by blast
qed


lemma example_fx_names: "fx_control_names example_mixer = [''Effect Volume'', ''Effect Program'']"
  by (simp add: example_mixer_def)

text \<open>
  An Effects section with the unknown key \<open>new_knob\<close> behaves as the section without it,
  and changes no analog route; the key \<open>din1\<close> in the Digital section raises, and so does
  the key \<open>ain4_to_out1\<close> on the card with three channels.
\<close>

theorem ParseConfigDict_sections_witness:
  "analog_routes (snd (ParseConfigDict
       [(''Effects'', [(''effect_volume'', VInt 40), (''new_knob'', VStr ''x'')])] example_mixer)) =
     analog_routes example_mixer
   \<and> ParseConfigDict [(''Effects'', [(''effect_volume'', VInt 40)])] example_mixer =
       ParseConfigDict [(''Effects'', [(''effect_volume'', VInt 40), (''new_knob'', VStr ''x'')])]
         example_mixer
   \<and> fst (ParseConfigDict [(''Effects'', [(''effect_volume'', VInt 40)])] example_mixer) = Inr ()
   \<and> (\<exists>e'. fst (ParseConfigDict [(''Digital'', [(''din1'', VInt 3)])] example_mixer) = Inl e')
   \<and> (\<exists>e'. fst (ParseConfigDict [(''Analog'', [(''ain4_to_out1'', VInt 3)])] example_mixer) = Inl e')"
proof -
  let ?d = "[(''Effects'', [(''effect_volume'', VInt 40), (''new_knob'', VStr ''x'')])]"
  let ?b = "[(''Digital'', [(''din1'', VInt 3)])]"
  let ?c = "[(''Analog'', [(''ain4_to_out1'', VInt 3)])]"
  note w = ParseConfigDict_sections [of ?c example_mixer "fst (ParseConfigDict ?c example_mixer)"
      "snd (ParseConfigDict ?c example_mixer)"]
  have q: "parse_route_key ''ain'' ''ain4_to_out1'' = Inr (3, 0)"
    by code_simp
  have n: "no_such_route (analog_routes example_mixer) 0 3"
    by code_simp
  have 5: "\<exists>e'. fst (ParseConfigDict ?c example_mixer) = Inl e'"
    using w q n by (simp add: section_keys_def)
  note t = ParseConfigDict_sections [of ?d example_mixer "fst (ParseConfigDict ?d example_mixer)"
      "snd (ParseConfigDict ?d example_mixer)"]
  note u = ParseConfigDict_sections [of ?b example_mixer "fst (ParseConfigDict ?b example_mixer)"
      "snd (ParseConfigDict ?b example_mixer)"]
  have k: "control_key ''Effect Volume'' = ''effect_volume''"
    "control_key ''Effect Program'' = ''effect_program''"
    by code_simp+
  have 1: "analog_routes (snd (ParseConfigDict ?d example_mixer)) = analog_routes example_mixer"
    using t by simp
  have 2: "ParseConfigDict [(''Effects'', [(''effect_volume'', VInt 40)])] example_mixer =
             ParseConfigDict ?d example_mixer"
    using t by (simp add: known_effects_def example_fx_names k)
  have 3: "fst (ParseConfigDict [(''Effects'', [(''effect_volume'', VInt 40)])] example_mixer) = Inr ()"
    by code_simp
  have p: "parse_route_key ''din'' ''din1'' = Inl ValueError"
    by code_simp
  have 4: "\<exists>e'. fst (ParseConfigDict ?b example_mixer) = Inl e'"
    using u p by (simp add: section_keys_def)
  show ?thesis
    using 1 2 3 4 5 by simp
qed

text \<open>
  C6 as it is stated fails: on the card with three channels an unknown key in the Analog
  section, a malformed key in the Digital section and the key \<open>ain9_to_out9\<close> all raise.
  The key \<open>ain0_to_out1\<close>, which names no input of the card, is not skipped either: the
  call returns normally and has set the third input of output 1 (index \<open>-1\<close> of the row)
  from 13 to 3.
\<close>

theorem ParseConfigDict_unknown_key_counterexample:
  "fst (ParseConfigDict [(''Analog'', [(''foo'', VInt 3)])] example_mixer) = Inl IndexError
   \<and> fst (ParseConfigDict [(''Digital'', [(''din1'', VInt 3)])] example_mixer) = Inl ValueError
   \<and> fst (ParseConfigDict [(''Analog'', [(''ain9_to_out9'', VInt 3)])] example_mixer) = Inl IndexError
   \<and> fst (ParseConfigDict [(''Analog'', [(''ain0_to_out1'', VInt 3)])] example_mixer) = Inr ()
   \<and> GetVolume 0 2 False example_mixer = Inr 13
   \<and> GetVolume 0 2 False
         (snd (ParseConfigDict [(''Analog'', [(''ain0_to_out1'', VInt 3)])] example_mixer)) = Inr 3"
  by code_simp

section \<open>GetConfigDict\<close>

text \<open>
  C8 does not hold of the code. The loop for the Digital section takes the range of the
  inputs from the analog row, \<open>range(len(self.__analog_routes[o]))\<close>. On the mixer that
  \<open>__init__\<close> builds from the card with one analog and two digital inputs, the digital
  route (0, 1) exists and has the volume 30, and the dictionary has no key
  \<open>din2_to_out1\<close>; on the mixer that it builds from the card with two analog inputs and
  one digital input, \<open>GetConfigDict\<close> raises IndexError.
\<close>

theorem GetConfigDict_uneven_rows:
  "Mixer_init uneven_card False False = (Inr (), uneven_mixer)
   \<and> GetVolume 0 1 True uneven_mixer = Inr 30
   \<and> GetConfigDict uneven_mixer =
       Inr [(''Analog'', [(''ain1_to_out1'', VInt 10)]),
            (''Digital'', [(''din1_to_out1'', VInt 20)]),
            (''Effects'', [])]
   \<and> Mixer_init short_digital_card False False = (Inr (), short_digital_mixer)
   \<and> GetConfigDict short_digital_mixer = Inl IndexError"
  by code_simp

section \<open>The cascade over linked outputs\<close>

declare OnHardwareRouting.simps [code]

lemma SetVolume_ok:
  assumes "ro < length (routes_of digital m)" and "ri < length (routes_of digital m ! ro)"
    and "routes_of digital m ! ro ! ri = Some c" and "ctl_volume c \<noteq> None"
    and "0 \<le> v" and "v \<le> 100"
  shows "SetVolume v (int ro) (int ri) digital m =
           (Inr (), store_route digital ro ri (c\<lparr>ctl_volume := Some v\<rparr>)
                      (m\<lparr>backend_writes := backend_writes m @ [(ctl_name c, v)]\<rparr>))"
  using route_setvolume_ok [OF assms] by (cases digital) (simp_all add: SetVolume_def)

lemma GetVolume_nat:
  assumes "ro < length (routes_of digital m)" and "ri < length (routes_of digital m ! ro)"
    and "routes_of digital m ! ro ! ri = Some c" and "ctl_volume c = Some v"
  shows "GetVolume (int ro) (int ri) digital m = Inr v"
  using assms by (simp add: GetVolume_def route_at_def ctl_getvolume0_def)

lemma slider_at_nat:
  "ro < length rows \<Longrightarrow> ri < length (rows ! ro) \<Longrightarrow>
   slider_at rows (int ro) (int ri) = Inr (ro, ri, rows ! ro ! ri)"
  by (simp add: slider_at_def)

lemma getitem_nat: "i < length xs \<Longrightarrow> getitem xs (int i) = Inr (xs ! i)"
  by (simp add: getitem_def)

lemma length_update2:
  "length (rows[ro := (rows ! ro)[ri := x]] ! a) = length (rows ! a)"
  by (cases "a = ro"; cases "ro < length rows") (simp_all add: list_update_beyond)

lemma length_row_update:
  "length r = length (rows ! ro) \<Longrightarrow> length (rows[ro := r] ! x) = length (rows ! x)"
  by (cases "x = ro"; cases "ro < length rows") (simp_all add: list_update_beyond)

lemma nth_update2:
  "a < length rows \<Longrightarrow> b < length (rows ! a) \<Longrightarrow>
   rows[ro := (rows ! ro)[ri := x]] ! a ! b = (if a = ro \<and> b = ri then x else rows ! a ! b)"
  by (cases "a = ro") (simp_all add: nth_list_update)

lemma nth_update2_other:
  "a \<noteq> ro \<Longrightarrow> rows[ro := r] ! a = rows ! a"
  by simp

lemma put_slider_simps:
  "hardwarerouting_sliders (put_slider ro ri sv g) =
     (hardwarerouting_sliders g)[ro := (hardwarerouting_sliders g ! ro)[ri := sv]]"
  "links (put_slider ro ri sv g) = links g"
  "gui_mixer (put_slider ro ri sv g) = gui_mixer g"
  by (simp_all add: put_slider_def)

lemma first_call_raw:
  assumes a: "a < length (hardwarerouting_sliders g)" "inp < length (hardwarerouting_sliders g ! a)"
    and s: "hardwarerouting_sliders g ! a ! inp = (s, lab)"
    and ra: "a < length (analog_routes (gui_mixer g))" "inp < length (analog_routes (gui_mixer g) ! a)"
      "analog_routes (gui_mixer g) ! a ! inp = Some c" "ctl_volume c \<noteq> None"
    and v: "0 \<le> slider_value s" "slider_value s \<le> 100"
    and la: "a < length (links g)"
  shows "OnHardwareRouting (Some ev) (int a) (int inp) g =
     (let m1 = store_route False a inp (c\<lparr>ctl_volume := Some (slider_value s)\<rparr>)
                 ((gui_mixer g)\<lparr>backend_writes := backend_writes (gui_mixer g) @ [(ctl_name c, slider_value s)]\<rparr>);
          g1 = put_slider a inp (s, format_int (slider_value s)) (g\<lparr>gui_mixer := m1\<rparr>)
      in case links g ! a of
           None \<Rightarrow> Some (Inr (), g1)
         | Some l \<Rightarrow>
             (case slider_at (hardwarerouting_sliders g1) l (int inp) of
                Inl e \<Rightarrow> Some (Inl e, g1)
              | Inr (lo, li, linked_slider, linked_label) \<Rightarrow>
                  if ev \<noteq> widget_id linked_slider
                  then OnHardwareRouting (Some ev) l (int inp)
                         (put_slider lo li (linked_slider\<lparr>slider_value := slider_value s\<rparr>, linked_label) g1)
                  else Some (Inr (), g1)))"
proof -
  have at: "slider_at (hardwarerouting_sliders g) (int a) (int inp) = Inr (a, inp, s, lab)"
    using a s by (simp add: put_slider_simps length_update2 slider_at_nat)
  have set1: "SetVolume (slider_value s) (int a) (int inp) False (gui_mixer g) =
     (Inr (), store_route False a inp (c\<lparr>ctl_volume := Some (slider_value s)\<rparr>)
                 ((gui_mixer g)\<lparr>backend_writes := backend_writes (gui_mixer g) @ [(ctl_name c, slider_value s)]\<rparr>))"
    using ra v by (intro SetVolume_ok) (simp_all add: put_slider_simps length_update2 routes_of_def)
  show ?thesis
    apply (subst OnHardwareRouting.simps)
    using la
    by (simp add: put_slider_simps length_update2 at set1 Let_def getitem_nat split: option.splits)
qed

lemma first_call:
  assumes a: "a < length (hardwarerouting_sliders g)" "inp < length (hardwarerouting_sliders g ! a)"
    and s: "hardwarerouting_sliders g ! a ! inp = (s, lab)" and sv: "slider_value s = v"
    and ra: "a < length (analog_routes (gui_mixer g))" "inp < length (analog_routes (gui_mixer g) ! a)"
      "analog_routes (gui_mixer g) ! a ! inp = Some c" "ctl_volume c \<noteq> None"
    and v: "0 \<le> v" "v \<le> 100"
    and la: "a < length (links g)"
    and g1: "g1 = put_slider a inp (s, format_int v)
                    (g\<lparr>gui_mixer := store_route False a inp (c\<lparr>ctl_volume := Some v\<rparr>)
                       ((gui_mixer g)\<lparr>backend_writes := backend_writes (gui_mixer g) @ [(ctl_name c, v)]\<rparr>)\<rparr>)"
  shows "OnHardwareRouting (Some ev) (int a) (int inp) g =
     (case links g ! a of
           None \<Rightarrow> Some (Inr (), g1)
         | Some l \<Rightarrow>
             (case slider_at (hardwarerouting_sliders g1) l (int inp) of
                Inl e \<Rightarrow> Some (Inl e, g1)
              | Inr (lo, li, linked_slider, linked_label) \<Rightarrow>
                  if ev \<noteq> widget_id linked_slider
                  then OnHardwareRouting (Some ev) l (int inp)
                         (put_slider lo li (linked_slider\<lparr>slider_value := v\<rparr>, linked_label) g1)
                  else Some (Inr (), g1)))"
  unfolding g1
  using first_call_raw [OF a s ra v [folded sv] la, of ev, unfolded sv Let_def] .

lemma cascade_along_path:
  assumes "distinct (a # rest)"
    and "linked_path (links g) (a # rest)"
    and "last (a # rest) < length (links g)"
    and "links g ! last (a # rest) = None \<or> links g ! last (a # rest) = Some (int origin)"
    and "origin < length (hardwarerouting_sliders g)"
    and "inp < length (hardwarerouting_sliders g ! origin)"
    and "widget_id (fst (hardwarerouting_sliders g ! origin ! inp)) = ev"
    and "\<forall>x\<in>set (a # rest). x < length (hardwarerouting_sliders g)
            \<and> inp < length (hardwarerouting_sliders g ! x)"
    and "\<forall>x\<in>set rest. widget_id (fst (hardwarerouting_sliders g ! x ! inp)) \<noteq> ev"
    and "\<forall>x\<in>set (a # rest). x < length (analog_routes (gui_mixer g))
            \<and> inp < length (analog_routes (gui_mixer g) ! x)
            \<and> (\<exists>c. analog_routes (gui_mixer g) ! x ! inp = Some c \<and> ctl_volume c \<noteq> None)"
    and "slider_value (fst (hardwarerouting_sliders g ! a ! inp)) = v"
    and "0 \<le> v" and "v \<le> 100"
  shows "\<exists>g'. OnHardwareRouting (Some ev) (int a) (int inp) g = Some (Inr (), g')
           \<and> (\<forall>x\<in>set (a # rest). GetVolume (int x) (int inp) False (gui_mixer g') = Inr v)
           \<and> backend_writes (gui_mixer g') =
               backend_writes (gui_mixer g) @
                 map (\<lambda>x. (control_name_at (analog_routes (gui_mixer g)) x inp, v)) (a # rest)
           \<and> observers (gui_mixer g') = observers (gui_mixer g)
           \<and> dispatched (gui_mixer g') = dispatched (gui_mixer g)
           \<and> links g' = links g
           \<and> length (analog_routes (gui_mixer g')) = length (analog_routes (gui_mixer g))
           \<and> (\<forall>x<length (analog_routes (gui_mixer g)). x \<notin> set (a # rest) \<longrightarrow>
                 analog_routes (gui_mixer g') ! x = analog_routes (gui_mixer g) ! x)"
  using assms
proof (induction rest arbitrary: a g)
  case Nil
  let ?S = "hardwarerouting_sliders g"
  let ?A = "analog_routes (gui_mixer g)"
  obtain s lab where s: "?S ! a ! inp = (s, lab)" by (cases "?S ! a ! inp") auto
  from Nil.prems obtain c where c: "?A ! a ! inp = Some c" "ctl_volume c \<noteq> None"
    by auto
  from Nil.prems have b: "a < length ?S" "inp < length (?S ! a)" "a < length ?A" "inp < length (?A ! a)"
    "a < length (links g)" and sv: "slider_value s = v"
    using s by simp_all
  define m1 where "m1 = store_route False a inp (c\<lparr>ctl_volume := Some v\<rparr>)
                          ((gui_mixer g)\<lparr>backend_writes := backend_writes (gui_mixer g) @ [(ctl_name c, v)]\<rparr>)"
  define g1 where "g1 = put_slider a inp (s, format_int v) (g\<lparr>gui_mixer := m1\<rparr>)"
  have A1: "analog_routes m1 = ?A[a := (?A ! a)[inp := Some (c\<lparr>ctl_volume := Some v\<rparr>)]]"
    by (simp add: put_slider_simps length_update2 m1_def store_route_def)
  have unfold: "OnHardwareRouting (Some ev) (int a) (int inp) g =
      (case links g ! a of
           None \<Rightarrow> Some (Inr (), g1)
         | Some l \<Rightarrow>
             (case slider_at (hardwarerouting_sliders g1) l (int inp) of
                Inl e \<Rightarrow> Some (Inl e, g1)
              | Inr (lo, li, linked_slider, linked_label) \<Rightarrow>
                  if ev \<noteq> widget_id linked_slider
                  then OnHardwareRouting (Some ev) l (int inp)
                         (put_slider lo li (linked_slider\<lparr>slider_value := v\<rparr>, linked_label) g1)
                  else Some (Inr (), g1)))"
    by (rule first_call [OF b(1,2) s sv b(3,4) c Nil.prems(12,13) b(5)]) (simp add: put_slider_simps length_update2 g1_def m1_def)
  have at_origin: "slider_at (hardwarerouting_sliders g1) (int origin) (int inp) =
               Inr (origin, inp, hardwarerouting_sliders g1 ! origin ! inp)"
    using Nil.prems(5,6) by (intro slider_at_nat) (simp_all add: put_slider_simps length_update2 g1_def)
  have id_origin: "widget_id (fst (hardwarerouting_sliders g1 ! origin ! inp)) = ev"
    using Nil.prems(5,6,7) s by (cases "origin = a") (auto simp: put_slider_simps length_update2 g1_def nth_update2)
  have run: "OnHardwareRouting (Some ev) (int a) (int inp) g = Some (Inr (), g1)"
  proof (cases "links g ! a")
    case None
    then show ?thesis by (simp add: put_slider_simps length_update2 unfold)
  next
    case (Some l)
    then have l: "l = int origin" using Nil.prems(4) by simp
    obtain so labo where so: "hardwarerouting_sliders g1 ! origin ! inp = (so, labo)"
      by (cases "hardwarerouting_sliders g1 ! origin ! inp") auto
    show ?thesis
      using id_origin by (simp add: put_slider_simps length_update2 unfold Some l at_origin so)
  qed
  have G: "GetVolume (int a) (int inp) False m1 = Inr v"
    using b by (intro GetVolume_nat [where c = "c\<lparr>ctl_volume := Some v\<rparr>"])
      (simp_all add: put_slider_simps length_update2 routes_of_def A1)
  have W: "backend_writes m1 = backend_writes (gui_mixer g) @ [(control_name_at ?A a inp, v)]"
    "observers m1 = observers (gui_mixer g)" "dispatched m1 = dispatched (gui_mixer g)"
    by (simp_all add: put_slider_simps length_update2 m1_def store_route_def control_name_at_def c)
  have F: "length (analog_routes m1) = length ?A"
    "\<forall>x<length ?A. x \<notin> set [a] \<longrightarrow> analog_routes m1 ! x = ?A ! x"
    by (simp_all add: put_slider_simps length_update2 A1)
  have M: "gui_mixer g1 = m1" "links g1 = links g"
    by (simp_all add: put_slider_simps length_update2 g1_def)
  show ?case
    using run G W F M by (intro exI [of _ g1]) simp
next
  case (Cons y ys)
  let ?S = "hardwarerouting_sliders g"
  let ?A = "analog_routes (gui_mixer g)"
  obtain s lab where s: "?S ! a ! inp = (s, lab)" by (cases "?S ! a ! inp") auto
  obtain sy laby where sy: "?S ! y ! inp = (sy, laby)" by (cases "?S ! y ! inp") auto
  from Cons.prems obtain c where c: "?A ! a ! inp = Some c" "ctl_volume c \<noteq> None"
    by auto
  from Cons.prems have b: "a < length ?S" "inp < length (?S ! a)" "a < length ?A" "inp < length (?A ! a)"
    "a < length (links g)" and sv: "slider_value s = v"
    and yb: "y < length ?S" "inp < length (?S ! y)"
    and link: "links g ! a = Some (int y)" and ne: "a \<noteq> y" and idy: "widget_id sy \<noteq> ev"
    using s sy by simp_all
  define m1 where "m1 = store_route False a inp (c\<lparr>ctl_volume := Some v\<rparr>)
                          ((gui_mixer g)\<lparr>backend_writes := backend_writes (gui_mixer g) @ [(ctl_name c, v)]\<rparr>)"
  define g1 where "g1 = put_slider a inp (s, format_int v) (g\<lparr>gui_mixer := m1\<rparr>)"
  define g2 where "g2 = put_slider y inp (sy\<lparr>slider_value := v\<rparr>, laby) g1"
  have A1: "analog_routes m1 = ?A[a := (?A ! a)[inp := Some (c\<lparr>ctl_volume := Some v\<rparr>)]]"
    by (simp add: put_slider_simps length_update2 m1_def store_route_def)
  have S2: "hardwarerouting_sliders g2 =
              (?S[a := (?S ! a)[inp := (s, format_int v)]])[y := (?S ! y)[inp := (sy\<lparr>slider_value := v\<rparr>, laby)]]"
    using ne by (simp add: put_slider_simps length_update2 g2_def g1_def)
  have S2_len: "length (hardwarerouting_sliders g2) = length ?S"
    by (simp add: put_slider_simps length_update2 S2)
  have S2_row: "length (hardwarerouting_sliders g2 ! x) = length (?S ! x)" for x
    using ne by (simp add: put_slider_simps length_update2 S2 length_row_update)
  have S2_a: "hardwarerouting_sliders g2 ! a = (?S ! a)[inp := (s, format_int v)]"
    using ne b by (simp add: put_slider_simps length_update2 S2)
  have S2_y: "hardwarerouting_sliders g2 ! y = (?S ! y)[inp := (sy\<lparr>slider_value := v\<rparr>, laby)]"
    using ne yb by (simp add: put_slider_simps length_update2 S2)
  have S2_other: "hardwarerouting_sliders g2 ! x = ?S ! x" if "x \<noteq> a" "x \<noteq> y" for x
    using that by (simp add: put_slider_simps length_update2 S2)
  have at1: "slider_at (hardwarerouting_sliders g1) (int y) (int inp) = Inr (y, inp, sy, laby)"
    using yb ne sy by (simp add: put_slider_simps length_update2 slider_at_nat g1_def)
  have "g1 = put_slider a inp (s, format_int v)
                    (g\<lparr>gui_mixer := store_route False a inp (c\<lparr>ctl_volume := Some v\<rparr>)
                       ((gui_mixer g)\<lparr>backend_writes := backend_writes (gui_mixer g) @ [(ctl_name c, v)]\<rparr>)\<rparr>)"
    by (simp add: put_slider_simps length_update2 g1_def m1_def)
  from first_call [OF b(1,2) s sv b(3,4) c Cons.prems(12,13) b(5) this, of ev]
  have unfold: "OnHardwareRouting (Some ev) (int a) (int inp) g =
                OnHardwareRouting (Some ev) (int y) (int inp) g2"
    using idy by (simp add: put_slider_simps length_update2 link at1 g2_def)
  have M: "gui_mixer g2 = m1" "links g2 = links g"
    by (simp_all add: put_slider_simps length_update2 g2_def g1_def)
  have p1: "distinct (y # ys)" using Cons.prems(1) by simp
  have p2: "linked_path (links g2) (y # ys)" using Cons.prems(2) by (simp add: put_slider_simps length_update2 M)
  have p3: "last (y # ys) < length (links g2)" using Cons.prems(3) by (simp add: put_slider_simps length_update2 M)
  have p4: "links g2 ! last (y # ys) = None \<or> links g2 ! last (y # ys) = Some (int origin)"
    using Cons.prems(4) by (simp add: put_slider_simps length_update2 M)
  have oy: "origin \<noteq> y" using Cons.prems(7) sy idy by auto
  have p5: "origin < length (hardwarerouting_sliders g2)" using Cons.prems(5) by (simp add: put_slider_simps length_update2 S2_len)
  have p6: "inp < length (hardwarerouting_sliders g2 ! origin)" using Cons.prems(6) by (simp add: put_slider_simps length_update2 S2_row)
  have p7: "widget_id (fst (hardwarerouting_sliders g2 ! origin ! inp)) = ev"
    using Cons.prems(5,6,7) oy s by (cases "origin = a") (auto simp: put_slider_simps length_update2 S2_a S2_other)
  have p8: "\<forall>x\<in>set (y # ys). x < length (hardwarerouting_sliders g2)
              \<and> inp < length (hardwarerouting_sliders g2 ! x)"
    using Cons.prems(8) by (simp add: put_slider_simps length_update2 S2_len S2_row)
  have p9: "\<forall>x\<in>set ys. widget_id (fst (hardwarerouting_sliders g2 ! x ! inp)) \<noteq> ev"
  proof
    fix x assume x: "x \<in> set ys"
    then have "x \<noteq> a" "x \<noteq> y" using Cons.prems(1) by auto
    then have "hardwarerouting_sliders g2 ! x = ?S ! x" by (simp add: put_slider_simps length_update2 S2_other)
    then show "widget_id (fst (hardwarerouting_sliders g2 ! x ! inp)) \<noteq> ev"
      using Cons.prems(9) x by simp
  qed
  have p10: "\<forall>x\<in>set (y # ys). x < length (analog_routes (gui_mixer g2))
              \<and> inp < length (analog_routes (gui_mixer g2) ! x)
              \<and> (\<exists>c. analog_routes (gui_mixer g2) ! x ! inp = Some c \<and> ctl_volume c \<noteq> None)"
  proof
    fix x assume x: "x \<in> set (y # ys)"
    then have "x \<noteq> a" using Cons.prems(1) by auto
    then have ax: "analog_routes m1 ! x = ?A ! x" by (simp add: put_slider_simps length_update2 A1)
    have al: "length (analog_routes m1) = length ?A" by (simp add: put_slider_simps length_update2 A1)
    have "x \<in> set (a # y # ys)" using x by simp
    from bspec [OF Cons.prems(10) this]
    have "x < length ?A \<and> inp < length (?A ! x)
            \<and> (\<exists>c. ?A ! x ! inp = Some c \<and> ctl_volume c \<noteq> None)" .
    then show "x < length (analog_routes (gui_mixer g2))
              \<and> inp < length (analog_routes (gui_mixer g2) ! x)
              \<and> (\<exists>c. analog_routes (gui_mixer g2) ! x ! inp = Some c \<and> ctl_volume c \<noteq> None)"
      by (simp only: M ax al)
  qed
  have p11: "slider_value (fst (hardwarerouting_sliders g2 ! y ! inp)) = v"
    using yb by (simp add: put_slider_simps length_update2 S2_y)
  from Cons.IH [OF p1 p2 p3 p4 p5 p6 p7 p8 p9 p10 p11 Cons.prems(12,13)]
  obtain g' where r: "OnHardwareRouting (Some ev) (int y) (int inp) g2 = Some (Inr (), g')"
    and gv: "\<forall>x\<in>set (y # ys). GetVolume (int x) (int inp) False (gui_mixer g') = Inr v"
    and bw: "backend_writes (gui_mixer g') =
               backend_writes (gui_mixer g2) @
                 map (\<lambda>x. (control_name_at (analog_routes (gui_mixer g2)) x inp, v)) (y # ys)"
    and ob: "observers (gui_mixer g') = observers (gui_mixer g2)"
      "dispatched (gui_mixer g') = dispatched (gui_mixer g2)" "links g' = links g2"
    and len: "length (analog_routes (gui_mixer g')) = length (analog_routes (gui_mixer g2))"
    and fr: "\<forall>x<length (analog_routes (gui_mixer g2)). x \<notin> set (y # ys) \<longrightarrow>
                 analog_routes (gui_mixer g') ! x = analog_routes (gui_mixer g2) ! x"
    by blast
  have names: "map (\<lambda>x. (control_name_at (analog_routes (gui_mixer g2)) x inp, v)) (y # ys) =
               map (\<lambda>x. (control_name_at ?A x inp, v)) (y # ys)"
  proof (rule map_cong [OF refl])
    fix x assume "x \<in> set (y # ys)"
    then have "x \<noteq> a" using Cons.prems(1) by auto
    then show "(control_name_at (analog_routes (gui_mixer g2)) x inp, v) = (control_name_at ?A x inp, v)"
      by (simp add: put_slider_simps length_update2 M A1 control_name_at_def)
  qed
  have a_notin: "a \<notin> set (y # ys)" using Cons.prems(1) by simp
  have Aa: "analog_routes (gui_mixer g') ! a = analog_routes m1 ! a"
    using fr a_notin b(3) by (simp add: put_slider_simps length_update2 M A1)
  have Ga: "GetVolume (int a) (int inp) False (gui_mixer g') = Inr v"
    using b len by (intro GetVolume_nat [where c = "c\<lparr>ctl_volume := Some v\<rparr>"])
      (simp_all add: put_slider_simps length_update2 routes_of_def Aa M A1)
  have W: "backend_writes (gui_mixer g') =
             backend_writes (gui_mixer g) @
               map (\<lambda>x. (control_name_at ?A x inp, v)) (a # y # ys)"
    unfolding bw names
    by (simp add: put_slider_simps length_update2 M m1_def store_route_def control_name_at_def c)
  have O: "observers (gui_mixer g') = observers (gui_mixer g)"
    "dispatched (gui_mixer g') = dispatched (gui_mixer g)" "links g' = links g"
    using ob by (simp_all add: put_slider_simps length_update2 M m1_def store_route_def)
  have L: "length (analog_routes (gui_mixer g')) = length ?A"
    using len by (simp add: put_slider_simps length_update2 M A1)
  have Fr: "\<forall>x<length ?A. x \<notin> set (a # y # ys) \<longrightarrow> analog_routes (gui_mixer g') ! x = ?A ! x"
    using fr by (simp add: put_slider_simps length_update2 M A1)
  show ?case
    using unfold r gv Ga W O L Fr by (intro exI [of _ g']) simp
qed

text \<open>
  C4, as the code has it. The links lead from output \<open>out\<close> along a chain of distinct outputs
  \<open>out # rest\<close>, whose last output has no link or is linked back to \<open>out\<close>; the routes of
  input \<open>inp\<close> exist for all of them, their sliders are widgets other than the slider of
  \<open>(out, inp)\<close>, and the user moves that slider to a value \<open>v\<close> of the slider's range. Then the
  handler returns normally, \<open>GetVolume\<close> gives \<open>v\<close> for the route of \<open>inp\<close> to every output of
  the chain, the mixer wrote once to each of these controls, in the order of the chain,
  and to no other, and no observer was called: the cascade runs in the handler of the GUI,
  and \<open>Mixer.SetVolume\<close> tells nobody.
\<close>

theorem linked_cascade:
  assumes d: "distinct (out # rest)"
    and lp: "linked_path (links g) (out # rest)"
    and l_last: "last (out # rest) < length (links g)"
    and fin: "links g ! last (out # rest) = None \<or> links g ! last (out # rest) = Some (int out)"
    and sl: "\<forall>x\<in>set (out # rest). x < length (hardwarerouting_sliders g)
               \<and> inp < length (hardwarerouting_sliders g ! x)"
    and ids: "\<forall>x\<in>set rest. widget_id (fst (hardwarerouting_sliders g ! x ! inp)) \<noteq>
                              widget_id (fst (hardwarerouting_sliders g ! out ! inp))"
    and rt: "\<forall>x\<in>set (out # rest). x < length (analog_routes (gui_mixer g))
               \<and> inp < length (analog_routes (gui_mixer g) ! x)
               \<and> (\<exists>c. analog_routes (gui_mixer g) ! x ! inp = Some c \<and> ctl_volume c \<noteq> None)"
    and v: "0 \<le> v" "v \<le> 100"
  shows "\<exists>g'. user_moves_slider v out inp g = Some (Inr (), g')
           \<and> (\<forall>x\<in>set (out # rest). GetVolume (int x) (int inp) False (gui_mixer g') = Inr v)
           \<and> backend_writes (gui_mixer g') =
               backend_writes (gui_mixer g) @
                 map (\<lambda>x. (control_name_at (analog_routes (gui_mixer g)) x inp, v)) (out # rest)
           \<and> observers (gui_mixer g') = observers (gui_mixer g)
           \<and> dispatched (gui_mixer g') = dispatched (gui_mixer g)
           \<and> links g' = links g"
proof -
  let ?S = "hardwarerouting_sliders g"
  obtain s0 lab0 where s0: "?S ! out ! inp = (s0, lab0)" by (cases "?S ! out ! inp") auto
  define g0 where "g0 = put_slider out inp (s0\<lparr>slider_value := v\<rparr>, lab0) g"
  from sl have b: "out < length ?S" "inp < length (?S ! out)" by simp_all
  have S0: "hardwarerouting_sliders g0 = ?S[out := (?S ! out)[inp := (s0\<lparr>slider_value := v\<rparr>, lab0)]]"
    and M: "links g0 = links g" "gui_mixer g0 = gui_mixer g"
    by (simp_all add: g0_def put_slider_simps)
  have S0_len: "length (hardwarerouting_sliders g0) = length ?S"
    "length (hardwarerouting_sliders g0 ! x) = length (?S ! x)" for x
    by (simp_all add: S0 length_update2)
  have S0_out: "hardwarerouting_sliders g0 ! out ! inp = (s0\<lparr>slider_value := v\<rparr>, lab0)"
    using b by (simp add: S0)
  have p2: "linked_path (links g0) (out # rest)" using lp by (simp add: M)
  have p3: "last (out # rest) < length (links g0)" using l_last by (simp add: M)
  have p4: "links g0 ! last (out # rest) = None \<or> links g0 ! last (out # rest) = Some (int out)"
    using fin by (simp add: M)
  have p5: "out < length (hardwarerouting_sliders g0)" using b by (simp add: S0_len)
  have p6: "inp < length (hardwarerouting_sliders g0 ! out)" using b by (simp add: S0_len)
  have p7: "widget_id (fst (hardwarerouting_sliders g0 ! out ! inp)) = widget_id s0"
    by (simp add: S0_out)
  have p8: "\<forall>x\<in>set (out # rest). x < length (hardwarerouting_sliders g0)
              \<and> inp < length (hardwarerouting_sliders g0 ! x)"
    using sl by (simp add: S0_len)
  have p9: "\<forall>x\<in>set rest. widget_id (fst (hardwarerouting_sliders g0 ! x ! inp)) \<noteq> widget_id s0"
  proof
    fix x assume x: "x \<in> set rest"
    then have "x \<noteq> out" using d by auto
    then have "hardwarerouting_sliders g0 ! x = ?S ! x" by (simp add: S0)
    then show "widget_id (fst (hardwarerouting_sliders g0 ! x ! inp)) \<noteq> widget_id s0"
      using bspec [OF ids x] s0 by simp
  qed
  have p10: "\<forall>x\<in>set (out # rest). x < length (analog_routes (gui_mixer g0))
              \<and> inp < length (analog_routes (gui_mixer g0) ! x)
              \<and> (\<exists>c. analog_routes (gui_mixer g0) ! x ! inp = Some c \<and> ctl_volume c \<noteq> None)"
    using rt by (simp only: M)
  have p11: "slider_value (fst (hardwarerouting_sliders g0 ! out ! inp)) = v"
    by (simp add: S0_out)
  from cascade_along_path [OF d p2 p3 p4 p5 p6 p7 p8 p9 p10 p11 v]
  obtain g' where r: "OnHardwareRouting (Some (widget_id s0)) (int out) (int inp) g0 = Some (Inr (), g')"
    and rest: "(\<forall>x\<in>set (out # rest). GetVolume (int x) (int inp) False (gui_mixer g') = Inr v)"
      "backend_writes (gui_mixer g') =
               backend_writes (gui_mixer g0) @
                 map (\<lambda>x. (control_name_at (analog_routes (gui_mixer g0)) x inp, v)) (out # rest)"
      "observers (gui_mixer g') = observers (gui_mixer g0)"
      "dispatched (gui_mixer g') = dispatched (gui_mixer g0)"
      "links g' = links g0"
    by blast
  have "user_moves_slider v out inp g = Some (Inr (), g')"
    using b r by (simp add: user_moves_slider_def s0 g0_def)
  then show ?thesis
    using rest unfolding M by (intro exI [of _ g']) simp
qed

text \<open>
  The card with three channels; the slider of route (2, 0) is moved to 70. With output 2
  linked to output 1 the cascade has one hop; with output 1 linked further to output 0 it
  has two.
\<close>

theorem linked_cascade_witness:
  "(\<exists>g'. user_moves_slider 70 2 0 example_gui = Some (Inr (), g')
         \<and> GetVolume 2 0 False (gui_mixer g') = Inr 70
         \<and> GetVolume 1 0 False (gui_mixer g') = Inr 70
         \<and> backend_writes (gui_mixer g') = [(''AIn1 - Out3'', 70), (''AIn1 - Out2'', 70)]
         \<and> observers (gui_mixer g') = [7]
         \<and> dispatched (gui_mixer g') = []
         \<and> links g' = [None, None, Some 1])
   \<and> (\<exists>g'. user_moves_slider 70 2 0 chain_gui = Some (Inr (), g')
         \<and> GetVolume 2 0 False (gui_mixer g') = Inr 70
         \<and> GetVolume 1 0 False (gui_mixer g') = Inr 70
         \<and> GetVolume 0 0 False (gui_mixer g') = Inr 70
         \<and> backend_writes (gui_mixer g') =
             [(''AIn1 - Out3'', 70), (''AIn1 - Out2'', 70), (''AIn1 - Out1'', 70)]
         \<and> observers (gui_mixer g') = [7]
         \<and> dispatched (gui_mixer g') = []
         \<and> links g' = [None, Some 0, Some 1])"
proof -
  have 1: "\<exists>g'. user_moves_slider 70 2 0 example_gui = Some (Inr (), g')
         \<and> GetVolume 2 0 False (gui_mixer g') = Inr 70
         \<and> GetVolume 1 0 False (gui_mixer g') = Inr 70
         \<and> backend_writes (gui_mixer g') = [(''AIn1 - Out3'', 70), (''AIn1 - Out2'', 70)]
         \<and> observers (gui_mixer g') = [7]
         \<and> dispatched (gui_mixer g') = []
         \<and> links g' = [None, None, Some 1]"
    using linked_cascade [of 2 "[1]" example_gui 0 70]
    by (simp add: example_gui_def example_mixer_def example_sliders_def volume_control_def
        control_name_at_def)
  have 2: "\<exists>g'. user_moves_slider 70 2 0 chain_gui = Some (Inr (), g')
         \<and> GetVolume 2 0 False (gui_mixer g') = Inr 70
         \<and> GetVolume 1 0 False (gui_mixer g') = Inr 70
         \<and> GetVolume 0 0 False (gui_mixer g') = Inr 70
         \<and> backend_writes (gui_mixer g') =
             [(''AIn1 - Out3'', 70), (''AIn1 - Out2'', 70), (''AIn1 - Out1'', 70)]
         \<and> observers (gui_mixer g') = [7]
         \<and> dispatched (gui_mixer g') = []
         \<and> links g' = [None, Some 0, Some 1]"
    using linked_cascade [of 2 "[1, 0]" chain_gui 0 70]
    by (simp add: chain_gui_def example_mixer_def example_sliders_def volume_control_def
        control_name_at_def)
  from 1 2 show ?thesis ..
qed

text \<open>
  C4 as it is stated fails in its second half: observer 7 is registered, the cascade
  sets route (1, 0) to 70 as well, and the trace of observer calls is still empty: the
  cascade is not dispatched as one notification, it is not dispatched at all.
\<close>

theorem cascade_no_dispatch_counterexample:
  "observers (gui_mixer example_gui) = [7]
   \<and> links example_gui = [None, None, Some 1]
   \<and> user_moves_slider 70 2 0 example_gui \<noteq> None
   \<and> fst (the (user_moves_slider 70 2 0 example_gui)) = Inr ()
   \<and> GetVolume 1 0 False (gui_mixer (snd (the (user_moves_slider 70 2 0 example_gui)))) = Inr 70
   \<and> dispatched (gui_mixer (snd (the (user_moves_slider 70 2 0 example_gui)))) = []"
  by code_simp

lemma slider_at_nat_if:
  "slider_at rows (int ro) (int ri) =
     (if ro < length rows \<and> ri < length (rows ! ro) then Inr (ro, ri, rows ! ro ! ri)
      else Inl IndexError)"
  by (simp add: slider_at_def)

lemma SetVolume_writes:
  "length (backend_writes (snd (SetVolume v out inp digital m))) \<le> Suc (length (backend_writes m))"
  by (cases digital)
    (auto simp: SetVolume_def route_setvolume_def store_route_def Let_def split: sum.splits)

lemma second_hop:
  assumes ne: "a \<noteq> b"
    and lb: "b < length (links g)" and link: "links g ! b = Some (int a)"
    and a: "a < length (hardwarerouting_sliders g)" "inp < length (hardwarerouting_sliders g ! a)"
    and ev: "widget_id (fst (hardwarerouting_sliders g ! a ! inp)) = ev"
  shows "\<exists>r g'. OnHardwareRouting (Some ev) (int b) (int inp) g = Some (r, g')
           \<and> length (backend_writes (gui_mixer g')) \<le> Suc (length (backend_writes (gui_mixer g)))"
proof (cases "b < length (hardwarerouting_sliders g) \<and> inp < length (hardwarerouting_sliders g ! b)")
  case False
  then have "OnHardwareRouting (Some ev) (int b) (int inp) g = Some (Inl IndexError, g)"
    by (subst OnHardwareRouting.simps) (auto simp: slider_at_nat_if)
  then show ?thesis by simp
next
  case True
  let ?S = "hardwarerouting_sliders g"
  obtain s lab where s: "?S ! b ! inp = (s, lab)" by (cases "?S ! b ! inp") auto
  have at: "slider_at ?S (int b) (int inp) = Inr (b, inp, s, lab)"
    using True s by (simp add: slider_at_nat_if)
  obtain r1 m1 where set: "SetVolume (slider_value s) (int b) (int inp) False (gui_mixer g) = (r1, m1)"
    by (cases "SetVolume (slider_value s) (int b) (int inp) False (gui_mixer g)") auto
  have w: "length (backend_writes m1) \<le> Suc (length (backend_writes (gui_mixer g)))"
    using SetVolume_writes [of "slider_value s" "int b" "int inp" False "gui_mixer g"] set by simp
  show ?thesis
  proof (cases r1)
    case (Inl e)
    then have "OnHardwareRouting (Some ev) (int b) (int inp) g = Some (Inl e, g\<lparr>gui_mixer := m1\<rparr>)"
      by (subst OnHardwareRouting.simps) (simp add: at set)
    then show ?thesis using w by simp
  next
    case (Inr u)
    define g1 where "g1 = put_slider b inp (s, format_int (slider_value s)) (g\<lparr>gui_mixer := m1\<rparr>)"
    have S1: "hardwarerouting_sliders g1 = ?S[b := (?S ! b)[inp := (s, format_int (slider_value s))]]"
      by (simp add: g1_def put_slider_def)
    have at1: "slider_at (hardwarerouting_sliders g1) (int a) (int inp) = Inr (a, inp, ?S ! a ! inp)"
      using a ne by (simp add: slider_at_nat_if S1)
    have l1: "links g1 = links g" "gui_mixer g1 = m1"
      by (simp_all add: g1_def put_slider_def)
    obtain sa la where sa: "?S ! a ! inp = (sa, la)" by (cases "?S ! a ! inp") auto
    have "OnHardwareRouting (Some ev) (int b) (int inp) g = Some (Inr (), g1)"
      apply (subst OnHardwareRouting.simps)
      using Inr lb link ev sa
      by (simp add: at set g1_def [symmetric] Let_def l1 getitem_nat at1)
    then show ?thesis using w l1 by simp
  qed
qed

text \<open>
  C3. When output \<open>a\<close> is linked to output \<open>b\<close> and \<open>b\<close> to \<open>a\<close>, moving a slider of
  output \<open>a\<close>, for whatever input and to whatever value, makes \<open>__OnHardwareRouting\<close>
  return (normally or with an exception) after at most two calls of \<open>setvolume\<close>: the
  second call of the handler finds that the linked slider is the one the event came from.
\<close>

theorem two_cycle_terminates:
  assumes ne: "a \<noteq> b"
    and la: "a < length (links g)" and lb: "b < length (links g)"
    and ab: "links g ! a = Some (int b)" and ba: "links g ! b = Some (int a)"
  shows "\<exists>r g'. user_moves_slider v a inp g = Some (r, g')
           \<and> length (backend_writes (gui_mixer g')) \<le> length (backend_writes (gui_mixer g)) + 2"
proof (cases "a < length (hardwarerouting_sliders g) \<and> inp < length (hardwarerouting_sliders g ! a)")
  case False
  then show ?thesis by (auto simp: user_moves_slider_def)
next
  case True
  let ?S = "hardwarerouting_sliders g"
  obtain s0 lab0 where s0: "?S ! a ! inp = (s0, lab0)" by (cases "?S ! a ! inp") auto
  define ev where "ev = widget_id s0"
  define sv where "sv = s0\<lparr>slider_value := v\<rparr>"
  define g0 where "g0 = put_slider a inp (sv, lab0) g"
  have start: "user_moves_slider v a inp g = OnHardwareRouting (Some ev) (int a) (int inp) g0"
    using True by (simp add: user_moves_slider_def s0 ev_def g0_def sv_def)
  have S0: "hardwarerouting_sliders g0 = ?S[a := (?S ! a)[inp := (sv, lab0)]]"
    by (simp add: g0_def put_slider_def)
  have at0: "slider_at (hardwarerouting_sliders g0) (int a) (int inp) = Inr (a, inp, sv, lab0)"
    using True by (simp add: slider_at_nat_if S0)
  have g0: "links g0 = links g" "gui_mixer g0 = gui_mixer g"
    by (simp_all add: g0_def put_slider_def)
  obtain r1 m1 where set: "SetVolume (slider_value sv) (int a) (int inp) False (gui_mixer g) = (r1, m1)"
    by (cases "SetVolume (slider_value sv) (int a) (int inp) False (gui_mixer g)") auto
  have w: "length (backend_writes m1) \<le> Suc (length (backend_writes (gui_mixer g)))"
    using SetVolume_writes [of "slider_value sv" "int a" "int inp" False "gui_mixer g"] set by simp
  show ?thesis
  proof (cases r1)
    case (Inl e)
    then have "OnHardwareRouting (Some ev) (int a) (int inp) g0 = Some (Inl e, g0\<lparr>gui_mixer := m1\<rparr>)"
      by (subst OnHardwareRouting.simps) (simp add: at0 set g0)
    then show ?thesis using w start by simp
  next
    case (Inr u)
    define g1 where "g1 = put_slider a inp (sv, format_int (slider_value sv)) (g0\<lparr>gui_mixer := m1\<rparr>)"
    have S1: "hardwarerouting_sliders g1 = ?S[a := (?S ! a)[inp := (sv, format_int (slider_value sv))]]"
      using True by (simp add: g1_def put_slider_def S0)
    have g1: "links g1 = links g" "gui_mixer g1 = m1"
      by (simp_all add: g1_def put_slider_def g0)
    have unfold1: "OnHardwareRouting (Some ev) (int a) (int inp) g0 =
        (case slider_at (hardwarerouting_sliders g1) (int b) (int inp) of
           Inl e \<Rightarrow> Some (Inl e, g1)
         | Inr (lo, li, linked_slider, linked_label) \<Rightarrow>
             if ev \<noteq> widget_id linked_slider
             then OnHardwareRouting (Some ev) (int b) (int inp)
                    (put_slider lo li (linked_slider\<lparr>slider_value := slider_value sv\<rparr>, linked_label) g1)
             else Some (Inr (), g1))"
      unfolding g1_def
      apply (subst OnHardwareRouting.simps)
      using Inr la ab
      by (simp add: at0 set g0 Let_def g1 [unfolded g1_def] getitem_nat)
    show ?thesis
    proof (cases "b < length (hardwarerouting_sliders g1) \<and> inp < length (hardwarerouting_sliders g1 ! b)")
      case False
      then have "OnHardwareRouting (Some ev) (int a) (int inp) g0 = Some (Inl IndexError, g1)"
        by (auto simp: unfold1 slider_at_nat_if)
      then show ?thesis using w start g1 by simp
    next
      case inb: True
      let ?S1 = "hardwarerouting_sliders g1"
      obtain ls ll where ls: "?S1 ! b ! inp = (ls, ll)" by (cases "?S1 ! b ! inp") auto
      have atb: "slider_at ?S1 (int b) (int inp) = Inr (b, inp, ls, ll)"
        using inb ls by (simp add: slider_at_nat_if)
      show ?thesis
      proof (cases "ev = widget_id ls")
        case True
        have "OnHardwareRouting (Some ev) (int a) (int inp) g0 = Some (Inr (), g1)"
          unfolding unfold1 atb using True by simp
        then show ?thesis using w start g1 by simp
      next
        case False
        define g2 where "g2 = put_slider b inp (ls\<lparr>slider_value := slider_value sv\<rparr>, ll) g1"
        have rec: "OnHardwareRouting (Some ev) (int a) (int inp) g0 =
                     OnHardwareRouting (Some ev) (int b) (int inp) g2"
          using False by (simp add: unfold1 atb g2_def)
        have S2: "hardwarerouting_sliders g2 = ?S1[b := (?S1 ! b)[inp := (ls\<lparr>slider_value := slider_value sv\<rparr>, ll)]]"
          by (simp add: g2_def put_slider_def)
        have g2: "links g2 = links g" "gui_mixer g2 = m1"
          by (simp_all add: g2_def put_slider_def g1)
        have a2: "a < length (hardwarerouting_sliders g2)" "inp < length (hardwarerouting_sliders g2 ! a)"
          using True ne by (simp_all add: S2 S1)
        have ev2: "widget_id (fst (hardwarerouting_sliders g2 ! a ! inp)) = ev"
          using True ne by (simp add: S2 S1 sv_def ev_def)
        from second_hop [OF ne _ _ a2 ev2] lb ba g2 obtain r g' where
          "OnHardwareRouting (Some ev) (int b) (int inp) g2 = Some (r, g')"
          "length (backend_writes (gui_mixer g')) \<le> Suc (length (backend_writes m1))"
          by auto
        then show ?thesis using w start rec by simp
      qed
    qed
  qed
qed

text \<open>
  Outputs 1 and 2 of the card with three channels linked to each other: the cascade
  returns from either output, here normally and after one write to each of the two routes.
\<close>

theorem two_cycle_terminates_witness:
  "(\<exists>r g'. user_moves_slider 70 1 0 cyclic_gui = Some (r, g')
       \<and> length (backend_writes (gui_mixer g')) \<le> 2)
   \<and> (\<exists>r g'. user_moves_slider 70 2 0 cyclic_gui = Some (r, g')
       \<and> length (backend_writes (gui_mixer g')) \<le> 2)
   \<and> fst (the (user_moves_slider 70 1 0 cyclic_gui)) = Inr ()
   \<and> backend_writes (gui_mixer (snd (the (user_moves_slider 70 1 0 cyclic_gui)))) =
       [(''AIn1 - Out2'', 70), (''AIn1 - Out3'', 70)]"
proof -
  have l: "links cyclic_gui = [None, Some 2, Some 1]"
    "backend_writes (gui_mixer cyclic_gui) = []"
    by (simp_all add: cyclic_gui_def example_mixer_def)
  have run: "fst (the (user_moves_slider 70 1 0 cyclic_gui)) = Inr ()
   \<and> backend_writes (gui_mixer (snd (the (user_moves_slider 70 1 0 cyclic_gui)))) =
       [(''AIn1 - Out2'', 70), (''AIn1 - Out3'', 70)]"
    by code_simp
  show ?thesis
    using two_cycle_terminates [of 1 2 cyclic_gui 70 0] two_cycle_terminates [of 2 1 cyclic_gui 70 0]
      run
    by (simp add: l numeral_2_eq_2)
qed

subsection \<open>A cycle that the moved slider is not part of\<close>

text \<open>
  The comparison of the identifiers ends a cascade only at the slider the event came from.
  A cascade that runs into a cycle of two outputs from outside finds that slider nowhere:
  each call of the handler makes the next one.
\<close>

lemma feeds_cycle_never_returns:
  assumes "feeds_cycle ev inp out t u g"
  shows "OnHardwareRouting (Some ev) (int out) (int inp) g = None"
proof (rule ccontr)
  assume "OnHardwareRouting (Some ev) (int out) (int inp) g \<noteq> None"
  then obtain y where y: "OnHardwareRouting (Some ev) (int out) (int inp) g = Some y"
    by auto
  define Inv where "Inv = (\<lambda>e oc ic g. e = Some ev \<and> ic = int inp
                              \<and> (\<exists>out t u. oc = int out \<and> feeds_cycle ev inp out t u g))"
  have "\<not> Inv (Some ev) (int out) (int inp) g"
  proof (rule OnHardwareRouting.raw_induct [where P = "\<lambda>e oc ic g y. \<not> Inv e oc ic g", OF _ y], goal_cases)
    case (1 f e oc ic g0 y0)
    note IH = 1(1) and body = 1(2)
    show ?case
    proof
      assume "Inv e oc ic g0"
      then obtain a t u where e: "e = Some ev" and ic: "ic = int inp" and oc: "oc = int a"
        and c: "feeds_cycle ev inp a t u g0"
        by (auto simp: Inv_def)
      let ?S = "hardwarerouting_sliders g0"
      let ?m = "gui_mixer g0"
      obtain s lab where s: "?S ! a ! inp = (s, lab)" by (cases "?S ! a ! inp") auto
      obtain st labt where st: "?S ! t ! inp = (st, labt)" by (cases "?S ! t ! inp") auto
      from c obtain co ct cu where co: "analog_routes ?m ! a ! inp = Some co" "ctl_volume co \<noteq> None"
        and ct: "analog_routes ?m ! t ! inp = Some ct" "ctl_volume ct \<noteq> None"
        and cu: "analog_routes ?m ! u ! inp = Some cu" "ctl_volume cu \<noteq> None"
        by (auto simp: feeds_cycle_def)
      from c have ne: "a \<noteq> t" "t \<noteq> u"
        and lo: "a < length (links g0)" "t < length (links g0)" "u < length (links g0)"
        and lk: "links g0 ! a = Some (int t)" "links g0 ! t = Some (int u)" "links g0 ! u = Some (int t)"
        and so: "a < length ?S" "t < length ?S" "u < length ?S"
          "inp < length (?S ! a)" "inp < length (?S ! t)" "inp < length (?S ! u)"
        and ids: "widget_id st \<noteq> ev" "widget_id (fst (?S ! u ! inp)) \<noteq> ev"
        and ro: "a < length (analog_routes ?m)" "t < length (analog_routes ?m)" "u < length (analog_routes ?m)"
          "inp < length (analog_routes ?m ! a)" "inp < length (analog_routes ?m ! t)"
          "inp < length (analog_routes ?m ! u)"
        and v: "0 \<le> slider_value s" "slider_value s \<le> 100"
        using s st by (simp_all add: feeds_cycle_def)
      define m1 where "m1 = store_route False a inp (co\<lparr>ctl_volume := Some (slider_value s)\<rparr>)
                          (?m\<lparr>backend_writes := backend_writes ?m @ [(ctl_name co, slider_value s)]\<rparr>)"
      define g1 where "g1 = put_slider a inp (s, format_int (slider_value s)) (g0\<lparr>gui_mixer := m1\<rparr>)"
      define g2 where "g2 = put_slider t inp (st\<lparr>slider_value := slider_value s\<rparr>, labt) g1"
      have set1: "SetVolume (slider_value s) (int a) (int inp) False ?m = (Inr (), m1)"
        unfolding m1_def using ro co v by (intro SetVolume_ok) (simp_all add: routes_of_def)
      have at0: "slider_at ?S (int a) (int inp) = Inr (a, inp, s, lab)"
        using so s by (simp add: slider_at_nat)
      have S1: "hardwarerouting_sliders g1 = ?S[a := (?S ! a)[inp := (s, format_int (slider_value s))]]"
        by (simp add: g1_def put_slider_def)
      have at1: "slider_at (hardwarerouting_sliders g1) (int t) (int inp) = Inr (t, inp, st, labt)"
        using so ne st by (simp add: slider_at_nat S1)
      have L: "links g1 = links g0" "links g2 = links g0" "gui_mixer g1 = m1" "gui_mixer g2 = m1"
        by (simp_all add: g1_def g2_def put_slider_def)
      have S2: "hardwarerouting_sliders g2 =
                  (?S[a := (?S ! a)[inp := (s, format_int (slider_value s))]])
                    [t := (?S ! t)[inp := (st\<lparr>slider_value := slider_value s\<rparr>, labt)]]"
        using so ne by (simp add: g2_def put_slider_def S1)
      have A1: "analog_routes m1 = (analog_routes ?m)[a := (analog_routes ?m ! a)[inp := Some (co\<lparr>ctl_volume := Some (slider_value s)\<rparr>)]]"
        by (simp add: m1_def store_route_def)
      have "f (Some ev) (int t) (int inp) g2 = Some y0"
        using body lo lk ids
        by (simp add: e oc ic at0 set1 g1_def [symmetric] Let_def L getitem_nat at1 g2_def [symmetric])
      from IH [OF this] have not_inv: "\<not> Inv (Some ev) (int t) (int inp) g2" .
      have idu: "widget_id (fst (hardwarerouting_sliders g2 ! u ! inp)) \<noteq> ev"
        using ne so ids s by (cases "u = a") (simp_all add: S2)
      have rts: "\<exists>c. analog_routes m1 ! u ! inp = Some c \<and> ctl_volume c \<noteq> None"
        "\<exists>c. analog_routes m1 ! t ! inp = Some c \<and> ctl_volume c \<noteq> None"
        "u < length (analog_routes m1)" "t < length (analog_routes m1)"
        "inp < length (analog_routes m1 ! u)" "inp < length (analog_routes m1 ! t)"
        using ne ro co ct cu by (cases "u = a"; simp add: A1)+
      have sls: "u < length (hardwarerouting_sliders g2)" "t < length (hardwarerouting_sliders g2)"
        "inp < length (hardwarerouting_sliders g2 ! u)" "inp < length (hardwarerouting_sliders g2 ! t)"
        "widget_id (fst (hardwarerouting_sliders g2 ! t ! inp)) \<noteq> ev"
        "slider_value (fst (hardwarerouting_sliders g2 ! t ! inp)) = slider_value s"
        using ne so ids by (cases "u = a"; simp add: S2)+
      have "feeds_cycle ev inp t u t g2"
        unfolding feeds_cycle_def
        using ne lo lk v idu rts sls
        by (simp add: L)
      with not_inv show False
        by (auto simp: Inv_def)
    qed
  qed
  moreover have "Inv (Some ev) (int out) (int inp) g"
    using assms by (auto simp: Inv_def)
  ultimately show False by contradiction
qed

text \<open>
  On the card with three channels, with output 0 linked to output 1 and outputs 1 and 2
  linked to each other, moving the slider of route (0, 0) starts such a cascade.
\<close>

lemma cascade_into_cycle_never_returns:
  "user_moves_slider 70 0 0 tail_gui = None"
proof -
  have "feeds_cycle (- 201) 0 0 1 2
          (put_slider 0 0 (\<lparr>widget_id = - 201, slider_value = 70\<rparr>, ''11'') tail_gui)"
    by (simp add: feeds_cycle_def put_slider_def tail_gui_def example_sliders_def example_mixer_def
        volume_control_def)
  from feeds_cycle_never_returns [OF this] show ?thesis
    by (simp add: user_moves_slider_def tail_gui_def example_sliders_def put_slider_def)
qed

section \<open>Keys and numbers as text\<close>

text \<open>
  The whitespace around a number: \<open>int\<close> drops blanks, line ends and the no-break space,
  and raises on the file separator (28), which only \<open>str.strip\<close> would drop.
\<close>

lemma py_int_whitespace:
  "py_int '' 5'' = Inr 5
   \<and> py_int [CHR ''5'', CHR 0x0A] = Inr 5
   \<and> py_int [CHR 0xA0, CHR ''5''] = Inr 5
   \<and> py_int [CHR 0x85, CHR ''-'', CHR ''5''] = Inr (- 5)
   \<and> py_int [CHR 0x1C, CHR ''5''] = Inl ValueError
   \<and> py_int [CHR ''5'', CHR 0x1F] = Inl ValueError
   \<and> py_int ''5 5'' = Inl ValueError
   \<and> py_int ''1_0'' = Inr 10
   \<and> py_int ''1__0'' = Inl ValueError"
  by code_simp

lemma digit_char_digit: "d < 10 \<Longrightarrow> is_digit (digit_char d) \<and> digit_val (digit_char d) = d"
  by (simp add: is_digit_def digit_char_def digit_val_def)

lemma digits_all: "c \<in> set (digits n) \<Longrightarrow> is_digit c"
proof (induction n arbitrary: c rule: digits.induct)
  case (1 n)
  show ?case
  proof (cases "n < 10")
    case True
    then show ?thesis using "1.prems" by (simp add: digits.simps [of n] digit_char_digit)
  next
    case False
    then show ?thesis
      using "1.prems" "1.IH" by (auto simp: digits.simps [of n] digit_char_digit)
  qed
qed

lemma digits_nonempty: "digits n \<noteq> []"
  by (subst digits.simps) simp

lemma digits_value_digits:
  "\<forall>c\<in>set ds. is_digit c \<Longrightarrow>
   digits_value acc ds = Some (foldl (\<lambda>a c. a * 10 + digit_val c) acc ds)"
  by (induction ds arbitrary: acc) simp_all

lemma foldl_digits: "foldl (\<lambda>a c. a * 10 + digit_val c) 0 (digits n) = n"
proof (induction n rule: digits.induct)
  case (1 n)
  show ?case
  proof (cases "n < 10")
    case True
    then show ?thesis by (simp add: digits.simps [of n] digit_char_digit)
  next
    case False
    then show ?thesis
      using "1.IH" by (simp add: digits.simps [of n] digit_char_digit)
  qed
qed

lemma parse_nat_digits: "parse_nat (digits n) = Some n"
proof -
  obtain c cs where cs: "digits n = c # cs"
    using digits_nonempty [of n] by (cases "digits n") auto
  have all: "\<forall>x\<in>set (c # cs). is_digit x"
    using digits_all [of _ n] cs by auto
  have "digits_value (digit_val c) cs = Some (foldl (\<lambda>a c. a * 10 + digit_val c) 0 (c # cs))"
    using digits_value_digits [of cs "digit_val c"] all by simp
  then show ?thesis
    using all foldl_digits [of n] by (simp add: parse_nat_def cs)
qed

lemma is_digit_not_space: "is_digit c \<Longrightarrow> \<not> is_space c"
  by (auto simp: is_digit_def is_space_def Let_def)

lemma strip_digits: "strip (digits n) = digits n"
proof -
  obtain c cs where cs: "digits n = c # cs"
    using digits_nonempty [of n] by (cases "digits n") auto
  have h: "\<not> is_space c" using digits_all [of c n] cs is_digit_not_space by simp
  have "rev (digits n) \<noteq> []" using digits_nonempty by simp
  then obtain d ds where ds: "rev (digits n) = d # ds" by (cases "rev (digits n)") auto
  then have "d \<in> set (digits n)" by (metis list.set_intros(1) set_rev)
  then have l: "\<not> is_space d" using digits_all is_digit_not_space by blast
  have "dropWhile is_space (digits n) = digits n" using h cs by simp
  moreover have "dropWhile is_space (rev (digits n)) = rev (digits n)" using l ds by simp
  ultimately show ?thesis by (simp add: strip_def)
qed

lemma py_int_format_nat: "py_int (format_int (int n)) = Inr (int n)"
proof -
  obtain c cs where cs: "digits n = c # cs"
    using digits_nonempty [of n] by (cases "digits n") auto
  have d: "is_digit c" using digits_all [of c n] cs by simp
  then have "c \<noteq> CHR ''-''" "c \<noteq> CHR ''+''"
    by (auto simp: is_digit_def)
  moreover have "strip (c # cs) = c # cs"
    using strip_digits [of n] cs by simp
  ultimately show ?thesis
    using parse_nat_digits [of n] cs
    by (simp add: py_int_def format_int_def Let_def)
qed

lemma find_sep_absent:
  "sep \<noteq> [] \<Longrightarrow> hd sep \<notin> set s \<Longrightarrow> find_sep sep s = None"
proof (induction s)
  case Nil
  then show ?case by simp
next
  case (Cons c cs)
  then have "take (length sep) (c # cs) \<noteq> sep"
    by (cases sep) auto
  then show ?case using Cons by simp
qed

lemma py_split_absent:
  "sep \<noteq> [] \<Longrightarrow> hd sep \<notin> set s \<Longrightarrow> py_split sep s = [s]"
  by (subst py_split.simps) (simp add: find_sep_absent)

lemma find_sep_first:
  "sep \<noteq> [] \<Longrightarrow> hd sep \<notin> set p \<Longrightarrow> find_sep sep (p @ sep @ r) = Some (p, r)"
proof (induction p)
  case Nil
  then show ?case by (cases sep) simp_all
next
  case (Cons c p)
  then have "take (length sep) ((c # p) @ sep @ r) \<noteq> sep"
    by (cases sep) auto
  then show ?case using Cons by simp
qed

lemma py_split_once:
  "sep \<noteq> [] \<Longrightarrow> hd sep \<notin> set p \<Longrightarrow> hd sep \<notin> set r \<Longrightarrow>
   py_split sep (p @ sep @ r) = [p, r]"
  by (subst py_split.simps) (simp add: find_sep_first py_split_absent)

lemma is_digit_chars:
  "is_digit c \<Longrightarrow> c \<noteq> CHR ''a'' \<and> c \<noteq> CHR ''d'' \<and> c \<noteq> CHR ''_'' \<and> c \<notin> set ''link'' \<and> c \<notin> set ''to''"
  by (auto simp: is_digit_def)

lemma format_nat_digits: "format_int (int n) = digits n"
  by (simp add: format_int_def)

lemma format_pos: "format_int (int n + 1) = digits (Suc n)"
  using format_nat_digits [of "Suc n"] by (simp add: add.commute)

lemma hd_prefix_rest:
  assumes "prefix = ''ain'' \<or> prefix = ''din''"
  shows "hd prefix \<notin> set (digits a @ ''_to_out'' @ digits b)"
proof -
  have "hd prefix = CHR ''a'' \<or> hd prefix = CHR ''d''"
    using assms by auto
  moreover have "CHR ''a'' \<notin> set (digits a)" "CHR ''d'' \<notin> set (digits a)"
    "CHR ''a'' \<notin> set (digits b)" "CHR ''d'' \<notin> set (digits b)"
    using digits_all is_digit_chars by blast+
  ultimately show ?thesis
    by auto
qed

lemma underscore_digits: "CHR ''_'' \<notin> set (digits a)"
  using digits_all is_digit_chars by blast

lemma split_prefix:
  assumes "prefix = ''ain'' \<or> prefix = ''din''"
  shows "py_split prefix (route_key prefix inp out) =
           [[], digits (Suc inp) @ ''_to_out'' @ digits (Suc out)]"
proof -
  have key: "route_key prefix inp out = [] @ prefix @ (digits (Suc inp) @ ''_to_out'' @ digits (Suc out))"
    by (simp add: route_key_def format_pos)
  have ne: "prefix \<noteq> []" using assms by auto
  show ?thesis
    unfolding key
    by (rule py_split_once [OF ne _ hd_prefix_rest [OF assms]]) simp
qed

lemma split_to_out:
  "py_split ''_to_out'' (digits a @ ''_to_out'' @ digits b) = [digits a, digits b]"
  by (rule py_split_once) (simp_all add: underscore_digits)


lemma py_int_digits: "py_int (digits n) = Inr (int n)"
  using py_int_format_nat [of n] by (simp only: format_nat_digits)

lemma ints_minus_one_two:
  "ints_minus_one [digits (Suc a), digits (Suc b)] = Inr [int a, int b]"
  by (simp add: py_int_digits)

lemma getitem_second: "getitem [x, y] 1 = Inr y"
  by (simp add: getitem_def resolve_index_def)

lemma parse_route_key_route_key:
  assumes "prefix = ''ain'' \<or> prefix = ''din''"
  shows "parse_route_key prefix (route_key prefix inp out) = Inr (int inp, int out)"
  unfolding parse_route_key_def split_prefix [OF assms]
  by (simp only: getitem_second sum.case split_to_out ints_minus_one_two list.case)

lemma route_key_inj:
  assumes "prefix = ''ain'' \<or> prefix = ''din''"
    and "route_key prefix inp out = route_key prefix inp' out'"
  shows "inp = inp' \<and> out = out'"
proof -
  have "parse_route_key prefix (route_key prefix inp out) =
        parse_route_key prefix (route_key prefix inp' out')"
    by (rule arg_cong [OF assms(2)])
  then have "(Inr (int inp, int out) :: error + int \<times> int) = Inr (int inp', int out')"
    by (simp only: parse_route_key_route_key [OF assms(1)])
  then show ?thesis by simp
qed


lemma lstrip_link: "lstrip ''link'' (''link'' @ digits n @ r) = digits n @ r"
proof -
  obtain c cs where cs: "digits n = c # cs"
    using digits_nonempty [of n] by (cases "digits n") auto
  have c: "c \<notin> set ''link''"
    using digits_all [of c n] cs is_digit_chars by simp
  show ?thesis
    unfolding cs lstrip_def using c by simp
qed

lemma rstrip_to: "rstrip ''to'' (digits n @ ''to'') = digits n"
proof -
  have "rev (digits n) \<noteq> []" using digits_nonempty by simp
  then obtain d ds where ds: "rev (digits n) = d # ds" by (cases "rev (digits n)") auto
  then have "d \<in> set (digits n)" by (metis list.set_intros(1) set_rev)
  then have d: "d \<notin> set ''to''" using digits_all is_digit_chars by blast
  have "dropWhile (\<lambda>c. c \<in> set ''to'') (rev (digits n @ ''to'')) = rev (digits n)"
    using d by (simp add: ds)
  then show ?thesis
    by (simp only: rstrip_def rev_rev_ident)
qed

lemma link_key_parse: "py_int (rstrip ''to'' (lstrip ''link'' (link_key i))) = Inr (int i + 1)"
proof -
  have "link_key i = ''link'' @ digits (Suc i) @ ''to''"
    by (simp only: link_key_def format_pos)
  then have "rstrip ''to'' (lstrip ''link'' (link_key i)) = digits (Suc i)"
    by (simp only: lstrip_link rstrip_to)
  then show ?thesis
    using py_int_digits [of "Suc i"] by (simp add: add.commute)
qed

lemma link_key_inj:
  assumes "link_key i = link_key j"
  shows "i = j"
proof -
  have "py_int (rstrip ''to'' (lstrip ''link'' (link_key i))) =
        py_int (rstrip ''to'' (lstrip ''link'' (link_key j)))"
    by (simp only: assms)
  then have "(Inr (int i + 1) :: error + int) = Inr (int j + 1)"
    by (simp only: link_key_parse)
  then show ?thesis by simp
qed

section \<open>What GetConfigDict writes\<close>

lemma update_fresh: "k \<notin> fst ` set al \<Longrightarrow> AList.update k v al = al @ [(k, v)]"
  by (induction al) auto

lemma updates_fresh:
  "distinct (map fst (al @ ps)) \<Longrightarrow>
   foldl (\<lambda>acc kv. AList.update (fst kv) (snd kv) acc) al ps = al @ ps"
proof (induction ps arbitrary: al)
  case Nil
  then show ?case by simp
next
  case (Cons p ps)
  have "fst p \<notin> fst ` set al" using Cons.prems by auto
  then have "AList.update (fst p) (snd p) al = al @ [p]"
    by (simp add: update_fresh)
  moreover have "distinct (map fst ((al @ [p]) @ ps))" using Cons.prems by simp
  ultimately show ?case using Cons.IH [of "al @ [p]"] by simp
qed

lemma GetVolume_route_ok:
  assumes "out < length (routes_of digital m)" and "inp < length (routes_of digital m ! out)"
    and "route_ok (routes_of digital m ! out ! inp)"
  shows "GetVolume (int out) (int inp) digital m = Inr (volume_at (routes_of digital m) out inp)"
  using assms
  by (auto simp: GetVolume_def route_at_def route_ok_def volume_at_def ctl_getvolume0_def
      split: option.splits)

lemma dump_inputs_fold:
  assumes "out < length (routes_of digital m)"
    and "\<forall>inp\<in>set inps. inp < length (routes_of digital m ! out) \<and>
           route_ok (routes_of digital m ! out ! inp)"
  shows "dump_inputs digital prefix out inps m sec =
           Inr (foldl (\<lambda>acc kv. AList.update (fst kv) (snd kv) acc) sec
                  (map (\<lambda>inp. (route_key prefix inp out, VInt (volume_at (routes_of digital m) out inp)))
                     inps))"
  using assms(2)
proof (induction inps arbitrary: sec)
  case Nil
  then show ?case by simp
next
  case (Cons inp inps)
  have "GetVolume (int out) (int inp) digital m = Inr (volume_at (routes_of digital m) out inp)"
    using Cons.prems assms(1) by (intro GetVolume_route_ok) simp_all
  then show ?case
    using Cons by simp
qed

lemma dump_outputs_fold:
  assumes "\<forall>out\<in>set outs. out < length (analog_routes m) \<and> out < length (routes_of digital m) \<and>
             (\<forall>inp<length (analog_routes m ! out). inp < length (routes_of digital m ! out) \<and>
                route_ok (routes_of digital m ! out ! inp))"
  shows "dump_outputs digital prefix outs m sec =
           Inr (foldl (\<lambda>acc kv. AList.update (fst kv) (snd kv) acc) sec
                  (concat (map (\<lambda>out. map (\<lambda>inp. (route_key prefix inp out,
                                                  VInt (volume_at (routes_of digital m) out inp)))
                                         [0..<length (analog_routes m ! out)]) outs)))"
  using assms
proof (induction outs arbitrary: sec)
  case Nil
  then show ?case by simp
next
  case (Cons out outs)
  have o: "out < length (analog_routes m)" "out < length (routes_of digital m)"
    using Cons.prems by simp_all
  have "\<forall>inp\<in>set [0..<length (analog_routes m ! out)]. inp < length (routes_of digital m ! out) \<and>
           route_ok (routes_of digital m ! out ! inp)"
    using Cons.prems by simp
  from dump_inputs_fold [OF o(2) this] have
    d: "dump_inputs digital prefix out [0..<length (analog_routes m ! out)] m sec =
           Inr (foldl (\<lambda>acc kv. AList.update (fst kv) (snd kv) acc) sec
                  (map (\<lambda>inp. (route_key prefix inp out, VInt (volume_at (routes_of digital m) out inp)))
                     [0..<length (analog_routes m ! out)]))" .
  have rest: "\<forall>out\<in>set outs. out < length (analog_routes m) \<and> out < length (routes_of digital m) \<and>
             (\<forall>inp<length (analog_routes m ! out). inp < length (routes_of digital m ! out) \<and>
                route_ok (routes_of digital m ! out ! inp))"
    using Cons.prems by simp
  show ?case
    using o by (simp add: getitem_nat d Cons.IH [OF rest])
qed

lemma positions_mem:
  "(out, inp) \<in> set (positions rows) \<longleftrightarrow> out < length rows \<and> inp < length (rows ! out)"
  by (force simp: positions_def)

lemma distinct_positions_upto:
  "distinct (concat (map (\<lambda>out. map (Pair out) [0..<f out]) [0..<n]))"
  by (induction n) (auto simp: distinct_map inj_on_def)

lemma distinct_positions: "distinct (positions rows)"
  unfolding positions_def by (rule distinct_positions_upto)

lemma route_entries_keys_distinct:
  assumes "prefix = ''ain'' \<or> prefix = ''din''"
  shows "distinct (map fst (route_entries prefix rows))"
proof -
  have "map fst (route_entries prefix rows) =
          map (\<lambda>p. route_key prefix (snd p) (fst p)) (positions rows)"
    by (simp add: route_entries_def case_prod_beta)
  moreover have "inj_on (\<lambda>p. route_key prefix (snd p) (fst p)) (set (positions rows))"
    by (rule inj_onI) (use route_key_inj [OF assms] in \<open>auto simp: prod_eq_iff\<close>)
  ultimately show ?thesis
    using distinct_positions by (simp add: distinct_map)
qed

lemma route_entries_as_concat:
  assumes "map length shape = map length rows"
  shows "concat (map (\<lambda>out. map (\<lambda>inp. (route_key prefix inp out, VInt (volume_at rows out inp)))
                                [0..<length (shape ! out)]) [0..<length shape]) =
         route_entries prefix rows"
proof -
  let ?F = "\<lambda>out. map (\<lambda>inp. (route_key prefix inp out, VInt (volume_at rows out inp)))
                                [0..<length (shape ! out)]"
  let ?G = "\<lambda>out. map (\<lambda>inp. (route_key prefix inp out, VInt (volume_at rows out inp)))
                                [0..<length (rows ! out)]"
  have l: "length shape = length rows"
    using assms by (metis length_map)
  have r: "length (shape ! out) = length (rows ! out)" if "out < length rows" for out
    using assms that l by (metis nth_map)
  have "map ?F [0..<length rows] = map ?G [0..<length rows]"
    by (rule map_cong) (simp_all add: r)
  then have "concat (map ?F [0..<length shape]) = concat (map ?G [0..<length rows])"
    by (simp only: l)
  also have "\<dots> = route_entries prefix rows"
    by (simp add: route_entries_def positions_def map_concat comp_def)
  finally show ?thesis .
qed

lemma dump_outputs_entries:
  assumes "prefix = ''ain'' \<or> prefix = ''din''"
    and "list_all (list_all route_ok) (routes_of digital m)"
    and "map length (analog_routes m) = map length (routes_of digital m)"
  shows "dump_outputs digital prefix [0..<length (routes_of digital m)] m [] =
           Inr (route_entries prefix (routes_of digital m))"
proof -
  let ?R = "routes_of digital m"
  have l: "length (analog_routes m) = length ?R"
    using assms(3) by (metis length_map)
  have r: "length (analog_routes m ! out) = length (?R ! out)" if "out < length ?R" for out
    using assms(3) that l by (metis nth_map)
  have ok: "route_ok (?R ! out ! inp)" if "out < length ?R" "inp < length (?R ! out)" for out inp
    using assms(2) that by (simp add: list_all_length)
  have pre: "\<forall>out\<in>set [0..<length ?R]. out < length (analog_routes m) \<and> out < length ?R \<and>
             (\<forall>inp<length (analog_routes m ! out). inp < length (?R ! out) \<and>
                route_ok (?R ! out ! inp))"
    using l r ok by auto
  have "dump_outputs digital prefix [0..<length ?R] m [] =
          Inr (foldl (\<lambda>acc kv. AList.update (fst kv) (snd kv) acc) []
                 (route_entries prefix ?R))"
    using dump_outputs_fold [OF pre, of prefix "[]"] route_entries_as_concat [OF assms(3), of prefix]
    by (simp add: l)
  then show ?thesis
    using updates_fresh [of "[]" "route_entries prefix ?R"] route_entries_keys_distinct [OF assms(1)]
    by simp
qed
lemma dump_effects_fold:
  assumes "\<forall>n\<in>set ns. \<exists>c. map_of (card_controls m) n = Some c \<and> effect_ok c"
  shows "dump_effects ns m sec =
           Inr (foldl (\<lambda>acc kv. AList.update (fst kv) (snd kv) acc) sec
                  (map (\<lambda>n. (control_key n, effect_value (the (map_of (card_controls m) n)))) ns))"
  using assms
proof (induction ns arbitrary: sec)
  case Nil
  then show ?case by simp
next
  case (Cons n ns)
  from Cons.prems obtain c where c: "map_of (card_controls m) n = Some c" "effect_ok c"
    by auto
  have rest: "\<forall>n\<in>set ns. \<exists>c. map_of (card_controls m) n = Some c \<and> effect_ok c"
    using Cons.prems by simp
  show ?case
    using c Cons.IH [OF rest]
    by (auto simp: open_control_def effect_ok_def effect_value_def ctl_getvolume0_def
        split: option.splits)
qed

lemma map_of_values:
  "distinct (map fst cc) \<Longrightarrow>
   map (\<lambda>n. (f n, h (the (map_of cc n)))) (map fst cc) = map (\<lambda>nc. (f (fst nc), h (snd nc))) cc"
  by (induction cc) (auto simp: rev_image_eqI)

lemma distinct_names:
  "distinct (map control_key ns) \<Longrightarrow> distinct ns"
  by (simp add: distinct_map)

lemma dump_effects_entries:
  assumes "map fst (card_controls m) = fx_control_names m"
    and "distinct (map control_key (fx_control_names m))"
    and "list_all (\<lambda>nc. effect_ok (snd nc)) (card_controls m)"
  shows "dump_effects (fx_control_names m) m [] = Inr (effect_entries (card_controls m))"
proof -
  let ?cc = "card_controls m"
  have d: "distinct (map fst ?cc)"
    using assms(1,2) distinct_names by simp
  have pre: "\<forall>n\<in>set (fx_control_names m). \<exists>c. map_of ?cc n = Some c \<and> effect_ok c"
  proof
    fix n assume "n \<in> set (fx_control_names m)"
    then have "n \<in> fst ` set ?cc"
      using assms(1) by (simp add: set_map [symmetric] del: set_map)
    then obtain c where nc: "(n, c) \<in> set ?cc"
      by auto
    then have "map_of ?cc n = Some c" using d by simp
    moreover have "effect_ok c" using assms(3) nc by (auto simp: list_all_iff)
    ultimately show "\<exists>c. map_of ?cc n = Some c \<and> effect_ok c" by blast
  qed
  have "map (\<lambda>n. (control_key n, effect_value (the (map_of ?cc n)))) (map fst ?cc) =
             effect_entries ?cc"
    using map_of_values [OF d, of control_key effect_value]
    by (simp add: effect_entries_def case_prod_beta)
  then have e: "map (\<lambda>n. (control_key n, effect_value (the (map_of ?cc n)))) (fx_control_names m) =
             effect_entries ?cc"
    by (simp only: assms(1))
  have "map fst (effect_entries ?cc) = map control_key (map fst ?cc)"
    by (simp add: effect_entries_def case_prod_beta)
  then have k: "distinct (map fst (effect_entries ?cc))"
    using assms(2) by (simp only: assms(1))
  have "dump_effects (fx_control_names m) m [] =
          Inr (foldl (\<lambda>acc kv. AList.update (fst kv) (snd kv) acc) [] (effect_entries ?cc))"
    using dump_effects_fold [OF pre, of "[]"] by (simp only: e)
  also have "\<dots> = Inr (effect_entries ?cc)"
    using updates_fresh [of "[]" "effect_entries ?cc"] k by simp
  finally show ?thesis .
qed

lemma dump_links_fold:
  "dump_links is g sec =
     foldl (\<lambda>acc kv. AList.update (fst kv) (snd kv) acc) sec
       (map (\<lambda>i. (link_key i, VStr (case links g ! i of None \<Rightarrow> ''0'' | Some t \<Rightarrow> format_int (t + 1)))) is)"
  by (induction "is" arbitrary: sec) (simp_all split: option.splits)

lemma dump_links_entries: "dump_links [0..<length (links g)] g [] = link_entries (links g)"
proof -
  have "distinct (map fst (link_entries (links g)))"
    by (simp add: link_entries_def comp_def distinct_map inj_on_def link_key_inj)
  then show ?thesis
    using updates_fresh [of "[]" "link_entries (links g)"]
    by (simp add: dump_links_fold link_entries_def)
qed

lemma Encode_wellformed:
  assumes "wellformed g"
  shows "Encode g =
           Inr [(''Analog'', route_entries ''ain'' (analog_routes (gui_mixer g))),
                (''Digital'', route_entries ''din'' (digital_routes (gui_mixer g))),
                (''Effects'', effect_entries (card_controls (gui_mixer g))),
                (''GUI'', link_entries (links g))]"
proof -
  let ?m = "gui_mixer g"
  have a: "dump_outputs False ''ain'' [0..<length (analog_routes ?m)] ?m [] =
             Inr (route_entries ''ain'' (analog_routes ?m))"
    using dump_outputs_entries [of "''ain''" False ?m] assms
    by (simp add: wellformed_def routes_of_def)
  have d: "dump_outputs True ''din'' [0..<length (digital_routes ?m)] ?m [] =
             Inr (route_entries ''din'' (digital_routes ?m))"
    using dump_outputs_entries [of "''din''" True ?m] assms
    by (simp add: wellformed_def routes_of_def)
  have e: "dump_effects (fx_control_names ?m) ?m [] = Inr (effect_entries (card_controls ?m))"
    using dump_effects_entries [of ?m] assms by (simp add: wellformed_def)
  show ?thesis
    by (simp add: Encode_def GetConfigDict_def a d e Gui_GetConfigDict_def dump_links_entries)
qed

section \<open>What ParseConfigDict reads back\<close>

lemma length_with_volumes [simp]: "length (with_volumes V ps rows) = length rows"
  by (simp add: with_volumes_def)

lemma nth_with_volumes:
  "out < length rows \<Longrightarrow>
   with_volumes V ps rows ! out =
     map (\<lambda>inp. if (out, inp) \<in> ps
                then map_option (\<lambda>c. c\<lparr>ctl_volume := Some (V out inp)\<rparr>) (rows ! out ! inp)
                else rows ! out ! inp)
       [0..<length (rows ! out)]"
  by (simp add: with_volumes_def)

lemma with_volumes_empty: "with_volumes V {} rows = rows"
  by (rule nth_equalityI, simp, rule nth_equalityI) (simp_all add: nth_with_volumes)

lemma routes_of_store:
  "routes_of digital (store_route digital ro ri c m) =
     (routes_of digital m)[ro := (routes_of digital m ! ro)[ri := Some c]]"
  by (simp add: routes_of_def store_route_def)

lemma with_volumes_step:
  assumes "out < length rows" and "inp < length (rows ! out)" and "rows ! out ! inp = Some c"
    and "(out, inp) \<notin> ps"
  shows "with_volumes V ps (rows[out := (rows ! out)[inp := Some (c\<lparr>ctl_volume := Some (V out inp)\<rparr>)]]) =
         with_volumes V (insert (out, inp) ps) rows"
proof (rule nth_equalityI)
  show "length (with_volumes V ps (rows[out := (rows ! out)[inp := Some (c\<lparr>ctl_volume := Some (V out inp)\<rparr>)]])) =
        length (with_volumes V (insert (out, inp) ps) rows)"
    by simp
next
  fix ro assume "ro < length (with_volumes V ps (rows[out := (rows ! out)[inp := Some (c\<lparr>ctl_volume := Some (V out inp)\<rparr>)]]))"
  then have ro: "ro < length rows" by simp
  show "with_volumes V ps (rows[out := (rows ! out)[inp := Some (c\<lparr>ctl_volume := Some (V out inp)\<rparr>)]]) ! ro =
        with_volumes V (insert (out, inp) ps) rows ! ro"
    using ro assms
    by (intro nth_equalityI) (auto simp: nth_with_volumes nth_list_update)
qed

lemma parse_routes_positions:
  fixes V :: "nat \<Rightarrow> nat \<Rightarrow> int"
  assumes pre: "prefix = ''ain'' \<or> prefix = ''din''"
    and "distinct ps"
    and "\<forall>p\<in>set ps. fst p < length (routes_of digital m)
           \<and> snd p < length (routes_of digital m ! fst p)
           \<and> (\<exists>c. routes_of digital m ! fst p ! snd p = Some c \<and> ctl_volume c \<noteq> None)
           \<and> 0 \<le> V (fst p) (snd p) \<and> V (fst p) (snd p) \<le> 100
           \<and> map_of sec (route_key prefix (snd p) (fst p)) = Some (VInt (V (fst p) (snd p)))"
  shows "\<exists>m'. parse_routes digital prefix sec (map (\<lambda>p. route_key prefix (snd p) (fst p)) ps) changed m =
                 (Inr (changed @ map (\<lambda>p. (int (fst p), int (snd p))) ps), m')
              \<and> only_routes_changed digital m m'
              \<and> routes_of digital m' = with_volumes V (set ps) (routes_of digital m)"
  using assms(2,3)
proof (induction ps arbitrary: m changed)
  case Nil
  then show ?case by (simp add: with_volumes_empty)
next
  case (Cons p ps)
  obtain out inp where p: "p = (out, inp)" by (cases p) auto
  let ?R = "routes_of digital m"
  from Cons.prems p obtain c where
    o: "out < length ?R" and i: "inp < length (?R ! out)"
    and c: "?R ! out ! inp = Some c" "ctl_volume c \<noteq> None"
    and v: "0 \<le> V out inp" "V out inp \<le> 100"
    and val: "map_of sec (route_key prefix inp out) = Some (VInt (V out inp))"
    by auto
  have fresh: "(out, inp) \<notin> set ps" and dist: "distinct ps"
    using Cons.prems p by auto
  define m1 where "m1 = store_route digital out inp (c\<lparr>ctl_volume := Some (V out inp)\<rparr>)
                          (m\<lparr>backend_writes := backend_writes m @ [(ctl_name c, V out inp)]\<rparr>)"
  have set: "SetVolume (V out inp) (int out) (int inp) digital m = (Inr (), m1)"
    unfolding m1_def using o i c v by (rule SetVolume_ok)
  have f1: "only_routes_changed digital m m1"
    using SetVolume_frame [OF set] .
  have R1: "routes_of digital m1 = ?R[out := (?R ! out)[inp := Some (c\<lparr>ctl_volume := Some (V out inp)\<rparr>)]]"
    unfolding m1_def using routes_of_store [of digital out inp _ "m\<lparr>backend_writes := backend_writes m @ [(ctl_name c, V out inp)]\<rparr>"]
    by (simp add: routes_of_def)
  have pre1: "\<forall>p\<in>set ps. fst p < length (routes_of digital m1)
           \<and> snd p < length (routes_of digital m1 ! fst p)
           \<and> (\<exists>c. routes_of digital m1 ! fst p ! snd p = Some c \<and> ctl_volume c \<noteq> None)
           \<and> 0 \<le> V (fst p) (snd p) \<and> V (fst p) (snd p) \<le> 100
           \<and> map_of sec (route_key prefix (snd p) (fst p)) = Some (VInt (V (fst p) (snd p)))"
  proof
    fix q assume q: "q \<in> set ps"
    then have ne: "q \<noteq> (out, inp)" using fresh by auto
    from Cons.prems(2) q have
      a: "fst q < length ?R" "snd q < length (?R ! fst q)"
      and b: "\<exists>c. ?R ! fst q ! snd q = Some c \<and> ctl_volume c \<noteq> None"
      and rest: "0 \<le> V (fst q) (snd q) \<and> V (fst q) (snd q) \<le> 100
           \<and> map_of sec (route_key prefix (snd q) (fst q)) = Some (VInt (V (fst q) (snd q)))"
      by auto
    have same: "routes_of digital m1 ! fst q ! snd q = ?R ! fst q ! snd q"
      using ne a o i by (cases q) (auto simp: R1 nth_list_update)
    have len: "length (routes_of digital m1 ! fst q) = length (?R ! fst q)"
      using a o by (simp add: R1 nth_list_update)
    show "fst q < length (routes_of digital m1)
           \<and> snd q < length (routes_of digital m1 ! fst q)
           \<and> (\<exists>c. routes_of digital m1 ! fst q ! snd q = Some c \<and> ctl_volume c \<noteq> None)
           \<and> 0 \<le> V (fst q) (snd q) \<and> V (fst q) (snd q) \<le> 100
           \<and> map_of sec (route_key prefix (snd q) (fst q)) = Some (VInt (V (fst q) (snd q)))"
      using a b rest same len by (simp add: R1)
  qed
  from Cons.IH [OF dist pre1, of "changed @ [(int out, int inp)]"] obtain m' where
    run: "parse_routes digital prefix sec (map (\<lambda>p. route_key prefix (snd p) (fst p)) ps)
            (changed @ [(int out, int inp)]) m1 =
          (Inr ((changed @ [(int out, int inp)]) @ map (\<lambda>p. (int (fst p), int (snd p))) ps), m')"
    and f2: "only_routes_changed digital m1 m'"
    and R2: "routes_of digital m' = with_volumes V (set ps) (routes_of digital m1)"
    by blast
  have key: "parse_route_key prefix (route_key prefix inp out) = Inr (int inp, int out)"
    using parse_route_key_route_key [OF pre] .
  have "parse_routes digital prefix sec (map (\<lambda>p. route_key prefix (snd p) (fst p)) (p # ps)) changed m =
          (Inr (changed @ map (\<lambda>p. (int (fst p), int (snd p))) (p # ps)), m')"
    using run by (simp add: p key dict_get_def val set)
  moreover have "only_routes_changed digital m m'"
    using only_routes_changed_trans [OF f1 f2] .
  moreover have "routes_of digital m' = with_volumes V (set (p # ps)) ?R"
    using with_volumes_step [OF o i c(1) fresh, of V] by (simp add: R2 R1 p)
  ultimately show ?case by blast
qed
lemma blank_route:
  assumes "blank c' = blank c" and "ctl_enum c = None" and "ctl_volume c = Some v"
  shows "ctl_volume c' \<noteq> None" and "c'\<lparr>ctl_volume := Some v\<rparr> = c"
proof -
  have n: "ctl_name c' = ctl_name c"
    using assms(1) by (metis blank_def control.select_convs(1) control.surjective control.update_convs(2,3))
  have vol: "map_option (\<lambda>v. 0 :: int) (ctl_volume c') = map_option (\<lambda>v. 0) (ctl_volume c)"
    using arg_cong [OF assms(1), of ctl_volume] by (simp add: blank_def)
  have en: "map_option (\<lambda>(current :: string, items :: string list). ([] :: string, items)) (ctl_enum c') =
            map_option (\<lambda>(current, items). ([], items)) (ctl_enum c)"
    using arg_cong [OF assms(1), of ctl_enum] by (simp add: blank_def)
  show "ctl_volume c' \<noteq> None"
    using vol assms(3) by auto
  have "ctl_enum c' = None"
    using en assms(2) by simp
  then show "c'\<lparr>ctl_volume := Some v\<rparr> = c"
    using n assms(2,3) by simp
qed

lemma same_rows:
  assumes "map (map (map_option blank)) rows' = map (map (map_option blank)) rows"
  shows "length rows' = length rows"
    and "out < length rows \<Longrightarrow> length (rows' ! out) = length (rows ! out)"
    and "out < length rows \<Longrightarrow> inp < length (rows ! out) \<Longrightarrow>
         map_option blank (rows' ! out ! inp) = map_option blank (rows ! out ! inp)"
proof -
  show l: "length rows' = length rows"
    using assms by (metis length_map)
  have r: "map (map_option blank) (rows' ! out) = map (map_option blank) (rows ! out)"
    if "out < length rows" for out
    using assms that l by (metis nth_map)
  show l2: "length (rows' ! out) = length (rows ! out)" if "out < length rows"
    using r [OF that] by (metis length_map)
  show "map_option blank (rows' ! out ! inp) = map_option blank (rows ! out ! inp)"
    if "out < length rows" "inp < length (rows ! out)"
    using r [OF that(1)] l2 [OF that(1)] that(2) by (metis nth_map)
qed

lemma positions_same:
  assumes "map (map (map_option blank)) rows' = map (map (map_option blank)) rows"
  shows "positions rows' = positions rows"
proof -
  note s = same_rows [OF assms]
  have "map (\<lambda>out. map (Pair out) [0..<length (rows' ! out)]) [0..<length rows] =
        map (\<lambda>out. map (Pair out) [0..<length (rows ! out)]) [0..<length rows]"
    by (rule map_cong) (simp_all add: s(2))
  then have "concat (map (\<lambda>out. map (Pair out) [0..<length (rows' ! out)]) [0..<length rows]) =
        concat (map (\<lambda>out. map (Pair out) [0..<length (rows ! out)]) [0..<length rows])"
    by (rule arg_cong)
  then show ?thesis
    unfolding positions_def s(1) .
qed

lemma with_volumes_restore:
  assumes same: "map (map (map_option blank)) rows' = map (map (map_option blank)) rows"
    and ok: "list_all (list_all route_ok) rows"
  shows "with_volumes (volume_at rows) (set (positions rows)) rows' = rows"
proof (rule nth_equalityI)
  note s = same_rows [OF same]
  show "length (with_volumes (volume_at rows) (set (positions rows)) rows') = length rows"
    by (simp add: s(1))
  fix out assume "out < length (with_volumes (volume_at rows) (set (positions rows)) rows')"
  then have o: "out < length rows" by (simp add: s(1))
  show "with_volumes (volume_at rows) (set (positions rows)) rows' ! out = rows ! out"
  proof (rule nth_equalityI)
    show "length (with_volumes (volume_at rows) (set (positions rows)) rows' ! out) = length (rows ! out)"
      using o by (simp add: nth_with_volumes s(1) s(2))
    fix inp assume "inp < length (with_volumes (volume_at rows) (set (positions rows)) rows' ! out)"
    then have i: "inp < length (rows ! out)"
      using o by (simp add: nth_with_volumes s(1) s(2))
    have "route_ok (rows ! out ! inp)"
      using ok o i by (simp add: list_all_length)
    then obtain c v where c: "rows ! out ! inp = Some c" "ctl_enum c = None" "ctl_volume c = Some v"
      by (auto simp: route_ok_def split: option.splits)
    from s(3) [OF o i] c(1) obtain c' where c': "rows' ! out ! inp = Some c'" "blank c' = blank c"
      by (cases "rows' ! out ! inp") auto
    have "volume_at rows out inp = v"
      by (simp add: volume_at_def c)
    then show "with_volumes (volume_at rows) (set (positions rows)) rows' ! out ! inp = rows ! out ! inp"
      using o i blank_route(2) [OF c'(2) c(2,3)]
      by (simp add: nth_with_volumes s(1) s(2) positions_mem c c')
  qed
qed

lemma map_of_route_entries:
  assumes "prefix = ''ain'' \<or> prefix = ''din''" and "(out, inp) \<in> set (positions rows)"
  shows "map_of (route_entries prefix rows) (route_key prefix inp out) =
           Some (VInt (volume_at rows out inp))"
proof -
  have "(route_key prefix inp out, VInt (volume_at rows out inp)) \<in> set (route_entries prefix rows)"
    using assms(2) by (force simp: route_entries_def)
  then show ?thesis
    using route_entries_keys_distinct [OF assms(1), of rows] by simp
qed

lemma parse_routes_restore:
  assumes pre: "prefix = ''ain'' \<or> prefix = ''din''"
    and same: "map (map (map_option blank)) (routes_of digital m) = map (map (map_option blank)) rows"
    and ok: "list_all (list_all route_ok) rows"
  shows "\<exists>ch m'. parse_routes digital prefix (route_entries prefix rows)
                   (map fst (route_entries prefix rows)) [] m = (Inr ch, m')
              \<and> only_routes_changed digital m m'
              \<and> routes_of digital m' = rows"
proof -
  let ?R = "routes_of digital m"
  note s = same_rows [OF same]
  have keys: "map fst (route_entries prefix rows) =
                map (\<lambda>p. route_key prefix (snd p) (fst p)) (positions rows)"
    by (simp add: route_entries_def case_prod_beta)
  have each: "\<forall>p\<in>set (positions rows). fst p < length ?R
           \<and> snd p < length (?R ! fst p)
           \<and> (\<exists>c. ?R ! fst p ! snd p = Some c \<and> ctl_volume c \<noteq> None)
           \<and> 0 \<le> volume_at rows (fst p) (snd p) \<and> volume_at rows (fst p) (snd p) \<le> 100
           \<and> map_of (route_entries prefix rows) (route_key prefix (snd p) (fst p)) =
               Some (VInt (volume_at rows (fst p) (snd p)))"
  proof
    fix p assume p: "p \<in> set (positions rows)"
    obtain out inp where pp: "p = (out, inp)" by (cases p) auto
    have o: "out < length rows" and i: "inp < length (rows ! out)"
      using p pp by (simp_all add: positions_mem)
    have "route_ok (rows ! out ! inp)"
      using ok o i by (simp add: list_all_length)
    then obtain c v where c: "rows ! out ! inp = Some c" "ctl_enum c = None" "ctl_volume c = Some v"
      and v: "0 \<le> v" "v \<le> 100"
      by (auto simp: route_ok_def split: option.splits)
    from s(3) [OF o i] c(1) obtain c' where c': "?R ! out ! inp = Some c'" "blank c' = blank c"
      by (cases "?R ! out ! inp") auto
    have va: "volume_at rows out inp = v"
      by (simp add: volume_at_def c)
    show "fst p < length ?R
           \<and> snd p < length (?R ! fst p)
           \<and> (\<exists>c. ?R ! fst p ! snd p = Some c \<and> ctl_volume c \<noteq> None)
           \<and> 0 \<le> volume_at rows (fst p) (snd p) \<and> volume_at rows (fst p) (snd p) \<le> 100
           \<and> map_of (route_entries prefix rows) (route_key prefix (snd p) (fst p)) =
               Some (VInt (volume_at rows (fst p) (snd p)))"
      using o i s(1) s(2) c' blank_route(1) [OF c'(2) c(2,3)] v va
        map_of_route_entries [OF pre, of out inp rows] p
      by (simp add: pp)
  qed
  from parse_routes_positions [OF pre distinct_positions each, of "[]"] obtain m' where
    "parse_routes digital prefix (route_entries prefix rows)
       (map (\<lambda>p. route_key prefix (snd p) (fst p)) (positions rows)) [] m =
     (Inr ([] @ map (\<lambda>p. (int (fst p), int (snd p))) (positions rows)), m')"
    and "only_routes_changed digital m m'"
    and "routes_of digital m' = with_volumes (volume_at rows) (set (positions rows)) ?R"
    by blast
  then show ?thesis
    using with_volumes_restore [OF same ok] by (auto simp: keys)
qed
lemma update_middle:
  "n \<notin> fst ` set done \<Longrightarrow>
   AList.update n c (done @ (n, c') # rest) = done @ (n, c) # rest"
  by (induction "done") auto

lemma map_of_middle:
  "n \<notin> fst ` set done \<Longrightarrow> map_of (done @ (n, c') # rest) n = Some c'"
  by (induction "done") auto

lemma blank_effect:
  assumes "blank c' = blank c" and "effect_ok c"
  shows "ctl_enum c = None \<Longrightarrow> ctl_volume c = Some v \<Longrightarrow>
           ctl_enum c' = None \<and> ctl_volume c' \<noteq> None \<and> c'\<lparr>ctl_volume := Some v\<rparr> = c"
    and "ctl_enum c = Some (current, items) \<Longrightarrow>
           (\<exists>current'. ctl_enum c' = Some (current', items))
           \<and> c'\<lparr>ctl_enum := Some (current, items)\<rparr> = c"
proof -
  have n: "ctl_name c' = ctl_name c"
    using assms(1) by (metis blank_def control.select_convs(1) control.surjective control.update_convs(2,3))
  have vol: "map_option (\<lambda>v. 0 :: int) (ctl_volume c') = map_option (\<lambda>v. 0) (ctl_volume c)"
    using arg_cong [OF assms(1), of ctl_volume] by (simp add: blank_def)
  have en: "map_option (\<lambda>(current :: string, items :: string list). ([] :: string, items)) (ctl_enum c') =
            map_option (\<lambda>(current, items). ([], items)) (ctl_enum c)"
    using arg_cong [OF assms(1), of ctl_enum] by (simp add: blank_def)
  show "ctl_enum c' = None \<and> ctl_volume c' \<noteq> None \<and> c'\<lparr>ctl_volume := Some v\<rparr> = c"
    if "ctl_enum c = None" "ctl_volume c = Some v"
    using that n vol en by auto
  show "(\<exists>current'. ctl_enum c' = Some (current', items))
           \<and> c'\<lparr>ctl_enum := Some (current, items)\<rparr> = c"
    if e: "ctl_enum c = Some (current, items)"
  proof -
    have v0: "ctl_volume c = None"
      using assms(2) e by (simp add: effect_ok_def)
    then have v': "ctl_volume c' = None"
      using vol by simp
    from en e obtain current' where "ctl_enum c' = Some (current', items)"
      by (cases "ctl_enum c'") auto
    then show ?thesis
      using n v0 v' e by auto
  qed
qed

lemma parse_effects_restore:
  assumes "card_controls m = done @ todo'"
    and "map fst todo' = ns" and "map fst todo = ns"
    and "map (\<lambda>nc. blank (snd nc)) todo' = map (\<lambda>nc. blank (snd nc)) todo"
    and "list_all (\<lambda>nc. effect_ok (snd nc)) todo"
    and "distinct (map fst done @ ns)"
    and "\<forall>nc\<in>set todo. map_of sec (control_key (fst nc)) = Some (effect_value (snd nc))"
  shows "\<exists>w. parse_effects ns sec m =
           (Inr (), m\<lparr>card_controls := done @ todo, backend_writes := w\<rparr>)"
  using assms
proof (induction ns arbitrary: "done" todo todo' m)
  case Nil
  then have "todo = []" "todo' = []" by simp_all
  then show ?case
    using Nil.prems(1) by (intro exI [of _ "backend_writes m"]) simp
next
  case (Cons n ns)
  from Cons.prems(2,3) obtain c c' t t' where
    td: "todo = (n, c) # t" "todo' = (n, c') # t'" and rest: "map fst t = ns" "map fst t' = ns"
    by (cases todo; cases todo') auto
  have bl: "blank c' = blank c" and blr: "map (\<lambda>nc. blank (snd nc)) t' = map (\<lambda>nc. blank (snd nc)) t"
    using Cons.prems(4) td by simp_all
  have ok: "effect_ok c" and okr: "list_all (\<lambda>nc. effect_ok (snd nc)) t"
    using Cons.prems(5) td by simp_all
  have fresh: "n \<notin> fst ` set done" and dist: "distinct (map fst (done @ [(n, c)]) @ ns)"
    using Cons.prems(6) by auto
  have val: "map_of sec (control_key n) = Some (effect_value c)"
    and valr: "\<forall>nc\<in>set t. map_of sec (control_key (fst nc)) = Some (effect_value (snd nc))"
    using Cons.prems(7) td by simp_all
  have cc: "card_controls m = done @ (n, c') # t'"
    using Cons.prems(1) td by simp
  have op: "open_control m n = Inr c'"
    using map_of_middle [OF fresh] by (simp add: open_control_def cc)
  show ?case
  proof (cases "ctl_enum c")
    case None
    from ok None obtain v where v: "ctl_volume c = Some v" "0 \<le> v" "v \<le> 100"
      by (auto simp: effect_ok_def split: option.splits)
    from blank_effect(1) [OF bl ok None v(1)] have
      c': "ctl_enum c' = None" "ctl_volume c' \<noteq> None" "c'\<lparr>ctl_volume := Some v\<rparr> = c"
      by simp_all
    define m1 where "m1 = m\<lparr>backend_writes := backend_writes m @ [(n, v)],
                          card_controls := (done @ [(n, c)]) @ t'\<rparr>"
    have ev: "effect_value c = VInt v"
      by (simp add: effect_value_def None v)
    have set: "ctl_setvolume v c' = Inr c"
      using c' v by (simp add: ctl_setvolume_def)
    have step: "parse_effects (n # ns) sec m = parse_effects ns sec m1"
      using update_middle [OF fresh, of c c' t']
      by (simp add: val ev op c' set Let_def m1_def cc)
    have "card_controls m1 = (done @ [(n, c)]) @ t'"
      by (simp add: m1_def)
    from Cons.IH [OF this rest(2) rest(1) blr okr dist valr] obtain w where
      "parse_effects ns sec m1 =
         (Inr (), m1\<lparr>card_controls := (done @ [(n, c)]) @ t, backend_writes := w\<rparr>)"
      by blast
    then show ?thesis
      using step by (intro exI [of _ w]) (simp add: m1_def td)
  next
    case (Some ci)
    obtain current items where ci: "ci = (current, items)" by (cases ci) auto
    have en: "ctl_enum c = Some (current, items)" using Some ci by simp
    from ok en have mem: "current \<in> set items"
      by (simp add: effect_ok_def)
    from blank_effect(2) [OF bl ok en] obtain current' where
      c': "ctl_enum c' = Some (current', items)" "c'\<lparr>ctl_enum := Some (current, items)\<rparr> = c"
      by blast
    define m1 where "m1 = m\<lparr>card_controls := (done @ [(n, c)]) @ t'\<rparr>"
    have ev: "effect_value c = VStr current"
      by (simp add: effect_value_def en)
    have am: "amixer_sset n current m = m1"
      using update_middle [OF fresh, of c c' t'] map_of_middle [OF fresh, of c' t'] mem
      by (simp add: amixer_sset_def cc c' m1_def)
    have step: "parse_effects (n # ns) sec m = parse_effects ns sec m1"
      using mem by (simp add: val ev op c' am)
    have "card_controls m1 = (done @ [(n, c)]) @ t'"
      by (simp add: m1_def)
    from Cons.IH [OF this rest(2) rest(1) blr okr dist valr] obtain w where
      "parse_effects ns sec m1 =
         (Inr (), m1\<lparr>card_controls := (done @ [(n, c)]) @ t, backend_writes := w\<rparr>)"
      by blast
    then show ?thesis
      using step by (intro exI [of _ w]) (simp add: m1_def td)
  qed
qed

lemma map_of_effect_entries:
  assumes "distinct (map control_key (map fst cc))" and "nc \<in> set cc"
  shows "map_of (effect_entries cc) (control_key (fst nc)) = Some (effect_value (snd nc))"
proof -
  have "map fst (effect_entries cc) = map control_key (map fst cc)"
    by (simp add: effect_entries_def case_prod_beta)
  then have d: "distinct (map fst (effect_entries cc))"
    using assms(1) by simp
  have "(control_key (fst nc), effect_value (snd nc)) \<in> set (effect_entries cc)"
    using assms(2) by (force simp: effect_entries_def case_prod_beta)
  then show ?thesis
    using d by simp
qed

lemma py_int_zero: "py_int ''0'' = Inr 0"
  by code_simp

lemma parse_links_restore:
  assumes "\<forall>i\<in>set is. i < length (links g) \<and> i < length ls
             \<and> (case ls ! i of None \<Rightarrow> True | Some t \<Rightarrow> 0 \<le> t)
             \<and> map_of sec (link_key i) =
                 Some (VStr (case ls ! i of None \<Rightarrow> ''0'' | Some t \<Rightarrow> format_int (t + 1)))"
  shows "parse_links (map link_key is) sec g =
           (Inr (), g\<lparr>links := foldl (\<lambda>l i. l[i := ls ! i]) (links g) is\<rparr>)"
  using assms
proof (induction "is" arbitrary: g)
  case Nil
  then show ?case by simp
next
  case (Cons i rest)
  have i: "i < length (links g)" "i < length ls"
    and w: "case ls ! i of None \<Rightarrow> True | Some t \<Rightarrow> 0 \<le> t"
    and val: "map_of sec (link_key i) =
                 Some (VStr (case ls ! i of None \<Rightarrow> ''0'' | Some t \<Rightarrow> format_int (t + 1)))"
    using Cons.prems by simp_all
  define g1 where "g1 = g\<lparr>links := (links g)[i := ls ! i]\<rparr>"
  have dec: "\<exists>t. to_int (VStr (case ls ! i of None \<Rightarrow> ''0'' | Some t \<Rightarrow> format_int (t + 1))) = Inr t
               \<and> (if t - 1 < 0 then None else Some (t - 1)) = ls ! i"
  proof (cases "ls ! i")
    case None
    then show ?thesis by (simp add: py_int_zero)
  next
    case (Some t)
    then have "0 \<le> t" using w by simp
    then have "format_int (t + 1) = format_int (int (nat (t + 1)))" by simp
    then have "py_int (format_int (t + 1)) = Inr (int (nat (t + 1)))"
      using py_int_format_nat [of "nat (t + 1)"] by (simp only:)
    then show ?thesis
      using Some \<open>0 \<le> t\<close> by simp
  qed
  then obtain t where t: "to_int (VStr (case ls ! i of None \<Rightarrow> ''0'' | Some t \<Rightarrow> format_int (t + 1))) = Inr t"
    "(if t - 1 < 0 then None else Some (t - 1)) = ls ! i"
    by blast
  have step: "parse_links (map link_key (i # rest)) sec g = parse_links (map link_key rest) sec g1"
    using i t by (simp add: link_key_parse dict_get_def val g1_def del: to_int.simps)
  have pre: "\<forall>j\<in>set rest. j < length (links g1) \<and> j < length ls
             \<and> (case ls ! j of None \<Rightarrow> True | Some t \<Rightarrow> 0 \<le> t)
             \<and> map_of sec (link_key j) =
                 Some (VStr (case ls ! j of None \<Rightarrow> ''0'' | Some t \<Rightarrow> format_int (t + 1)))"
    using Cons.prems by (simp add: g1_def)
  show ?case
    using Cons.IH [OF pre] step by (simp add: g1_def)
qed

lemma foldl_update_all:
  "length l = length ls \<Longrightarrow> k \<le> length ls \<Longrightarrow>
   foldl (\<lambda>l i. l[i := ls ! i]) l [0..<k] = take k ls @ drop k l"
proof (induction k)
  case 0
  then show ?case by simp
next
  case (Suc k)
  then have "foldl (\<lambda>l i. l[i := ls ! i]) l [0..<Suc k] = (take k ls @ drop k l)[k := ls ! k]"
    by simp
  also have "\<dots> = take (Suc k) ls @ drop (Suc k) l"
    using Suc.prems
    by (intro nth_equalityI) (auto simp: nth_list_update nth_append less_Suc_eq)
  finally show ?case .
qed

lemma map_of_link_entries:
  assumes "i < length ls"
  shows "map_of (link_entries ls) (link_key i) =
           Some (VStr (case ls ! i of None \<Rightarrow> ''0'' | Some t \<Rightarrow> format_int (t + 1)))"
proof -
  have d: "distinct (map fst (link_entries ls))"
    by (simp add: link_entries_def comp_def distinct_map inj_on_def link_key_inj)
  have "(link_key i, VStr (case ls ! i of None \<Rightarrow> ''0'' | Some t \<Rightarrow> format_int (t + 1)))
          \<in> set (link_entries ls)"
    using assms by (force simp: link_entries_def)
  then show ?thesis using d by simp
qed
lemma same_card_names:
  assumes "map (\<lambda>nc. (fst nc, blank (snd nc))) cc' = map (\<lambda>nc. (fst nc, blank (snd nc))) cc"
  shows "map fst cc' = map fst cc" and "map (\<lambda>nc. blank (snd nc)) cc' = map (\<lambda>nc. blank (snd nc)) cc"
proof -
  have "map fst (map (\<lambda>nc. (fst nc, blank (snd nc))) cc') = map fst (map (\<lambda>nc. (fst nc, blank (snd nc))) cc)"
    by (simp only: assms)
  then show "map fst cc' = map fst cc"
    by (simp add: comp_def)
  have "map snd (map (\<lambda>nc. (fst nc, blank (snd nc))) cc') = map snd (map (\<lambda>nc. (fst nc, blank (snd nc))) cc)"
    by (simp only: assms)
  then show "map (\<lambda>nc. blank (snd nc)) cc' = map (\<lambda>nc. blank (snd nc)) cc"
    by (simp add: comp_def)
qed

text \<open>
  Where the digital table has the shape of the analog one, the round trip holds. For every
  such state \<open>s\<close> of the data model and every state \<open>s'\<close> of the same sound card: encoding
  \<open>s\<close> succeeds, decoding the result into \<open>s'\<close> succeeds, and afterwards the analog routes,
  the digital routes, the effect controls and the links are those of \<open>s\<close>; encoding the
  state reached gives the same dictionary again.
\<close>

lemma round_trip_same_shape:
  assumes wf: "wellformed s" and sc: "same_card s s'"
  shows "\<exists>d g'. Encode s = Inr d \<and> Decode d s' = (Inr (), g')
           \<and> analog_routes (gui_mixer g') = analog_routes (gui_mixer s)
           \<and> digital_routes (gui_mixer g') = digital_routes (gui_mixer s)
           \<and> fx_control_names (gui_mixer g') = fx_control_names (gui_mixer s)
           \<and> card_controls (gui_mixer g') = card_controls (gui_mixer s)
           \<and> links g' = links s
           \<and> Encode g' = Inr d"
proof -
  let ?m = "gui_mixer s" and ?m' = "gui_mixer s'"
  let ?A = "route_entries ''ain'' (analog_routes ?m)"
  let ?D = "route_entries ''din'' (digital_routes ?m)"
  let ?E = "effect_entries (card_controls ?m)"
  let ?L = "link_entries (links s)"
  define d where "d = [(''Analog'', ?A), (''Digital'', ?D), (''Effects'', ?E), (''GUI'', ?L)]"
  have enc: "Encode s = Inr d"
    using Encode_wellformed [OF wf] by (simp add: d_def)
  have sec: "map_of d ''Analog'' = Some ?A" "map_of d ''Digital'' = Some ?D"
    "map_of d ''Effects'' = Some ?E" "map_of d ''GUI'' = Some ?L"
    by (simp_all add: d_def)
  have wfa: "list_all (list_all route_ok) (analog_routes ?m)"
    and wfd: "list_all (list_all route_ok) (digital_routes ?m)"
    and wfn: "map fst (card_controls ?m) = fx_control_names ?m"
    and wfk: "distinct (map control_key (fx_control_names ?m))"
    and wfe: "list_all (\<lambda>nc. effect_ok (snd nc)) (card_controls ?m)"
    and wfl: "list_all (\<lambda>l. case l of None \<Rightarrow> True | Some t \<Rightarrow> 0 \<le> t) (links s)"
    using wf by (simp_all add: wellformed_def)
  have sa: "map (map (map_option blank)) (analog_routes ?m') = map (map (map_option blank)) (analog_routes ?m)"
    and sd: "map (map (map_option blank)) (digital_routes ?m') = map (map (map_option blank)) (digital_routes ?m)"
    and sn: "fx_control_names ?m' = fx_control_names ?m"
    and se: "map (\<lambda>nc. (fst nc, blank (snd nc))) (card_controls ?m') =
             map (\<lambda>nc. (fst nc, blank (snd nc))) (card_controls ?m)"
    and sl: "length (links s') = length (links s)"
    using sc by (simp_all add: same_card_def)
  \<comment> \<open>the Analog section\<close>
  from parse_routes_restore [of "''ain''" False ?m' "analog_routes ?m"] sa wfa obtain ch1 m1 where
    r1: "parse_routes False ''ain'' ?A (map fst ?A) [] ?m' = (Inr ch1, m1)"
    and f1: "only_routes_changed False ?m' m1" and a1: "analog_routes m1 = analog_routes ?m"
    by (auto simp: routes_of_def)
  have p1: "parse_analog_section d ?m' = (Inr ch1, m1)"
    by (simp add: parse_analog_section_def sec r1)
  have k1: "digital_routes m1 = digital_routes ?m'" "fx_control_names m1 = fx_control_names ?m'"
    "card_controls m1 = card_controls ?m'"
    using f1 by (simp_all add: only_routes_changed_def routes_of_def)
  \<comment> \<open>the Digital section\<close>
  from parse_routes_restore [of "''din''" True m1 "digital_routes ?m"] sd wfd k1(1) obtain ch2 m2 where
    r2: "parse_routes True ''din'' ?D (map fst ?D) [] m1 = (Inr ch2, m2)"
    and f2: "only_routes_changed True m1 m2" and d2: "digital_routes m2 = digital_routes ?m"
    by (auto simp: routes_of_def)
  have p2: "parse_digital_section d m1 = (Inr ch2, m2)"
    by (simp add: parse_digital_section_def sec r2)
  have k2: "analog_routes m2 = analog_routes ?m" "fx_control_names m2 = fx_control_names ?m"
    "card_controls m2 = card_controls ?m'"
    using f2 a1 k1 sn by (simp_all add: only_routes_changed_def routes_of_def)
  \<comment> \<open>the Effects section\<close>
  note nm = same_card_names [OF se]
  have vals: "\<forall>nc\<in>set (card_controls ?m). map_of ?E (control_key (fst nc)) = Some (effect_value (snd nc))"
    using map_of_effect_entries [of "card_controls ?m"] wfk wfn by simp
  have dist: "distinct (map fst ([] :: (string \<times> control) list) @ fx_control_names ?m)"
    using distinct_names [OF wfk] by simp
  have "card_controls m2 = [] @ card_controls ?m'"
    by (simp add: k2)
  from parse_effects_restore [OF this _ wfn nm(2) wfe dist vals] nm(1) wfn obtain w where
    r3: "parse_effects (fx_control_names ?m) ?E m2 =
           (Inr (), m2\<lparr>card_controls := [] @ card_controls ?m, backend_writes := w\<rparr>)"
    by auto
  define m3 where "m3 = m2\<lparr>card_controls := card_controls ?m, backend_writes := w\<rparr>"
  have p3: "parse_effects_section d m2 = (Inr (), m3)"
    using r3 by (simp add: parse_effects_section_def sec k2 m3_def)
  define m4 where "m4 = call_observers (observers m3) ch1 ch2 m3"
  have parse: "ParseConfigDict d ?m' = (Inr (), m4)"
    by (simp add: ParseConfigDict_def p1 p2 p3 m4_def)
  have k4: "analog_routes m4 = analog_routes ?m" "digital_routes m4 = digital_routes ?m"
    "fx_control_names m4 = fx_control_names ?m" "card_controls m4 = card_controls ?m"
    by (simp_all add: m4_def call_observers_dispatched m3_def k2 d2)
  \<comment> \<open>the links\<close>
  define g0 where "g0 = s'\<lparr>gui_mixer := m4\<rparr>"
  have l0: "links g0 = links s'"
    by (simp add: g0_def)
  have keys: "map fst ?L = map link_key [0..<length (links s)]"
    by (simp add: link_entries_def comp_def)
  have each: "\<forall>i\<in>set [0..<length (links s)]. i < length (links g0) \<and> i < length (links s)
             \<and> (case links s ! i of None \<Rightarrow> True | Some t \<Rightarrow> 0 \<le> t)
             \<and> map_of ?L (link_key i) =
                 Some (VStr (case links s ! i of None \<Rightarrow> ''0'' | Some t \<Rightarrow> format_int (t + 1)))"
    using wfl sl by (simp add: l0 list_all_length map_of_link_entries)
  have "foldl (\<lambda>l i. l[i := links s ! i]) (links g0) [0..<length (links s)] = links s"
    using foldl_update_all [of "links g0" "links s" "length (links s)"] sl by (simp add: l0)
  then have links: "parse_links (map fst ?L) ?L g0 = (Inr (), g0\<lparr>links := links s\<rparr>)"
    using parse_links_restore [OF each] by (simp only: keys)
  define g' where "g' = g0\<lparr>links := links s\<rparr>"
  have dec: "Decode d s' = (Inr (), g')"
    by (simp add: Decode_def parse Gui_ParseConfigDict_def sec links g0_def [symmetric] g'_def)
  have fields: "gui_mixer g' = m4" "links g' = links s"
    by (simp_all add: g'_def g0_def)
  have "wellformed g'"
    using wf by (simp add: wellformed_def fields k4)
  from Encode_wellformed [OF this] have "Encode g' = Inr d"
    by (simp add: fields k4 d_def)
  then show ?thesis
    using enc dec fields k4 by auto
qed
lemma example_gui_wellformed: "wellformed example_gui"
  by code_simp

lemma other_gui_same_card: "same_card example_gui other_gui"
  by code_simp

text \<open>
  The card with three channels, with a linear effect at 25, an enumerated effect at
  \<open>Hall 1\<close> and output 2 linked to output 1, saved and loaded into the same card with
  other volumes, the other item and another link.
\<close>

lemma round_trip_same_shape_example:
  "\<exists>d g'. Encode example_gui = Inr d \<and> Decode d other_gui = (Inr (), g')
      \<and> analog_routes (gui_mixer g') = analog_routes example_mixer
      \<and> digital_routes (gui_mixer g') = digital_routes example_mixer
      \<and> card_controls (gui_mixer g') =
          [(''Effect Volume'', volume_control ''Effect Volume'' 25),
           (''Effect Program'', enum_control ''Effect Program'' ''Hall 1'' [''Room 1'', ''Hall 1'', ''Plate''])]
      \<and> links g' = [None, None, Some 1]
      \<and> links other_gui = [Some 1, None, None]
      \<and> GetVolume 0 0 False (gui_mixer other_gui) = Inr 0
      \<and> GetVolume 0 0 False (gui_mixer g') = Inr 11"
proof -
  from round_trip_same_shape [OF example_gui_wellformed other_gui_same_card] obtain d g' where
    r: "Encode example_gui = Inr d" "Decode d other_gui = (Inr (), g')"
    "analog_routes (gui_mixer g') = analog_routes (gui_mixer example_gui)"
    "digital_routes (gui_mixer g') = digital_routes (gui_mixer example_gui)"
    "card_controls (gui_mixer g') = card_controls (gui_mixer example_gui)"
    "links g' = links example_gui"
    by blast
  have e: "gui_mixer example_gui = example_mixer" "links example_gui = [None, None, Some 1]"
    "links other_gui = [Some 1, None, None]"
    by (simp_all add: example_gui_def other_gui_def)
  have c: "card_controls example_mixer =
          [(''Effect Volume'', volume_control ''Effect Volume'' 25),
           (''Effect Program'', enum_control ''Effect Program'' ''Hall 1'' [''Room 1'', ''Hall 1'', ''Plate''])]"
    by (simp add: example_mixer_def)
  have o: "GetVolume 0 0 False (gui_mixer other_gui) = Inr 0"
    by code_simp
  have "analog_routes (gui_mixer g') ! 0 ! 0 = Some (volume_control ''AIn1 - Out1'' 11)"
    by (simp add: r(3) e example_mixer_def)
  moreover have "length (analog_routes (gui_mixer g')) = 3" "length (analog_routes (gui_mixer g') ! 0) = 3"
    by (simp_all add: r(3) e example_mixer_def)
  ultimately have n: "GetVolume 0 0 False (gui_mixer g') = Inr 11"
    by (simp add: GetVolume_def route_at_def routes_of_def resolve_index_def ctl_getvolume0_def
        volume_control_def)
  show ?thesis
    using r e c o n by (intro exI [of _ d] exI [of _ g']) simp
qed

subsection \<open>The round trip on a card with more digital than analog inputs\<close>

text \<open>
  C1 does not hold of the code. The card with one analog and two digital inputs: \<open>__init__\<close>
  builds the state \<open>s\<close> with the digital route (0, 1) at 30, and, when it is asked to mute
  most digital routes, the state \<open>s'\<close> of the same card with that route at 0. Encoding \<open>s\<close>
  succeeds, but the dictionary has no key \<open>din2_to_out1\<close>, since the loop of \<open>GetConfigDict\<close>
  for the Digital section takes the range of the inputs from the analog row. Decoding the
  dictionary into \<open>s'\<close> succeeds, and the digital route (0, 1) is still at 0: the state
  that is read back is not \<open>s\<close>.
\<close>

theorem round_trip_uneven_rows:
  "Mixer_init uneven_card False False = (Inr (), uneven_mixer)
   \<and> Mixer_init uneven_card False True = (Inr (), muted_uneven_mixer)
   \<and> same_card (uneven_gui uneven_mixer) (uneven_gui muted_uneven_mixer)
   \<and> Encode (uneven_gui uneven_mixer) =
       Inr [(''Analog'', [(''ain1_to_out1'', VInt 10)]),
            (''Digital'', [(''din1_to_out1'', VInt 20)]),
            (''Effects'', []),
            (''GUI'', [(''link1to'', VStr ''0'')])]
   \<and> fst (Decode [(''Analog'', [(''ain1_to_out1'', VInt 10)]),
                   (''Digital'', [(''din1_to_out1'', VInt 20)]),
                   (''Effects'', []),
                   (''GUI'', [(''link1to'', VStr ''0'')])] (uneven_gui muted_uneven_mixer)) = Inr ()
   \<and> GetVolume 0 1 True uneven_mixer = Inr 30
   \<and> GetVolume 0 1 True
         (gui_mixer (snd (Decode [(''Analog'', [(''ain1_to_out1'', VInt 10)]),
                                  (''Digital'', [(''din1_to_out1'', VInt 20)]),
                                  (''Effects'', []),
                                  (''GUI'', [(''link1to'', VStr ''0'')])]
                            (uneven_gui muted_uneven_mixer)))) = Inr 0"
  by code_simp

end
